(* ===== verification/Prelude.thy ===== *)
theory Prelude
  imports Complex_Main "HOL-Library.Char_ord" "HOL-Library.List_Lexorder"
begin

text \<open>
  What the components share: database tables as lists of rows in insertion order, with the
  query forms the program uses (\<open>UPDATE .. WHERE\<close>, \<open>SELECT .. WHERE\<close>, \<open>COUNT\<close>, a unique key),
  a result type for raised exceptions, time in microseconds, and Python's float-to-integer
  conversions on exact rationals.  The collections \<open>table_simps\<close> and \<open>result_simps\<close> gather the
  rewriting lemmas of these two layers.
\<close>

named_theorems table_simps
named_theorems result_simps

section \<open>Results\<close>

text \<open>A call that may raise returns \<open>Inl\<close> the exception or \<open>Inr\<close> the value.\<close>

definition bind_result :: "'e + 'a \<Rightarrow> ('a \<Rightarrow> 'e + 'b) \<Rightarrow> 'e + 'b" where
  "bind_result m f = (case m of Inl e \<Rightarrow> Inl e | Inr x \<Rightarrow> f x)"

lemma bind_result_simps [simp, result_simps]:
  "bind_result (Inl e) f = Inl e"
  "bind_result (Inr x) f = f x"
  by (simp_all add: bind_result_def)

lemma bind_result_eq_Inr [result_simps]:
  "bind_result m f = Inr y \<longleftrightarrow> (\<exists>x. m = Inr x \<and> f x = Inr y)"
  by (cases m) auto

lemma bind_result_eq_Inl [result_simps]:
  "bind_result m f = Inl e \<longleftrightarrow> m = Inl e \<or> (\<exists>x. m = Inr x \<and> f x = Inl e)"
  by (cases m) auto

text \<open>The same for a call that also changes a state, which it leaves changed when it raises.\<close>

definition bind_state :: "('e + 'a) \<times> 's \<Rightarrow> ('a \<Rightarrow> 's \<Rightarrow> ('e + 'b) \<times> 's) \<Rightarrow> ('e + 'b) \<times> 's" where
  "bind_state m f = (case fst m of Inl e \<Rightarrow> (Inl e, snd m) | Inr x \<Rightarrow> f x (snd m))"

lemma bind_state_simps [simp, result_simps]:
  "bind_state (Inl e, s) f = (Inl e, s)"
  "bind_state (Inr x, s) f = f x s"
  by (simp_all add: bind_state_def)

lemma bind_state_eq_Inr [result_simps]:
  "bind_state m f = (Inr y, s) \<longleftrightarrow> (\<exists>x t. m = (Inr x, t) \<and> f x t = (Inr y, s))"
  by (cases m; cases "fst m") auto

text \<open>A loop that raises at the first element that raises, collecting the results in order.\<close>

fun map_result :: "('a \<Rightarrow> 'e + 'b) \<Rightarrow> 'a list \<Rightarrow> 'e + 'b list" where
  "map_result f [] = Inr []"
| "map_result f (x # xs) =
     bind_result (f x) (\<lambda>y. bind_result (map_result f xs) (\<lambda>ys. Inr (y # ys)))"

lemma map_result_Inr_iff [result_simps]:
  "map_result f xs = Inr ys \<longleftrightarrow> list_all2 (\<lambda>x y. f x = Inr y) xs ys"
  by (induction xs arbitrary: ys) (auto simp: list_all2_Cons1 bind_result_eq_Inr)

section \<open>Tables\<close>

type_synonym 'r table = "'r list"

definition update_where :: "('r \<Rightarrow> bool) \<Rightarrow> ('r \<Rightarrow> 'r) \<Rightarrow> 'r table \<Rightarrow> 'r table" where
  "update_where P f t = map (\<lambda>r. if P r then f r else r) t"

definition count_where :: "('r \<Rightarrow> bool) \<Rightarrow> 'r table \<Rightarrow> nat" where
  "count_where P t = length (filter P t)"

definition unique_on :: "('r \<Rightarrow> 'k) \<Rightarrow> 'r table \<Rightarrow> bool" where
  "unique_on key t = distinct (map key t)"

lemma update_where_simps [simp]:
  "update_where P f [] = []"
  "update_where P f (r # t) = (if P r then f r else r) # update_where P f t"
  "update_where P f (t @ u) = update_where P f t @ update_where P f u"
  by (simp_all add: update_where_def)

lemma length_update_where [simp, table_simps]: "length (update_where P f t) = length t"
  by (simp add: update_where_def)

lemma set_update_where [table_simps]:
  "set (update_where P f t) = {r \<in> set t. \<not> P r} \<union> f ` {r \<in> set t. P r}"
  by (auto simp: update_where_def)

lemma in_update_whereE:
  assumes "r \<in> set (update_where P f t)"
  obtains "r \<in> set t" "\<not> P r" | q where "q \<in> set t" "P q" "r = f q"
  using assms by (auto simp: set_update_where)

lemma map_update_where [table_simps]:
  assumes "\<And>r. P r \<Longrightarrow> g (f r) = g r"
  shows "map g (update_where P f t) = map g t"
  using assms by (induction t) auto

lemma unique_on_update_where:
  assumes "\<And>r. P r \<Longrightarrow> key (f r) = key r"
  shows "unique_on key (update_where P f t) = unique_on key t"
  using assms by (simp add: unique_on_def map_update_where)

lemma update_where_none:
  "(\<And>r. r \<in> set t \<Longrightarrow> \<not> P r) \<Longrightarrow> update_where P f t = t"
  by (induction t) auto

lemma unique_on_same:
  "unique_on key t \<Longrightarrow> r \<in> set t \<Longrightarrow> q \<in> set t \<Longrightarrow> key r = key q \<Longrightarrow> r = q"
  by (auto simp: unique_on_def distinct_map inj_on_def)

lemma unique_on_append [table_simps]:
  "unique_on key (t @ [r]) \<longleftrightarrow> unique_on key t \<and> key r \<notin> key ` set t"
  by (auto simp: unique_on_def)

lemma find_unique_on:
  "unique_on key t \<Longrightarrow> r \<in> set t \<Longrightarrow> find (\<lambda>q. key q = key r) t = Some r"
proof (induction t)
  case Nil
  then show ?case by simp
next
  case (Cons q t)
  then show ?case by (cases "q = r") (auto simp: unique_on_def)
qed

lemma find_SomeD:
  assumes "find P t = Some r"
  shows "r \<in> set t" and "P r"
  using assms by (auto simp: find_Some_iff)

lemma find_None_ball: "find P t = None \<longleftrightarrow> (\<forall>r \<in> set t. \<not> P r)"
  by (induction t) auto

lemma find_append [table_simps]:
  "find P (t @ u) = (case find P t of Some r \<Rightarrow> Some r | None \<Rightarrow> find P u)"
  by (induction t) auto

lemma count_where_append [simp, table_simps]:
  "count_where P (t @ u) = count_where P t + count_where P u"
  by (simp add: count_where_def)

lemma count_where_Nil_Cons [simp]:
  "count_where P [] = 0"
  "count_where P (r # t) = (if P r then Suc (count_where P t) else count_where P t)"
  by (simp_all add: count_where_def)

lemma count_where_mono:
  "(\<And>r. r \<in> set t \<Longrightarrow> P r \<Longrightarrow> Q r) \<Longrightarrow> count_where P t \<le> count_where Q t"
  by (induction t) (auto intro: le_SucI)

lemma count_where_update_le:
  assumes "\<And>r. r \<in> set t \<Longrightarrow> P (if W r then f r else r) \<Longrightarrow> P r"
  shows "count_where P (update_where W f t) \<le> count_where P t"
  using assms by (induction t) (auto intro: le_SucI split: if_splits)

text \<open>An update of the row with one key changes a count by at most one.\<close>

lemma count_where_update_key:
  assumes "unique_on key t"
  shows "count_where P (update_where (\<lambda>r. key r = k) f t) \<le> Suc (count_where P t)"
  using assms
proof (induction t)
  case Nil
  then show ?case by simp
next
  case (Cons r t)
  show ?case
  proof (cases "key r = k")
    case True
    with Cons.prems have "update_where (\<lambda>r. key r = k) f t = t"
      by (intro update_where_none) (auto simp: unique_on_def image_iff)
    with True show ?thesis by simp
  next
    case False
    with Cons show ?thesis by (auto simp: unique_on_def)
  qed
qed

section \<open>Time and numbers\<close>

text \<open>
  A \<open>datetime\<close> is the number of microseconds since the epoch, Python's own resolution; a
  \<open>timedelta\<close> is a number of microseconds.  Floats are exact rationals.
\<close>

type_synonym time = int

definition microseconds :: "int \<Rightarrow> time" where "microseconds n = n"
definition seconds :: "int \<Rightarrow> time" where "seconds n = n * 1000000"
definition minutes :: "int \<Rightarrow> time" where "minutes n = seconds (n * 60)"
definition hours :: "int \<Rightarrow> time" where "hours n = minutes (n * 60)"

text \<open>\<open>int(x)\<close> truncates towards zero; \<open>timedelta(seconds=x)\<close> rounds half to even.\<close>

definition py_trunc :: "rat \<Rightarrow> int" where
  "py_trunc x = (if x < 0 then - \<lfloor>- x\<rfloor> else \<lfloor>x\<rfloor>)"

definition round_half_even :: "rat \<Rightarrow> int" where
  "round_half_even x =
     (let d = x - of_int \<lfloor>x\<rfloor>
      in if d < 1 / 2 then \<lfloor>x\<rfloor> else if d > 1 / 2 then \<lfloor>x\<rfloor> + 1
         else if even \<lfloor>x\<rfloor> then \<lfloor>x\<rfloor> else \<lfloor>x\<rfloor> + 1)"

lemma py_trunc_nonneg: "0 \<le> x \<Longrightarrow> 0 \<le> py_trunc x"
  by (simp add: py_trunc_def)

lemma py_trunc_le: "0 \<le> x \<Longrightarrow> of_int (py_trunc x) \<le> x"
  by (simp add: py_trunc_def)

lemma round_half_even_bounds: "\<lfloor>x\<rfloor> \<le> round_half_even x \<and> round_half_even x \<le> \<lceil>x\<rceil>"
proof (cases "x = of_int \<lfloor>x\<rfloor>")
  case True
  then have "round_half_even x = \<lfloor>x\<rfloor>" by (simp add: round_half_even_def)
  then show ?thesis by (simp add: floor_le_ceiling)
next
  case False
  then have "\<lceil>x\<rceil> = \<lfloor>x\<rfloor> + 1" by (metis ceiling_altdef)
  then show ?thesis by (simp add: round_half_even_def Let_def)
qed

lemma round_half_even_lower: "of_int n \<le> x \<Longrightarrow> n \<le> round_half_even x"
  using round_half_even_bounds [of x] by (meson le_floor_iff order_trans)

lemma round_half_even_upper: "x \<le> of_int n \<Longrightarrow> round_half_even x \<le> n"
  using round_half_even_bounds [of x] by (meson ceiling_le order_trans)

end
