(* ===== verification/Py_Str.thy ===== *)
theory Py_Str
  imports Prelude
begin

text \<open>
  Python's \<open>str\<close> methods, as far as the program uses them.  A \<open>string\<close> is a list of code points
  U+0000 to U+00FF (one \<open>char\<close> each); on this range whitespace, \<open>lower\<close>, \<open>isdigit\<close> and \<open>repr\<close>
  below are exactly Python's.
\<close>

section \<open>Characters\<close>

definition ord :: "char \<Rightarrow> nat" where
  "ord c = of_char c"

definition py_space :: "char \<Rightarrow> bool" where
  "py_space c = (let n = ord c in
     (9 \<le> n \<and> n \<le> 13) \<or> (28 \<le> n \<and> n \<le> 32) \<or> n = 133 \<or> n = 160)"

definition py_upper_letter :: "char \<Rightarrow> bool" where
  "py_upper_letter c = (let n = ord c in
     (65 \<le> n \<and> n \<le> 90) \<or> (192 \<le> n \<and> n \<le> 222 \<and> n \<noteq> 215))"

definition lower_char :: "char \<Rightarrow> char" where
  "lower_char c = (if py_upper_letter c then char_of (ord c + 32) else c)"

text \<open>\<open>str.isdigit\<close> is also true of the superscripts two, three and one, which \<open>int()\<close> refuses.\<close>

definition ascii_digit :: "char \<Rightarrow> bool" where
  "ascii_digit c = (48 \<le> ord c \<and> ord c \<le> 57)"

definition py_digit :: "char \<Rightarrow> bool" where
  "py_digit c = (ascii_digit c \<or> ord c \<in> {178, 179, 185})"

lemma ord_less: "ord c < 256"
  by (simp add: ord_def)

lemma ord_char_of [simp]: "n < 256 \<Longrightarrow> ord (char_of n) = n"
  by (simp add: ord_def)

lemma ord_lower_char: "ord (lower_char c) = (if py_upper_letter c then ord c + 32 else ord c)"
  using ord_less [of c] by (auto simp: lower_char_def py_upper_letter_def Let_def)

lemma py_upper_letter_lower [simp]: "\<not> py_upper_letter (lower_char c)"
  by (auto simp: py_upper_letter_def [of "lower_char c"] Let_def ord_lower_char)
     (auto simp: py_upper_letter_def Let_def)

lemma lower_char_idem [simp]: "lower_char (lower_char c) = lower_char c"
  by (simp add: lower_char_def [of "lower_char c"])

lemma py_space_lower_char [simp]: "py_space (lower_char c) = py_space c"
  by (auto simp: py_space_def Let_def ord_lower_char py_upper_letter_def)

lemma lower_char_eq_iff:
  "\<not> py_upper_letter d \<Longrightarrow> \<not> (97 \<le> ord d \<and> ord d \<le> 122) \<Longrightarrow> \<not> 224 \<le> ord d \<Longrightarrow>
   lower_char c = d \<longleftrightarrow> c = d"
  using ord_lower_char [of c]
  by (auto simp: lower_char_def py_upper_letter_def Let_def split: if_splits)

section \<open>Strings\<close>

definition py_lower :: "string \<Rightarrow> string" where
  "py_lower = map lower_char"

definition py_lstrip :: "string \<Rightarrow> string" where
  "py_lstrip = dropWhile py_space"

definition py_rstrip :: "string \<Rightarrow> string" where
  "py_rstrip s = rev (dropWhile py_space (rev s))"

definition py_strip :: "string \<Rightarrow> string" where
  "py_strip s = py_rstrip (py_lstrip s)"

definition rstrip_chars :: "char list \<Rightarrow> string \<Rightarrow> string" where
  "rstrip_chars cs s = rev (dropWhile (\<lambda>c. c \<in> set cs) (rev s))"

definition strip_chars :: "char list \<Rightarrow> string \<Rightarrow> string" where
  "strip_chars cs s = rstrip_chars cs (dropWhile (\<lambda>c. c \<in> set cs) s)"

definition starts_with :: "string \<Rightarrow> string \<Rightarrow> bool" where
  "starts_with p s = (take (length p) s = p)"

definition ends_with :: "string \<Rightarrow> string \<Rightarrow> bool" where
  "ends_with p s = starts_with (rev p) (rev s)"

fun py_in :: "string \<Rightarrow> string \<Rightarrow> bool" where
  "py_in p [] = (p = [])"
| "py_in p (c # s) = (starts_with p (c # s) \<or> py_in p s)"

text \<open>\<open>s.partition(sep)\<close> and \<open>s.rpartition(sep)\<close> for a one-character separator.\<close>

definition partition_at :: "char \<Rightarrow> string \<Rightarrow> string \<times> string \<times> string" where
  "partition_at c s =
     (if c \<in> set s then (takeWhile (\<lambda>d. d \<noteq> c) s, [c], tl (dropWhile (\<lambda>d. d \<noteq> c) s))
      else (s, [], []))"

definition rpartition_at :: "char \<Rightarrow> string \<Rightarrow> string \<times> string \<times> string" where
  "rpartition_at c s =
     (if c \<in> set s
      then (rev (tl (dropWhile (\<lambda>d. d \<noteq> c) (rev s))), [c], rev (takeWhile (\<lambda>d. d \<noteq> c) (rev s)))
      else ([], [], s))"

text \<open>\<open>s.split("@", 1)[1]\<close>: \<open>None\<close> is the \<open>IndexError\<close> of a string with no separator.\<close>

definition after_first :: "char \<Rightarrow> string \<Rightarrow> string option" where
  "after_first c s = (if c \<in> set s then Some (tl (dropWhile (\<lambda>d. d \<noteq> c) s)) else None)"

fun py_join :: "string \<Rightarrow> string list \<Rightarrow> string" where
  "py_join sep [] = []"
| "py_join sep [s] = s"
| "py_join sep (s # ss) = s @ sep @ py_join sep ss"

fun replace_char :: "char \<Rightarrow> string \<Rightarrow> string \<Rightarrow> string" where
  "replace_char c r [] = []"
| "replace_char c r (d # s) = (if d = c then r else [d]) @ replace_char c r s"

fun split_char :: "char \<Rightarrow> string \<Rightarrow> string list" where
  "split_char c [] = [[]]"
| "split_char c (d # s) =
     (case split_char c s of
        [] \<Rightarrow> [[d]]
      | w # ws \<Rightarrow> if d = c then [] # w # ws else (d # w) # ws)"

text \<open>Truthiness of \<open>str | None\<close> and \<open>x or ""\<close>.\<close>

definition truthy_str :: "string option \<Rightarrow> bool" where
  "truthy_str s = (case s of None \<Rightarrow> False | Some t \<Rightarrow> t \<noteq> [])"

definition or_empty :: "string option \<Rightarrow> string" where
  "or_empty s = (case s of None \<Rightarrow> [] | Some t \<Rightarrow> t)"

definition or_none :: "string \<Rightarrow> string option" where
  "or_none s = (if s = [] then None else Some s)"

lemma py_lower_idem [simp]: "py_lower (py_lower s) = py_lower s"
  by (simp add: py_lower_def comp_def)

lemma py_lower_append [simp]: "py_lower (s @ t) = py_lower s @ py_lower t"
  by (simp add: py_lower_def)

lemma py_lower_Nil_iff [simp]: "py_lower s = [] \<longleftrightarrow> s = []"
  by (simp add: py_lower_def)

lemma dropWhile_py_lower: "dropWhile py_space (py_lower s) = py_lower (dropWhile py_space s)"
  by (induction s) (auto simp: py_lower_def)

lemma py_strip_lower: "py_strip (py_lower s) = py_lower (py_strip s)"
proof -
  have "rev (py_lower t) = py_lower (rev t)" for t
    by (simp add: py_lower_def rev_map)
  then show ?thesis
    by (simp add: py_strip_def py_rstrip_def py_lstrip_def dropWhile_py_lower)
qed

lemma py_strip_id: "\<forall>c \<in> set s. \<not> py_space c \<Longrightarrow> py_strip s = s"
proof -
  assume a: "\<forall>c \<in> set s. \<not> py_space c"
  have drop: "dropWhile py_space t = t" if "\<forall>c \<in> set t. \<not> py_space c" for t
    using that by (cases t) auto
  have "dropWhile py_space (rev s) = rev s"
    using a by (intro drop) simp
  with a show ?thesis by (simp add: py_strip_def py_lstrip_def py_rstrip_def drop)
qed

lemma dropWhile_until: "c \<notin> set a \<Longrightarrow> dropWhile (\<lambda>d. d \<noteq> c) (a @ c # b) = c # b"
  by (induction a) auto

lemma takeWhile_until: "c \<notin> set a \<Longrightarrow> takeWhile (\<lambda>d. d \<noteq> c) (a @ c # b) = a"
  by (induction a) auto

lemma partition_at_simps:
  "c \<notin> set a \<Longrightarrow> partition_at c (a @ c # b) = (a, [c], b)"
  by (simp add: partition_at_def takeWhile_until dropWhile_until)

lemma rpartition_at_simps:
  assumes "c \<notin> set b"
  shows "rpartition_at c (a @ c # b) = (a, [c], b)"
proof -
  have "takeWhile (\<lambda>d. d \<noteq> c) (rev b @ c # rev a) = rev b"
    using assms by (simp add: takeWhile_until)
  moreover have "dropWhile (\<lambda>d. d \<noteq> c) (rev b @ c # rev a) = c # rev a"
    using assms by (simp add: dropWhile_until)
  ultimately show ?thesis by (simp add: rpartition_at_def)
qed

lemma rpartition_at_append:
  "rpartition_at c s = (a, p, b) \<Longrightarrow> a @ p @ b = s"
proof (cases "c \<in> set s")
  case True
  then obtain x y where s: "s = x @ c # y" and "c \<notin> set y"
    by (meson split_list_last)
  moreover assume "rpartition_at c s = (a, p, b)"
  ultimately show ?thesis by (simp add: rpartition_at_simps)
next
  case False
  moreover assume "rpartition_at c s = (a, p, b)"
  ultimately show ?thesis by (simp add: rpartition_at_def)
qed

lemma after_first_simps: "c \<notin> set a \<Longrightarrow> after_first c (a @ c # b) = Some b"
  by (simp add: after_first_def dropWhile_until)

lemma starts_with_append [simp]: "starts_with p (p @ s)"
  by (simp add: starts_with_def)

lemma starts_with_iff: "starts_with p s \<longleftrightarrow> (\<exists>t. s = p @ t)"
  by (metis append_take_drop_id append_eq_conv_conj starts_with_def)

lemma py_in_iff: "py_in p s \<longleftrightarrow> (\<exists>a b. s = a @ p @ b)"
proof (induction s)
  case Nil
  then show ?case by auto
next
  case (Cons c s)
  have "(\<exists>a b. c # s = a @ p @ b) \<longleftrightarrow> starts_with p (c # s) \<or> (\<exists>a b. s = a @ p @ b)"
    unfolding starts_with_iff by (metis append_Cons append_Nil list.inject neq_Nil_conv)
  with Cons show ?case by simp
qed

section \<open>Numbers and \<open>repr\<close> in messages\<close>

definition digit_char :: "nat \<Rightarrow> char" where
  "digit_char n = char_of (48 + n)"

fun str_of_nat :: "nat \<Rightarrow> string" where
  "str_of_nat n = (if n < 10 then [digit_char n] else str_of_nat (n div 10) @ [digit_char (n mod 10)])"

declare str_of_nat.simps [simp del]

definition str_of_int :: "int \<Rightarrow> string" where
  "str_of_int i = (if i < 0 then ''-'' @ str_of_nat (nat (- i)) else str_of_nat (nat i))"

definition str_of_int_option :: "int option \<Rightarrow> string" where
  "str_of_int_option i = (case i of None \<Rightarrow> ''None'' | Some n \<Rightarrow> str_of_int n)"

definition hex_char :: "nat \<Rightarrow> char" where
  "hex_char n = (if n < 10 then char_of (48 + n) else char_of (87 + n))"

text \<open>\<open>repr\<close> of a string, with its choice of quote and its escapes.\<close>

definition repr_char :: "char \<Rightarrow> char \<Rightarrow> string" where
  "repr_char q c = (let n = ord c in
     if c = q \<or> n = 92 then [char_of (92::nat), c]
     else if n = 9 then [char_of (92::nat), CHR ''t'']
     else if n = 10 then [char_of (92::nat), CHR ''n'']
     else if n = 13 then [char_of (92::nat), CHR ''r'']
     else if n < 32 \<or> (127 \<le> n \<and> n \<le> 160) \<or> n = 173
       then [char_of (92::nat), CHR ''x'', hex_char (n div 16), hex_char (n mod 16)]
     else [c])"

definition py_repr :: "string \<Rightarrow> string" where
  "py_repr s = (let q = (if CHR 39 \<in> set s \<and> CHR 34 \<notin> set s then CHR 34 else CHR 39)
     in [q] @ concat (map (repr_char q) s) @ [q])"

text \<open>\<open>sorted\<close> of a set of strings: code-point order, no duplicates.\<close>

definition sorted_set :: "string list \<Rightarrow> string list" where
  "sorted_set xs = sort (remdups xs)"

lemma sorted_set_props [simp]:
  "set (sorted_set xs) = set xs" "distinct (sorted_set xs)" "sorted (sorted_set xs)"
  by (simp_all add: sorted_set_def)

end
