(* ===== verification/Errors.thy ===== *)
theory Errors
  imports Py_Str
begin

text \<open>
  The exceptions the program raises (one datatype; a class test is a pattern), JSON values as the
  provider and the event log carry them, and the API's error model (emaild/errors.py): status
  code, error type and payload of every error class, and the two exception handlers.
\<close>

section \<open>JSON values\<close>

text \<open>Dictionaries keep insertion order, as Python's do; numbers are integers.\<close>

datatype json =
    JNull
  | JBool bool
  | JInt int
  | JStr string
  | JArr "json list"
  | JObj "(string \<times> json) list"

definition dict_get :: "(string \<times> 'v) list \<Rightarrow> string \<Rightarrow> 'v option" where
  "dict_get d k = map_of d k"

text \<open>\<open>d[k] = v\<close>: an existing key keeps its position.\<close>

definition dict_put :: "string \<Rightarrow> 'v \<Rightarrow> (string \<times> 'v) list \<Rightarrow> (string \<times> 'v) list" where
  "dict_put k v d =
     (if k \<in> fst ` set d then map (\<lambda>(k', v'). (k', if k' = k then v else v')) d else d @ [(k, v)])"

definition json_truthy :: "json \<Rightarrow> bool" where
  "json_truthy j = (case j of
       JNull \<Rightarrow> False | JBool b \<Rightarrow> b | JInt i \<Rightarrow> i \<noteq> 0 | JStr s \<Rightarrow> s \<noteq> []
     | JArr xs \<Rightarrow> xs \<noteq> [] | JObj kvs \<Rightarrow> kvs \<noteq> [])"

definition json_or :: "json \<Rightarrow> json \<Rightarrow> json" where
  "json_or j k = (if json_truthy j then j else k)"

definition json_of_str_option :: "string option \<Rightarrow> json" where
  "json_of_str_option s = (case s of None \<Rightarrow> JNull | Some t \<Rightarrow> JStr t)"

definition json_of_int_option :: "int option \<Rightarrow> json" where
  "json_of_int_option i = (case i of None \<Rightarrow> JNull | Some n \<Rightarrow> JInt n)"

definition py_type_name :: "json \<Rightarrow> string" where
  "py_type_name j = (case j of
       JNull \<Rightarrow> ''NoneType'' | JBool _ \<Rightarrow> ''bool'' | JInt _ \<Rightarrow> ''int'' | JStr _ \<Rightarrow> ''str''
     | JArr _ \<Rightarrow> ''list'' | JObj _ \<Rightarrow> ''dict'')"

text \<open>\<open>str()\<close> of a JSON value: a string is itself, anything nested is its \<open>repr\<close>.\<close>

fun json_repr :: "json \<Rightarrow> string" where
  "json_repr JNull = ''None''"
| "json_repr (JBool b) = (if b then ''True'' else ''False'')"
| "json_repr (JInt i) = str_of_int i"
| "json_repr (JStr s) = py_repr s"
| "json_repr (JArr xs) = ''['' @ py_join '', '' (map json_repr xs) @ '']''"
| "json_repr (JObj kvs) =
     ''{'' @ py_join '', '' (map (\<lambda>(k, v). py_repr k @ '': '' @ json_repr v) kvs) @ ''}''"

definition json_str :: "json \<Rightarrow> string" where
  "json_str j = (case j of JStr s \<Rightarrow> s | _ \<Rightarrow> json_repr j)"

section \<open>Exceptions\<close>

datatype api_error_class =
    Invalid_Request
  | Authentication_Error
  | Authorization_Error
  | Validation_Error
  | Domain_Not_Ready
  | Suppressed_Recipient
  | Rate_Limit_Error
  | Idempotency_Conflict
  | Idempotency_Key_Reused
  | Message_Not_Found

datatype exn =
    Api_Error api_error_class string "string option"
  | MX_Error string
  | MX_Auth_Error string
  | MX_Not_Found string
  | MX_Conflict string
  | MX_Unavailable string
  | MX_API_Error string string "string option"
  | Job_Error string
  | Management_Error string
  | Provisioning_Error string
  | Policy_Violation string
  | Invalid_Address string
  | Send_Refused string
  | Secret_Store_Error string
  | Decryption_Error
  | Integrity_Error
  | Multiple_Results_Found
  | Lookup_Error string
  | Attribute_Error string
  | Type_Error string
  | Key_Error string
  | Index_Error
  | Value_Error string
  | Runtime_Error string
  | OS_Error string
  | Credentials_Missing string

type_synonym 'a result = "exn + 'a"

fun is_mx_error :: "exn \<Rightarrow> bool" where
  "is_mx_error (MX_Error _) = True"
| "is_mx_error (MX_Auth_Error _) = True"
| "is_mx_error (MX_Not_Found _) = True"
| "is_mx_error (MX_Conflict _) = True"
| "is_mx_error (MX_Unavailable _) = True"
| "is_mx_error (MX_API_Error _ _ _) = True"
| "is_mx_error _ = False"

text \<open>\<open>str(exc)\<close>.  The texts of driver exceptions are not the program's; they are left empty.\<close>

fun exn_text :: "exn \<Rightarrow> string" where
  "exn_text (Api_Error _ m _) = m"
| "exn_text (MX_Error m) = m"
| "exn_text (MX_Auth_Error m) = m"
| "exn_text (MX_Not_Found m) = m"
| "exn_text (MX_Conflict m) = m"
| "exn_text (MX_Unavailable m) = m"
| "exn_text (MX_API_Error code m field) =
     code @ '': '' @ m @ (case field of None \<Rightarrow> [] | Some f \<Rightarrow>
       if f = [] then [] else '' (field='' @ f @ '')'')"
| "exn_text (Job_Error m) = m"
| "exn_text (Management_Error m) = m"
| "exn_text (Provisioning_Error m) = m"
| "exn_text (Policy_Violation m) = m"
| "exn_text (Invalid_Address m) = m"
| "exn_text (Send_Refused m) = m"
| "exn_text (Secret_Store_Error m) = m"
| "exn_text (Lookup_Error m) = m"
| "exn_text (Attribute_Error m) = m"
| "exn_text (Type_Error m) = m"
| "exn_text (Key_Error m) = py_repr m"
| "exn_text (Value_Error m) = m"
| "exn_text (Runtime_Error m) = m"
| "exn_text (OS_Error m) = m"
| "exn_text (Credentials_Missing m) = m"
| "exn_text _ = []"

text \<open>\<open>j.get(k)\<close> on a parsed JSON value: only a dictionary has the method.\<close>

definition json_get :: "json \<Rightarrow> string \<Rightarrow> json result" where
  "json_get j k = (case j of
       JObj kvs \<Rightarrow> Inr (case dict_get kvs k of None \<Rightarrow> JNull | Some v \<Rightarrow> v)
     | _ \<Rightarrow> Inl (Attribute_Error ([CHR 39] @ py_type_name j @ [CHR 39] @
              '' object has no attribute '' @ py_repr ''get'')))"

text \<open>
  A string method on a value that is not a string raises \<open>AttributeError\<close>; a loop runs over a
  list's elements, an object's keys or a string's characters.
\<close>

definition no_method :: "json \<Rightarrow> string \<Rightarrow> exn" where
  "no_method j m = Attribute_Error ([CHR 39] @ py_type_name j @ [CHR 39] @
     '' object has no attribute '' @ py_repr m)"

definition json_text_of :: "json \<Rightarrow> string \<Rightarrow> string result" where
  "json_text_of j m = (case j of JStr s \<Rightarrow> Inr s | _ \<Rightarrow> Inl (no_method j m))"

definition json_items :: "json \<Rightarrow> json list result" where
  "json_items j = (case j of
       JArr xs \<Rightarrow> Inr xs
     | JObj kvs \<Rightarrow> Inr (map (\<lambda>(k, v). JStr k) kvs)
     | JStr s \<Rightarrow> Inr (map (\<lambda>c. JStr [c]) s)
     | _ \<Rightarrow> Inl (Type_Error ([CHR 39] @ py_type_name j @ [CHR 39] @ '' object is not iterable'')))"

text \<open>\<open>payload.get(k) or default\<close>.\<close>

definition get_or :: "json \<Rightarrow> string \<Rightarrow> json \<Rightarrow> json result" where
  "get_or j k default_value = bind_result (json_get j k) (\<lambda>v. Inr (json_or v default_value))"

lemma json_text_of_Inr [simp]: "json_text_of j m = Inr s \<longleftrightarrow> j = JStr s"
  by (auto simp: json_text_of_def split: json.splits)

text \<open>\<open>j.get(k, default)\<close>: the default stands for an absent key only.\<close>

definition json_get_default :: "json \<Rightarrow> string \<Rightarrow> json \<Rightarrow> json result" where
  "json_get_default j k default_value = (case j of
       JObj kvs \<Rightarrow> Inr (case dict_get kvs k of None \<Rightarrow> default_value | Some v \<Rightarrow> v)
     | _ \<Rightarrow> Inl (no_method j ''get''))"

text \<open>\<open>j[0]\<close>.\<close>

definition json_first :: "json \<Rightarrow> json result" where
  "json_first j = (case j of
       JArr (x # _) \<Rightarrow> Inr x
     | JArr [] \<Rightarrow> Inl Index_Error
     | JStr (c # _) \<Rightarrow> Inr (JStr [c])
     | JStr [] \<Rightarrow> Inl Index_Error
     | JObj _ \<Rightarrow> Inl (Key_Error ''0'')
     | _ \<Rightarrow> Inl (Type_Error ([CHR 39] @ py_type_name j @ [CHR 39] @ '' object is not subscriptable'')))"

text \<open>
  \<open>dict(j or {})\<close>: an object, or a list of pairs with string keys; a list of anything else raises.
\<close>

definition pair_of :: "json \<Rightarrow> (string \<times> json) result" where
  "pair_of j = (case j of
       JArr [JStr k, v] \<Rightarrow> Inr (k, v)
     | JStr [c, d] \<Rightarrow> Inr ([c], JStr [d])
     | _ \<Rightarrow> Inl (Value_Error ''dictionary update sequence element''))"

definition json_dict_or_empty :: "json \<Rightarrow> json result" where
  "json_dict_or_empty j =
     (if \<not> json_truthy j then Inr (JObj [])
      else case j of
        JObj kvs \<Rightarrow> Inr (JObj kvs)
      | _ \<Rightarrow> bind_result (json_items j) (\<lambda>xs. bind_result (map_result pair_of xs) (\<lambda>kvs.
          Inr (JObj (fold (\<lambda>(k, v). dict_put k v) kvs [])))))"

definition json_list_or_empty :: "json \<Rightarrow> json list result" where
  "json_list_or_empty j = (if json_truthy j then json_items j else Inr [])"

text \<open>\<open>SELECT .. scalar_one_or_none()\<close>: more than one row raises.\<close>

definition scalar_one_or_none :: "'r list \<Rightarrow> 'r option result" where
  "scalar_one_or_none rows = (case rows of
       [] \<Rightarrow> Inr None | [r] \<Rightarrow> Inr (Some r) | _ \<Rightarrow> Inl Multiple_Results_Found)"

lemma scalar_one_or_none_unique:
  assumes "unique_on key t"
  shows "scalar_one_or_none (filter (\<lambda>r. key r = k) t) = Inr (find (\<lambda>r. key r = k) t)"
  using assms
proof (induction t)
  case Nil
  then show ?case by (simp add: scalar_one_or_none_def)
next
  case (Cons r t)
  show ?case
  proof (cases "key r = k")
    case True
    with Cons.prems have "filter (\<lambda>q. key q = k) t = []"
      by (auto simp: unique_on_def filter_empty_conv image_iff)
    with True show ?thesis by (simp add: scalar_one_or_none_def)
  next
    case False
    with Cons show ?thesis by (simp add: unique_on_def)
  qed
qed

lemma scalar_one_or_none_many:
  "scalar_one_or_none rows = Inl Multiple_Results_Found \<longleftrightarrow> 2 \<le> length rows"
  by (auto simp: scalar_one_or_none_def neq_Nil_conv Suc_le_length_iff numeral_2_eq_2
      split: list.split)

section \<open>The API error model\<close>

definition status_code :: "api_error_class \<Rightarrow> nat" where
  "status_code c = (case c of
       Invalid_Request \<Rightarrow> 400
     | Authentication_Error \<Rightarrow> 401
     | Authorization_Error \<Rightarrow> 403
     | Validation_Error \<Rightarrow> 422
     | Domain_Not_Ready \<Rightarrow> 422
     | Suppressed_Recipient \<Rightarrow> 422
     | Rate_Limit_Error \<Rightarrow> 429
     | Idempotency_Conflict \<Rightarrow> 409
     | Idempotency_Key_Reused \<Rightarrow> 422
     | Message_Not_Found \<Rightarrow> 404)"

definition error_type :: "api_error_class \<Rightarrow> string" where
  "error_type c = (case c of
       Invalid_Request \<Rightarrow> ''invalid_request''
     | Authentication_Error \<Rightarrow> ''authentication_error''
     | Authorization_Error \<Rightarrow> ''authorization_error''
     | Validation_Error \<Rightarrow> ''validation_error''
     | Domain_Not_Ready \<Rightarrow> ''domain_not_ready''
     | Suppressed_Recipient \<Rightarrow> ''suppressed_recipient''
     | Rate_Limit_Error \<Rightarrow> ''rate_limit_exceeded''
     | Idempotency_Conflict \<Rightarrow> ''idempotency_conflict''
     | Idempotency_Key_Reused \<Rightarrow> ''idempotency_key_reused''
     | Message_Not_Found \<Rightarrow> ''not_found'')"

definition to_payload :: "api_error_class \<Rightarrow> string \<Rightarrow> string option \<Rightarrow> json" where
  "to_payload c m param =
     JObj [(''error'', JObj ([(''type'', JStr (error_type c)), (''message'', JStr m)]
        @ (case param of None \<Rightarrow> [] | Some p \<Rightarrow> if p = [] then [] else [(''param'', JStr p)])))]"

record json_response =
  rs_status :: nat
  rs_content :: json
  rs_headers :: "(string \<times> string) list"

text \<open>\<open>api_error_handler\<close>: an exception that is not an \<open>ApiError\<close> is raised again.\<close>

definition api_error_handler :: "exn \<Rightarrow> json_response result" where
  "api_error_handler e = (case e of
       Api_Error c m param \<Rightarrow>
         Inr \<lparr>rs_status = status_code c, rs_content = to_payload c m param,
              rs_headers = (if c = Authentication_Error
                            then [(''WWW-Authenticate'', ''Bearer'')] else [])\<rparr>
     | _ \<Rightarrow> Inl e)"

text \<open>
  \<open>validation_exception_handler\<close>: the framework's list of errors, each with the path of the
  offending field and an optional message.
\<close>

record schema_error =
  se_loc :: "string list"
  se_msg :: "string option"

definition remove_prefix :: "string \<Rightarrow> string \<Rightarrow> string" where
  "remove_prefix p s = (if starts_with p s then drop (length p) s else s)"

definition validation_exception_handler :: "schema_error list \<Rightarrow> json_response" where
  "validation_exception_handler errors =
     (let location = (case errors of [] \<Rightarrow> [] | e # _ \<Rightarrow>
            filter (\<lambda>p. p \<notin> {''body'', ''query'', ''header''}) (se_loc e));
          param = or_none (py_join ''.'' location);
          message = (case errors of [] \<Rightarrow> ''Request body failed validation.'' | e # _ \<Rightarrow>
            (case se_msg e of None \<Rightarrow> ''Request body failed validation.'' | Some m \<Rightarrow> m));
          message' = remove_prefix ''Value error, '' message;
          message'' = (case param of None \<Rightarrow> message' | Some p \<Rightarrow>
            if py_in p message' then message' else message' @ '' (field: '' @ p @ '')'')
      in \<lparr>rs_status = 422,
          rs_content = JObj [(''error'', JObj ([(''type'', JStr ''validation_error''),
             (''message'', JStr message'')]
             @ (case param of None \<Rightarrow> [] | Some p \<Rightarrow> [(''param'', JStr p)])))],
          rs_headers = []\<rparr>)"

text \<open>Every error body has the one shape of the documentation.\<close>

definition error_shape :: "json \<Rightarrow> bool" where
  "error_shape j = (case j of
       JObj [(k, JObj ((t, JStr ty) # (m, JStr msg) # rest))] \<Rightarrow>
         k = ''error'' \<and> t = ''type'' \<and> m = ''message'' \<and>
         (rest = [] \<or> (\<exists>p. p \<noteq> [] \<and> rest = [(''param'', JStr p)]))
     | _ \<Rightarrow> False)"

lemma to_payload_shape: "error_shape (to_payload c m p)"
  by (simp add: error_shape_def to_payload_def split: option.split)

lemma validation_exception_handler_shape:
  "error_shape (rs_content (validation_exception_handler errors))"
  by (simp add: error_shape_def validation_exception_handler_def Let_def or_none_def
      split: option.split)

end
