(* ===== verification/Models.thy ===== *)
theory Models
  imports Errors
begin

text \<open>
  The data model (emaild/models.py): the enumerations with their stored values, one record per
  table, the database as the tables together, and the constraints the schema declares.  A table
  is the list of its rows in insertion order.  Row ids are drawn from one counter; only their
  freshness matters.  The columns no code reads (\<open>updated_at\<close>, \<open>provider_checked_at\<close> and the whole
  of \<open>send_counters\<close>) are left out.
\<close>

section \<open>Enumerations\<close>

datatype domain_status =
  Added | Ownership_Pending | Dns_Incomplete | Verified | Ready | Suspended | Misconfigured

datatype message_status =
  Queued | Sending | Accepted_By_Provider | Temporarily_Failed | Permanently_Rejected | Canceled

datatype failure_class =
    Auth_Failure | Recipient_Rejected | Sender_Unauthorized | Sender_Mismatch | Rate_Limited
  | Provider_Deferral | Connection | Policy_Rejected | Message_Invalid | Internal | Unknown

datatype suppression_source = Manual | Bounce | Complaint

datatype job_type = Add_Domain | Verify_Domain

datatype job_status = Pending | Running | Succeeded | Failed

definition domain_status_value :: "domain_status \<Rightarrow> string" where
  "domain_status_value s = (case s of
       Added \<Rightarrow> ''added'' | Ownership_Pending \<Rightarrow> ''ownership_pending''
     | Dns_Incomplete \<Rightarrow> ''dns_incomplete'' | Verified \<Rightarrow> ''verified'' | Ready \<Rightarrow> ''ready''
     | Suspended \<Rightarrow> ''suspended'' | Misconfigured \<Rightarrow> ''misconfigured'')"

definition message_status_value :: "message_status \<Rightarrow> string" where
  "message_status_value s = (case s of
       Queued \<Rightarrow> ''queued'' | Sending \<Rightarrow> ''sending''
     | Accepted_By_Provider \<Rightarrow> ''accepted_by_provider''
     | Temporarily_Failed \<Rightarrow> ''temporarily_failed''
     | Permanently_Rejected \<Rightarrow> ''permanently_rejected'' | Canceled \<Rightarrow> ''canceled'')"

definition failure_class_value :: "failure_class \<Rightarrow> string" where
  "failure_class_value c = (case c of
       Auth_Failure \<Rightarrow> ''auth_failure'' | Recipient_Rejected \<Rightarrow> ''recipient_rejected''
     | Sender_Unauthorized \<Rightarrow> ''sender_unauthorized'' | Sender_Mismatch \<Rightarrow> ''sender_mismatch''
     | Rate_Limited \<Rightarrow> ''rate_limited'' | Provider_Deferral \<Rightarrow> ''provider_deferral''
     | Connection \<Rightarrow> ''connection'' | Policy_Rejected \<Rightarrow> ''policy_rejected''
     | Message_Invalid \<Rightarrow> ''message_invalid'' | Internal \<Rightarrow> ''internal'' | Unknown \<Rightarrow> ''unknown'')"

definition suppression_source_value :: "suppression_source \<Rightarrow> string" where
  "suppression_source_value s = (case s of
       Manual \<Rightarrow> ''manual'' | Bounce \<Rightarrow> ''bounce'' | Complaint \<Rightarrow> ''complaint'')"

definition job_type_value :: "job_type \<Rightarrow> string" where
  "job_type_value t = (case t of Add_Domain \<Rightarrow> ''add_domain'' | Verify_Domain \<Rightarrow> ''verify_domain'')"

definition job_status_value :: "job_status \<Rightarrow> string" where
  "job_status_value s = (case s of
       Pending \<Rightarrow> ''pending'' | Running \<Rightarrow> ''running'' | Succeeded \<Rightarrow> ''succeeded'' | Failed \<Rightarrow> ''failed'')"

definition terminal_statuses :: "message_status list" where
  "terminal_statuses = [Accepted_By_Provider, Permanently_Rejected, Canceled]"

abbreviation terminal :: "message_status \<Rightarrow> bool" where
  "terminal s \<equiv> s \<in> set terminal_statuses"

text \<open>The enumerations are finite: quantification over a status is a finite check.\<close>

instantiation message_status :: enum
begin

definition enum_message_status :: "message_status list" where
  "enum_message_status =
     [Queued, Sending, Accepted_By_Provider, Temporarily_Failed, Permanently_Rejected, Canceled]"

definition enum_all_message_status :: "(message_status \<Rightarrow> bool) \<Rightarrow> bool" where
  "enum_all_message_status P \<longleftrightarrow> list_all P enum_class.enum"

definition enum_ex_message_status :: "(message_status \<Rightarrow> bool) \<Rightarrow> bool" where
  "enum_ex_message_status P \<longleftrightarrow> list_ex P enum_class.enum"

instance
proof
  show univ: "(UNIV :: message_status set) = set enum_class.enum"
    by (auto simp: enum_message_status_def intro: message_status.exhaust)
  show "distinct (enum_class.enum :: message_status list)"
    by (simp add: enum_message_status_def)
  show "enum_class.enum_all P \<longleftrightarrow> Ball UNIV P" for P :: "message_status \<Rightarrow> bool"
    by (simp add: enum_all_message_status_def list_all_iff univ)
  show "enum_class.enum_ex P \<longleftrightarrow> Bex UNIV P" for P :: "message_status \<Rightarrow> bool"
    by (simp add: enum_ex_message_status_def list_ex_iff univ)
qed

end

instantiation domain_status :: enum
begin

definition enum_domain_status :: "domain_status list" where
  "enum_domain_status =
     [Added, Ownership_Pending, Dns_Incomplete, Verified, Ready, Suspended, Misconfigured]"

definition enum_all_domain_status :: "(domain_status \<Rightarrow> bool) \<Rightarrow> bool" where
  "enum_all_domain_status P \<longleftrightarrow> list_all P enum_class.enum"

definition enum_ex_domain_status :: "(domain_status \<Rightarrow> bool) \<Rightarrow> bool" where
  "enum_ex_domain_status P \<longleftrightarrow> list_ex P enum_class.enum"

instance
proof
  show univ: "(UNIV :: domain_status set) = set enum_class.enum"
    by (auto simp: enum_domain_status_def intro: domain_status.exhaust)
  show "distinct (enum_class.enum :: domain_status list)"
    by (simp add: enum_domain_status_def)
  show "enum_class.enum_all P \<longleftrightarrow> Ball UNIV P" for P :: "domain_status \<Rightarrow> bool"
    by (simp add: enum_all_domain_status_def list_all_iff univ)
  show "enum_class.enum_ex P \<longleftrightarrow> Bex UNIV P" for P :: "domain_status \<Rightarrow> bool"
    by (simp add: enum_ex_domain_status_def list_ex_iff univ)
qed

end

section \<open>Tables\<close>

record installation_row =
  in_id :: nat
  in_installation_id :: string
  in_installed_at :: time
  in_installed_version :: string

record project_row =
  pr_id :: nat
  pr_name :: string
  pr_description :: "string option"
  pr_active :: bool
  pr_created_at :: time

record domain_row =
  dm_id :: nat
  dm_name :: string
  dm_status :: domain_status
  dm_smtp_host :: "string option"
  dm_required_records :: "json option"
  dm_dns_state :: "json option"
  dm_dns_checked_at :: "time option"
  dm_verification_token :: "string option"
  dm_created_at :: time

definition can_send :: "domain_row \<Rightarrow> bool" where
  "can_send d = (dm_status d = Ready)"

record mailbox_row =
  mb_id :: nat
  mb_domain_id :: nat
  mb_address :: string
  mb_password_encrypted :: string
  mb_display_name :: "string option"
  mb_hourly_limit :: int
  mb_daily_limit :: int
  mb_active :: bool
  mb_provisioned_at :: "time option"
  mb_created_at :: time

record api_key_row =
  ak_id :: nat
  ak_project_id :: nat
  ak_name :: string
  ak_key_hash :: string
  ak_key_prefix :: string
  ak_active :: bool
  ak_created_at :: time
  ak_last_used_at :: "time option"
  ak_revoked_at :: "time option"

record scope_row =
  sc_id :: nat
  sc_api_key_id :: nat
  sc_mailbox_id :: nat

record message_row =
  ms_id :: nat
  ms_public_id :: string
  ms_project_id :: nat
  ms_mailbox_id :: nat
  ms_api_key_id :: "nat option"
  ms_status :: message_status
  ms_from_address :: string
  ms_from_name :: "string option"
  ms_to_addresses :: "string list"
  ms_cc_addresses :: "string list option"
  ms_bcc_addresses :: "string list option"
  ms_reply_to :: "string option"
  ms_subject :: "string option"
  ms_return_path :: "string option"
  ms_body_html :: "string option"
  ms_body_text :: "string option"
  ms_body_purged_at :: "time option"
  ms_size_bytes :: nat
  ms_recipient_count :: nat
  ms_last_attempt_at :: "time option"
  ms_attempts :: nat
  ms_next_attempt_at :: "time option"
  ms_claimed_by :: "string option"
  ms_claimed_at :: "time option"
  ms_provider_response :: "string option"
  ms_provider_latency_ms :: "int option"
  ms_failure_class :: "failure_class option"
  ms_failure_code :: "int option"
  ms_needs_review :: bool
  ms_created_at :: time
  ms_completed_at :: "time option"

record event_row =
  ev_id :: nat
  ev_message_id :: nat
  ev_sequence :: nat
  ev_event_type :: string
  ev_detail :: "json option"
  ev_occurred_at :: time

record suppression_row =
  su_id :: nat
  su_address :: string
  su_source :: suppression_source
  su_reason :: "string option"
  su_project_id :: "nat option"
  su_created_at :: time

record idempotency_row =
  ik_id :: nat
  ik_project_id :: nat
  ik_key :: string
  ik_request_hash :: string
  ik_message_id :: "nat option"
  ik_response_status :: "nat option"
  ik_response_body :: "json option"
  ik_created_at :: time
  ik_expires_at :: time

record heartbeat_row =
  hb_id :: nat
  hb_worker_id :: string
  hb_version :: "string option"
  hb_last_seen_at :: time
  hb_messages_processed :: nat

record job_row =
  jb_id :: nat
  jb_job_type :: job_type
  jb_status :: job_status
  jb_payload :: "(string \<times> json) list option"
  jb_requested_by :: string
  jb_result :: "string option"
  jb_created_at :: time
  jb_claimed_at :: "time option"
  jb_completed_at :: "time option"

record db =
  installation :: "installation_row table"
  projects :: "project_row table"
  domains :: "domain_row table"
  mailboxes :: "mailbox_row table"
  api_keys :: "api_key_row table"
  api_key_scopes :: "scope_row table"
  messages :: "message_row table"
  events :: "event_row table"
  suppressions :: "suppression_row table"
  idempotency_keys :: "idempotency_row table"
  worker_heartbeats :: "heartbeat_row table"
  provisioning_jobs :: "job_row table"
  next_id :: nat

definition empty_db :: db where
  "empty_db = \<lparr>installation = [], projects = [], domains = [], mailboxes = [], api_keys = [],
     api_key_scopes = [], messages = [], events = [], suppressions = [], idempotency_keys = [],
     worker_heartbeats = [], provisioning_jobs = [], next_id = 1\<rparr>"

section \<open>Constraints\<close>

text \<open>
  The \<open>unique=True\<close> columns, the unique constraints over two columns, the check constraints and
  the freshness of ids, table by table.
\<close>

definition ids_below :: "('r \<Rightarrow> nat) \<Rightarrow> nat \<Rightarrow> 'r table \<Rightarrow> bool" where
  "ids_below key n t = list_all (\<lambda>r. key r < n) t"

definition messages_ok :: "db \<Rightarrow> bool" where
  "messages_ok d = (unique_on ms_id (messages d) \<and> unique_on ms_public_id (messages d)
     \<and> ids_below ms_id (next_id d) (messages d))"

definition events_ok :: "db \<Rightarrow> bool" where
  "events_ok d = (unique_on (\<lambda>e. (ev_message_id e, ev_sequence e)) (events d))"

definition suppressions_ok :: "db \<Rightarrow> bool" where
  "suppressions_ok d = unique_on su_address (suppressions d)"

definition idempotency_ok :: "db \<Rightarrow> bool" where
  "idempotency_ok d = unique_on (\<lambda>k. (ik_project_id k, ik_key k)) (idempotency_keys d)"

definition mailbox_limits_ok :: "mailbox_row \<Rightarrow> bool" where
  "mailbox_limits_ok m = (0 < mb_hourly_limit m \<and> mb_hourly_limit m \<le> 400 \<and>
     0 < mb_daily_limit m \<and> mb_daily_limit m \<le> 9600)"

definition mailboxes_ok :: "db \<Rightarrow> bool" where
  "mailboxes_ok d = (unique_on mb_id (mailboxes d) \<and> unique_on mb_address (mailboxes d)
     \<and> ids_below mb_id (next_id d) (mailboxes d) \<and> list_all mailbox_limits_ok (mailboxes d))"

definition domains_ok :: "db \<Rightarrow> bool" where
  "domains_ok d = (unique_on dm_id (domains d) \<and> unique_on dm_name (domains d)
     \<and> ids_below dm_id (next_id d) (domains d))"

definition projects_ok :: "db \<Rightarrow> bool" where
  "projects_ok d = (unique_on pr_id (projects d) \<and> unique_on pr_name (projects d)
     \<and> ids_below pr_id (next_id d) (projects d))"

definition api_keys_ok :: "db \<Rightarrow> bool" where
  "api_keys_ok d = (unique_on ak_id (api_keys d) \<and> unique_on ak_key_hash (api_keys d)
     \<and> ids_below ak_id (next_id d) (api_keys d))"

definition scopes_ok :: "db \<Rightarrow> bool" where
  "scopes_ok d = unique_on (\<lambda>s. (sc_api_key_id s, sc_mailbox_id s)) (api_key_scopes d)"

definition installation_ok :: "db \<Rightarrow> bool" where
  "installation_ok d = (unique_on in_id (installation d) \<and> (\<forall>r \<in> set (installation d). in_id r = 1))"

definition jobs_ok :: "db \<Rightarrow> bool" where
  "jobs_ok d = (unique_on jb_id (provisioning_jobs d) \<and> ids_below jb_id (next_id d) (provisioning_jobs d))"

lemma ids_below_append [table_simps]:
  "ids_below key n (t @ u) \<longleftrightarrow> ids_below key n t \<and> ids_below key n u"
  by (simp add: ids_below_def)

lemma ids_below_single [simp]: "ids_below key n [r] \<longleftrightarrow> key r < n"
  by (simp add: ids_below_def)

lemma ids_below_mono: "ids_below key n t \<Longrightarrow> n \<le> m \<Longrightarrow> ids_below key m t"
  by (auto simp: ids_below_def list_all_iff)

lemma ids_below_fresh: "ids_below key n t \<Longrightarrow> n \<notin> key ` set t"
  by (auto simp: ids_below_def list_all_iff)

lemma ids_below_update:
  "(\<And>r. P r \<Longrightarrow> key (f r) = key r) \<Longrightarrow>
   ids_below key n (update_where P f t) = ids_below key n t"
  by (induction t) (auto simp: ids_below_def)

lemma installation_single:
  assumes "installation_ok d"
  shows "length (installation d) \<le> 1"
proof -
  have "set (map in_id (installation d)) \<subseteq> {1}" and "distinct (map in_id (installation d))"
    using assms by (auto simp: installation_ok_def unique_on_def)
  then have "length (map in_id (installation d)) \<le> card {1::nat}"
    by (metis card_mono distinct_card finite.emptyI finite.insertI)
  then show ?thesis by simp
qed

section \<open>Row access shared by the components\<close>

definition message_of :: "db \<Rightarrow> nat \<Rightarrow> message_row option" where
  "message_of d i = find (\<lambda>m. ms_id m = i) (messages d)"

definition mailbox_of :: "db \<Rightarrow> nat \<Rightarrow> mailbox_row option" where
  "mailbox_of d i = find (\<lambda>m. mb_id m = i) (mailboxes d)"

definition domain_of :: "db \<Rightarrow> nat \<Rightarrow> domain_row option" where
  "domain_of d i = find (\<lambda>r. dm_id r = i) (domains d)"

definition project_of :: "db \<Rightarrow> nat \<Rightarrow> project_row option" where
  "project_of d i = find (\<lambda>r. pr_id r = i) (projects d)"

definition domain_named :: "db \<Rightarrow> string \<Rightarrow> domain_row option" where
  "domain_named d n = find (\<lambda>r. dm_name r = n) (domains d)"

definition update_message :: "nat \<Rightarrow> (message_row \<Rightarrow> message_row) \<Rightarrow> db \<Rightarrow> db" where
  "update_message i f d = d\<lparr>messages := update_where (\<lambda>m. ms_id m = i) f (messages d)\<rparr>"

definition update_domain :: "nat \<Rightarrow> (domain_row \<Rightarrow> domain_row) \<Rightarrow> db \<Rightarrow> db" where
  "update_domain i f d = d\<lparr>domains := update_where (\<lambda>r. dm_id r = i) f (domains d)\<rparr>"

lemma update_message_frame [simp]:
  "installation (update_message i f d) = installation d"
  "projects (update_message i f d) = projects d"
  "domains (update_message i f d) = domains d"
  "mailboxes (update_message i f d) = mailboxes d"
  "api_keys (update_message i f d) = api_keys d"
  "api_key_scopes (update_message i f d) = api_key_scopes d"
  "events (update_message i f d) = events d"
  "suppressions (update_message i f d) = suppressions d"
  "idempotency_keys (update_message i f d) = idempotency_keys d"
  "next_id (update_message i f d) = next_id d"
  by (simp_all add: update_message_def)

lemma find_update_where:
  assumes "\<And>r. P r \<Longrightarrow> key (f r) = key r"
  shows "find (\<lambda>r. key r = k) (update_where P f t)
           = map_option (\<lambda>r. if P r then f r else r) (find (\<lambda>r. key r = k) t)"
  using assms by (induction t) auto

lemma message_of_update:
  assumes "\<And>m. ms_id (f m) = ms_id m"
  shows "message_of (update_message i f d) j
           = map_option (\<lambda>m. if ms_id m = i then f m else m) (message_of d j)"
  using assms by (simp add: message_of_def update_message_def find_update_where)

lemma message_of_SomeD:
  "message_of d i = Some m \<Longrightarrow> m \<in> set (messages d) \<and> ms_id m = i"
  by (auto simp: message_of_def dest: find_SomeD)

end
