(* ===== verification/Claim_Queue.thy ===== *)
theory Claim_Queue
  imports Models
begin

text \<open>
  The claim both queues use: \<open>SELECT id .. WHERE due ORDER BY .. LIMIT n FOR UPDATE SKIP LOCKED\<close>
  followed by an \<open>UPDATE\<close> that makes the picked rows no longer due.  \<open>locked\<close> are the rows another
  transaction holds at that moment.  The contract is the locale \<open>claim_queue\<close>; the message queue
  and the provisioning job queue interpret it.
\<close>

definition pick_ids ::
    "('r \<Rightarrow> nat) \<Rightarrow> ('r \<Rightarrow> time) \<Rightarrow> ('r \<Rightarrow> bool) \<Rightarrow> nat list \<Rightarrow> int \<Rightarrow> 'r table \<Rightarrow> nat list" where
  "pick_ids key rank due locked limit t =
     take (nat limit) (map key (sort_key rank (filter (\<lambda>r. due r \<and> key r \<notin> set locked) t)))"

definition mark_picked :: "('r \<Rightarrow> nat) \<Rightarrow> nat list \<Rightarrow> ('r \<Rightarrow> 'r) \<Rightarrow> 'r table \<Rightarrow> 'r table" where
  "mark_picked key ids f t = update_where (\<lambda>r. key r \<in> set ids) f t"

lemma set_pick_ids:
  "set (pick_ids key rank due locked limit t) \<subseteq> key ` {r \<in> set t. due r \<and> key r \<notin> set locked}"
  unfolding pick_ids_def by (rule subset_trans [OF set_take_subset]) auto

lemma length_pick_ids: "length (pick_ids key rank due locked limit t) \<le> nat limit"
  by (simp add: pick_ids_def)

lemma distinct_pick_ids: "unique_on key t \<Longrightarrow> distinct (pick_ids key rank due locked limit t)"
proof -
  assume "unique_on key t"
  then have "distinct (map key (filter P t))" for P
    by (simp add: unique_on_def distinct_map inj_on_def)
  then have "distinct (map key (sort_key rank (filter P t)))" for P
    by (metis distinct_map distinct_sort set_sort)
  then show ?thesis by (simp add: pick_ids_def)
qed

text \<open>With room for every due row, every due and unlocked row is picked.\<close>

lemma pick_ids_all:
  assumes "count_where due t \<le> nat limit" "r \<in> set t" "due r" "key r \<notin> set locked"
  shows "key r \<in> set (pick_ids key rank due locked limit t)"
proof -
  have "length (filter (\<lambda>r. due r \<and> key r \<notin> set locked) t) \<le> count_where due t"
    unfolding count_where_def [symmetric] by (rule count_where_mono) simp
  with assms(1) have "length (filter (\<lambda>r. due r \<and> key r \<notin> set locked) t) \<le> nat limit" by simp
  then have "pick_ids key rank due locked limit t
      = map key (sort_key rank (filter (\<lambda>r. due r \<and> key r \<notin> set locked) t))"
    by (simp add: pick_ids_def)
  with assms(2-4) show ?thesis by auto
qed

text \<open>
  A row that has been marked is not due again, at any later time, until another operation than the
  claim touches it; so no row is handed out twice.
\<close>

locale claim_queue =
  fixes key :: "'r \<Rightarrow> nat" and rank :: "'r \<Rightarrow> time" and due :: "time \<Rightarrow> 'r \<Rightarrow> bool"
    and mark :: "time \<Rightarrow> 'w \<Rightarrow> 'r \<Rightarrow> 'r"
  assumes mark_key: "key (mark now w r) = key r"
    and mark_not_due: "\<not> due later (mark now w r)"
begin

lemma picked_not_due:
  assumes "r \<in> set (mark_picked key ids (mark now w) t)" "key r \<in> set ids"
  shows "\<not> due later r"
  using assms mark_not_due mark_key by (auto simp: mark_picked_def set_update_where)

lemma exclusive:
  "set (pick_ids key rank (due later) locked limit (mark_picked key ids (mark now w) t)) \<inter> set ids = {}"
proof -
  have "key r \<notin> set ids" if "r \<in> set (mark_picked key ids (mark now w) t)" "due later r" for r
    using picked_not_due that by blast
  then show ?thesis using set_pick_ids by fastforce
qed

lemma mark_unique: "unique_on key (mark_picked key ids (mark now w) t) = unique_on key t"
  unfolding mark_picked_def by (rule unique_on_update_where) (rule mark_key)

lemma others_untouched:
  "r \<in> set t \<Longrightarrow> key r \<notin> set ids \<Longrightarrow> r \<in> set (mark_picked key ids (mark now w) t)"
  by (auto simp: mark_picked_def set_update_where)

end

end
