(* ===== verification/Ratelimit.thy ===== *)
theory Ratelimit
  imports Models
begin

text \<open>
  The per-sender rate gate (emaild/ratelimit.py).  The count comes from the \<open>messages\<close> table: the
  rows of the mailbox whose \<open>last_attempt_at\<close> lies in the last hour.  What the gate and the
  control-plane pacing have in common, entries that age out of a window, is the locale
  \<open>sliding_window\<close>.
\<close>

section \<open>Operations\<close>

definition window :: time where
  "window = hours 1"

record budget =
  bg_mailbox_id :: nat
  bg_used :: int
  bg_ceiling :: int
  bg_provider_ceiling :: int

definition remaining :: "budget \<Rightarrow> int" where
  "remaining b = max 0 (bg_ceiling b - bg_used b)"

definition exhausted :: "budget \<Rightarrow> bool" where
  "exhausted b = (remaining b \<le> 0)"

definition headroom_to_provider :: "budget \<Rightarrow> int" where
  "headroom_to_provider b = max 0 (bg_provider_ceiling b - bg_used b)"

definition attempted_since :: "nat \<Rightarrow> time \<Rightarrow> message_row \<Rightarrow> bool" where
  "attempted_since mailbox_id cutoff m =
     (ms_mailbox_id m = mailbox_id \<and>
      (case ms_last_attempt_at m of None \<Rightarrow> False | Some t \<Rightarrow> cutoff \<le> t))"

definition used_in_window :: "nat \<Rightarrow> time \<Rightarrow> db \<Rightarrow> nat" where
  "used_in_window mailbox_id now d =
     count_where (attempted_since mailbox_id (now - window)) (messages d)"

definition send_ceiling :: "int \<Rightarrow> rat \<Rightarrow> int" where
  "send_ceiling provider_ceiling safety_margin =
     max 1 (py_trunc (of_int provider_ceiling * safety_margin))"

definition current_budget :: "time \<Rightarrow> db \<Rightarrow> mailbox_row \<Rightarrow> rat \<Rightarrow> budget" where
  "current_budget now d mailbox safety_margin =
     \<lparr>bg_mailbox_id = mb_id mailbox,
      bg_used = int (used_in_window (mb_id mailbox) now d),
      bg_ceiling = send_ceiling (mb_hourly_limit mailbox) safety_margin,
      bg_provider_ceiling = mb_hourly_limit mailbox\<rparr>"

text \<open>\<open>MIN(last_attempt_at)\<close> over the rows of the window.\<close>

definition attempt_times :: "nat \<Rightarrow> time \<Rightarrow> db \<Rightarrow> time list" where
  "attempt_times mailbox_id cutoff d =
     map (\<lambda>m. case ms_last_attempt_at m of None \<Rightarrow> 0 | Some t \<Rightarrow> t)
       (filter (attempted_since mailbox_id cutoff) (messages d))"

definition next_window_opening :: "time \<Rightarrow> db \<Rightarrow> nat \<Rightarrow> time" where
  "next_window_opening now d mailbox_id =
     (case attempt_times mailbox_id (now - window) d of
        [] \<Rightarrow> now
      | t # ts \<Rightarrow> fold min ts t + window + seconds 1)"

section \<open>Windows\<close>

text \<open>
  Entries that are live for a while and then age out for good.  Admitting one entry only below a
  limit keeps the live count within the limit from then on.
\<close>

locale sliding_window =
  fixes live :: "time \<Rightarrow> 'r \<Rightarrow> bool"
  assumes ages_out: "now \<le> later \<Longrightarrow> live later r \<Longrightarrow> live now r"
begin

lemma count_antimono: "now \<le> later \<Longrightarrow> count_where (live later) t \<le> count_where (live now) t"
  by (rule count_where_mono) (rule ages_out)

lemma admit_append:
  assumes "count_where (live now) t < limit" "now \<le> later"
  shows "count_where (live later) (t @ [r]) \<le> limit"
proof -
  have "count_where (live later) (t @ [r]) \<le> Suc (count_where (live later) t)" by simp
  also have "\<dots> \<le> Suc (count_where (live now) t)" using count_antimono [OF assms(2)] by simp
  finally show ?thesis using assms(1) by simp
qed

lemma admit_update:
  assumes "count_where (live now) t < limit" "now \<le> later" "unique_on key t"
  shows "count_where (live later) (update_where (\<lambda>r. key r = k) f t) \<le> limit"
proof -
  have "count_where (live later) (update_where (\<lambda>r. key r = k) f t)
          \<le> Suc (count_where (live later) t)"
    using assms(3) by (rule count_where_update_key)
  also have "\<dots> \<le> Suc (count_where (live now) t)" using count_antimono [OF assms(2)] by simp
  finally show ?thesis using assms(1) by simp
qed

end

interpretation gate: sliding_window "\<lambda>now. attempted_since mailbox_id (now - window)"
  for mailbox_id
  by unfold_locales (auto simp: attempted_since_def split: option.splits)

section \<open>The gate\<close>

lemma exhausted_iff: "exhausted b \<longleftrightarrow> bg_ceiling b \<le> bg_used b"
  by (auto simp: exhausted_def remaining_def)

lemma current_budget_sel [simp]:
  "bg_mailbox_id (current_budget now d mb margin) = mb_id mb"
  "bg_used (current_budget now d mb margin) = int (used_in_window (mb_id mb) now d)"
  "bg_ceiling (current_budget now d mb margin) = send_ceiling (mb_hourly_limit mb) margin"
  "bg_provider_ceiling (current_budget now d mb margin) = mb_hourly_limit mb"
  by (simp_all add: current_budget_def)

lemma send_ceiling_pos: "1 \<le> send_ceiling n margin"
  by (simp add: send_ceiling_def)

lemma send_ceiling_le:
  assumes "1 \<le> n" "0 \<le> margin" "margin \<le> 1"
  shows "send_ceiling n margin \<le> n"
proof -
  have p: "0 \<le> of_int n * margin" using assms by simp
  have "of_int (py_trunc (of_int n * margin)) \<le> of_int n * margin"
    using p by (rule py_trunc_le)
  also have "\<dots> \<le> of_int n" using assms by (simp add: mult_left_le)
  finally have "py_trunc (of_int n * margin) \<le> n" by simp
  with assms(1) show ?thesis by (simp add: send_ceiling_def)
qed

lemma fold_min_le: "fold min ts (t :: int) \<le> t \<and> (\<forall>x \<in> set ts. fold min ts t \<le> x)"
proof (induction ts arbitrary: t)
  case Nil
  then show ?case by simp
next
  case (Cons a ts)
  then show ?case by (simp) (metis min.bounded_iff)
qed

lemma fold_min_in: "fold min ts (t :: int) \<in> insert t (set ts)"
proof (induction ts arbitrary: t)
  case Nil
  then show ?case by simp
next
  case (Cons a ts)
  from Cons [of "min a t"] show ?case by (auto simp: min_def split: if_splits)
qed

lemma attempt_times_set:
  "set (attempt_times i cutoff d) =
     {t. \<exists>m \<in> set (messages d). ms_mailbox_id m = i \<and> ms_last_attempt_at m = Some t \<and> cutoff \<le> t}"
proof -
  have "attempted_since i cutoff m \<longleftrightarrow>
      ms_mailbox_id m = i \<and> (\<exists>t. ms_last_attempt_at m = Some t \<and> cutoff \<le> t)" for m
    by (auto simp: attempted_since_def split: option.splits)
  then show ?thesis by (force simp: attempt_times_def)
qed

lemma next_window_opening_cases:
  obtains (idle) "used_in_window i now d = 0" "next_window_opening now d i = now"
  | (busy) oldest m where "m \<in> set (messages d)" "ms_mailbox_id m = i"
      "ms_last_attempt_at m = Some oldest" "now - window \<le> oldest"
      "next_window_opening now d i = oldest + window + seconds 1"
      "\<And>q t. q \<in> set (messages d) \<Longrightarrow> ms_mailbox_id q = i \<Longrightarrow> ms_last_attempt_at q = Some t \<Longrightarrow>
         now - window \<le> t \<Longrightarrow> oldest \<le> t"
proof (cases "attempt_times i (now - window) d")
  case Nil
  then have "used_in_window i now d = 0"
    by (simp add: attempt_times_def used_in_window_def count_where_def)
  with Nil show ?thesis by (intro idle) (simp_all add: next_window_opening_def)
next
  case (Cons t ts)
  define oldest where "oldest = fold min ts t"
  have in_times: "oldest \<in> set (attempt_times i (now - window) d)"
    using fold_min_in [of ts t] Cons by (simp add: oldest_def)
  have least: "\<forall>x \<in> set (attempt_times i (now - window) d). oldest \<le> x"
    using fold_min_le [of ts t] Cons by (simp add: oldest_def)
  from in_times obtain m where m: "m \<in> set (messages d)" "ms_mailbox_id m = i"
    "ms_last_attempt_at m = Some oldest" "now - window \<le> oldest"
    by (auto simp: attempt_times_set)
  show ?thesis
  proof (rule busy [OF m])
    show "next_window_opening now d i = oldest + window + seconds 1"
      using Cons by (simp add: next_window_opening_def oldest_def)
  qed (use least in \<open>auto simp: attempt_times_set\<close>)
qed

text \<open>Until the oldest attempt leaves the window the gate stays where it is.\<close>

lemma used_constant_before_opening:
  assumes "now \<le> t" "t < next_window_opening now d i - seconds 1 + 1"
  shows "used_in_window i t d = used_in_window i now d"
proof (cases rule: next_window_opening_cases [of i now d])
  case idle
  have "used_in_window i t d \<le> used_in_window i now d"
    unfolding used_in_window_def using gate.count_antimono [OF assms(1)] .
  with idle show ?thesis by simp
next
  case (busy oldest m)
  have "used_in_window i now d \<le> used_in_window i t d"
    unfolding used_in_window_def
  proof (rule count_where_mono)
    fix q
    assume "q \<in> set (messages d)" "attempted_since i (now - window) q"
    with busy(6) have "\<exists>x. ms_last_attempt_at q = Some x \<and> oldest \<le> x" "ms_mailbox_id q = i"
      by (auto simp: attempted_since_def split: option.splits)
    with busy(5) assms(2) show "attempted_since i (t - window) q"
      by (auto simp: attempted_since_def)
  qed
  moreover have "used_in_window i t d \<le> used_in_window i now d"
    unfolding used_in_window_def using gate.count_antimono [OF assms(1)] .
  ultimately show ?thesis by simp
qed

lemma count_where_strict:
  assumes "\<And>r. r \<in> set t \<Longrightarrow> P r \<Longrightarrow> Q r" "m \<in> set t" "Q m" "\<not> P m"
  shows "count_where P t < count_where Q t"
  using assms
proof (induction t)
  case Nil
  then show ?case by simp
next
  case (Cons r t)
  show ?case
  proof (cases "r = m")
    case True
    have "count_where P t \<le> count_where Q t" using Cons.prems(1) by (intro count_where_mono) auto
    with True Cons.prems show ?thesis by simp
  next
    case False
    with Cons have "count_where P t < count_where Q t" by auto
    with Cons.prems(1) [of r] show ?thesis by auto
  qed
qed

lemma used_drops_at_opening:
  assumes "0 < used_in_window i now d"
  shows "now < next_window_opening now d i"
    and "used_in_window i (next_window_opening now d i) d < used_in_window i now d"
proof -
  show later: "now < next_window_opening now d i"
    using assms by (cases rule: next_window_opening_cases [of i now d]) (auto simp: seconds_def)
  show "used_in_window i (next_window_opening now d i) d < used_in_window i now d"
  proof (cases rule: next_window_opening_cases [of i now d])
    case idle
    with assms show ?thesis by simp
  next
    case (busy oldest m)
    show ?thesis
      unfolding used_in_window_def
    proof (rule count_where_strict [OF _ busy(1)])
      show "attempted_since i (now - window) m"
        using busy by (simp add: attempted_since_def)
      show "\<not> attempted_since i (next_window_opening now d i - window) m"
        using busy by (simp add: attempted_since_def seconds_def)
    qed (use later in \<open>auto simp: attempted_since_def split: option.splits\<close>)
  qed
qed

end
