(* ===== verification/Classify.thy ===== *)
theory Classify
  imports Models
begin

text \<open>
  Turning what the provider said into a decision: the ordered rule table and \<open>classify\<close>
  (emaild/delivery/classify.py), and when a refusal is evidence of a dead address
  (emaild/delivery/bounce.py).  The regular expressions are alternations of literal phrases,
  matched without regard to case, and one phrase with a same-line gap.
\<close>

section \<open>Patterns\<close>

datatype pattern = Lit string | Gap string string

fun gap_search :: "string \<Rightarrow> string \<Rightarrow> string \<Rightarrow> bool" where
  "gap_search p q [] = False"
| "gap_search p q (c # s) =
     ((starts_with p (c # s) \<and>
       py_in q (takeWhile (\<lambda>d. ord d \<noteq> 10) (drop (length p) (c # s))))
      \<or> gap_search p q s)"

definition pattern_search :: "pattern \<Rightarrow> string \<Rightarrow> bool" where
  "pattern_search p text = (case p of
       Lit l \<Rightarrow> py_in l (py_lower text)
     | Gap a b \<Rightarrow> gap_search a b (py_lower text))"

definition search :: "pattern list \<Rightarrow> string \<Rightarrow> bool" where
  "search ps text = list_ex (\<lambda>p. pattern_search p text) ps"

section \<open>Verdicts and rules\<close>

record verdict =
  vd_failure_class :: failure_class
  vd_retryable :: bool
  vd_needs_review :: bool
  vd_note :: "string option"

definition verdict :: "failure_class \<Rightarrow> bool \<Rightarrow> bool \<Rightarrow> string option \<Rightarrow> verdict" where
  "verdict c retry review note =
     \<lparr>vd_failure_class = c, vd_retryable = retry, vd_needs_review = review, vd_note = note\<rparr>"

definition rate_limit_patterns :: "pattern list" where
  "rate_limit_patterns =
     [Lit ''rate limit'', Lit ''too many messages'', Lit ''message limit'', Lit ''sending limit'',
      Lit ''quota exceeded'', Gap ''exceeded '' ''limit'', Lit ''limit exceeded'',
      Lit ''try again later'', Lit ''throttl'']"

definition recipient_patterns :: "pattern list" where
  "recipient_patterns =
     [Lit ''user unknown'', Lit ''no such user'', Lit ''mailbox unavailable'',
      Lit ''does not exist'', Lit ''invalid recipient'']"

definition policy_patterns :: "pattern list" where
  "policy_patterns =
     [Lit ''spam'', Lit ''blocked'', Lit ''blacklist'', Lit ''reputation'', Lit ''policy'',
      Lit ''rejected due to'']"

definition size_patterns :: "pattern list" where
  "size_patterns = [Lit ''message too large'', Lit ''size exceeds'', Lit ''exceeds maximum'']"

definition deferral_patterns :: "pattern list" where
  "deferral_patterns =
     [Lit ''greylist'', Lit ''greylisted'', Lit ''temporarily deferred'', Lit ''try again'']"

definition note_auth :: string where
  "note_auth = ''stored SMTP credential is wrong; sending for this identity is broken until it is rotated''"

definition note_mismatch :: string where
  "note_mismatch = ''envelope sender did not equal the SMTP login -- a bug on our side, not the recipient'' @ [CHR 39] @ ''s''"

definition note_rate :: string where
  "note_rate = ''over the provider'' @ [CHR 39] @ ''s hourly ceiling; our limiter should have prevented this reaching the wire''"

type_synonym rule = "int option \<times> pattern list \<times> verdict"

definition auth_rule :: rule where
  "auth_rule = (Some 535, [Lit ''incorrect authentication data''],
     verdict Auth_Failure False True (Some note_auth))"

definition no_recipient_rule :: rule where
  "no_recipient_rule = (Some 550, [Lit ''no such recipient here''],
     verdict Recipient_Rejected False False None)"

definition mismatch_rule :: rule where
  "mismatch_rule = (Some 550, [Lit ''must match your login''],
     verdict Sender_Mismatch False True (Some note_mismatch))"

definition unauthorized_rule :: rule where
  "unauthorized_rule = (Some 550, [Lit ''only accepted from authorized ip ranges''],
     verdict Sender_Unauthorized False True None)"

definition rate_rule :: rule where
  "rate_rule = (None, rate_limit_patterns, verdict Rate_Limited True False (Some note_rate))"

definition recipient_rule :: rule where
  "recipient_rule = (None, recipient_patterns, verdict Recipient_Rejected False False None)"

definition policy_rule :: rule where
  "policy_rule = (None, policy_patterns, verdict Policy_Rejected False True None)"

definition size_rule :: rule where
  "size_rule = (None, size_patterns, verdict Message_Invalid False False None)"

definition deferral_rule :: rule where
  "deferral_rule = (None, deferral_patterns, verdict Provider_Deferral True False None)"

text \<open>\<open>_RULES\<close>: ordered, the first match wins.\<close>

definition observed_rules :: "rule list" where
  "observed_rules = [auth_rule, no_recipient_rule, mismatch_rule, unauthorized_rule]"

definition rules :: "rule list" where
  "rules = observed_rules @ [rate_rule, recipient_rule, policy_rule, size_rule, deferral_rule]"

definition rule_applies :: "int \<Rightarrow> string \<Rightarrow> rule \<Rightarrow> bool" where
  "rule_applies code text r =
     ((case fst r of None \<Rightarrow> True | Some c \<Rightarrow> c = code) \<and> search (fst (snd r)) text)"

fun first_rule :: "rule list \<Rightarrow> int \<Rightarrow> string \<Rightarrow> verdict option" where
  "first_rule [] code text = None"
| "first_rule (r # rs) code text =
     (if rule_applies code text r then Some (snd (snd r)) else first_rule rs code text)"

definition note_connection :: string where
  "note_connection = ''no SMTP response: transport failure, nothing wrong with the message''"

definition note_misrouted :: string where
  "note_misrouted = ''success misrouted to classify()''"

definition note_unrecognised :: "int \<Rightarrow> string" where
  "note_unrecognised code = ''unrecognised '' @ str_of_int code @
     '' response; re-queued and flagged rather than discarded''"

definition default_verdict :: "int \<Rightarrow> verdict" where
  "default_verdict code =
     (if 200 \<le> code \<and> code < 300 then verdict Unknown False False (Some note_misrouted)
      else if 400 \<le> code \<and> code < 500 then verdict Provider_Deferral True False None
      else if code \<ge> 500 then verdict Unknown True True (Some (note_unrecognised code))
      else verdict Unknown True True None)"

definition classify :: "int option \<Rightarrow> string option \<Rightarrow> verdict" where
  "classify code response =
     (let text = py_strip (or_empty response)
      in case code of
           None \<Rightarrow> verdict Connection True False (Some note_connection)
         | Some c \<Rightarrow>
             (case first_rule rules c text of
                Some v \<Rightarrow> v
              | None \<Rightarrow> default_verdict c))"

section \<open>Bounces\<close>

definition address_is_dead :: "pattern list" where
  "address_is_dead =
     [Lit ''no such recipient'', Lit ''no such user'', Lit ''user unknown'', Lit ''unknown user'',
      Lit ''mailbox unavailable'', Lit ''mailbox not found'', Lit ''mailbox does not exist'',
      Lit ''recipient rejected'', Lit ''recipient address rejected'',
      Lit ''address does not exist'', Lit ''address not found'',
      Lit ''invalid recipient'', Lit ''does not exist'']"

definition should_suppress :: "int option \<Rightarrow> string option \<Rightarrow> failure_class \<Rightarrow> bool" where
  "should_suppress code response klass =
     (if klass \<noteq> Recipient_Rejected then False
      else case code of
             None \<Rightarrow> False
           | Some c \<Rightarrow> if \<not> (500 \<le> c \<and> c < 600) then False
                       else search address_is_dead (or_empty response))"

definition suppression_reason :: "int option \<Rightarrow> string option \<Rightarrow> string" where
  "suppression_reason code response =
     py_rstrip (''auto: provider rejected recipient with '' @ str_of_int_option code @ '' '' @
       take 180 (py_strip (or_empty response)))"

section \<open>What the table decides\<close>

lemma verdict_simps [simp]:
  "vd_failure_class (verdict c r n t) = c" "vd_retryable (verdict c r n t) = r"
  "vd_needs_review (verdict c r n t) = n" "vd_note (verdict c r n t) = t"
  by (simp_all add: verdict_def)

lemma verdict_eq_iff [simp]:
  "verdict c r n t = verdict c' r' n' t' \<longleftrightarrow> c = c' \<and> r = r' \<and> n = n' \<and> t = t'"
  by (simp add: verdict_def)

lemma first_rule_Some:
  assumes "first_rule rs code text = Some v"
  obtains as r bs where "rs = as @ r # bs" "\<forall>q \<in> set as. \<not> rule_applies code text q"
    "rule_applies code text r" "v = snd (snd r)"
proof -
  have "\<exists>as r bs. rs = as @ r # bs \<and> (\<forall>q \<in> set as. \<not> rule_applies code text q)
      \<and> rule_applies code text r \<and> v = snd (snd r)"
    using assms
  proof (induction rs)
    case Nil
    then show ?case by simp
  next
    case (Cons r rs)
    show ?case
    proof (cases "rule_applies code text r")
      case True
      with Cons.prems show ?thesis by (intro exI [of _ "[]"]) auto
    next
      case False
      with Cons obtain as q bs where "rs = as @ q # bs"
        "\<forall>p \<in> set as. \<not> rule_applies code text p" "rule_applies code text q" "v = snd (snd q)"
        by auto
      with False show ?thesis by (intro exI [of _ "r # as"]) auto
    qed
  qed
  with that show ?thesis by blast
qed

lemma first_rule_None: "first_rule rs code text = None \<longleftrightarrow> (\<forall>r \<in> set rs. \<not> rule_applies code text r)"
  by (induction rs) auto

lemma first_rule_append:
  "first_rule (rs @ qs) code text =
     (case first_rule rs code text of Some v \<Rightarrow> Some v | None \<Rightarrow> first_rule qs code text)"
  by (induction rs) auto

lemma first_rule_in:
  "first_rule rs code text = Some v \<Longrightarrow> \<exists>r \<in> set rs. rule_applies code text r \<and> v = snd (snd r)"
  by (erule first_rule_Some) auto

lemmas rule_defs = auth_rule_def no_recipient_rule_def mismatch_rule_def unauthorized_rule_def
  rate_rule_def recipient_rule_def policy_rule_def size_rule_def deferral_rule_def

lemma rule_verdicts [simp]:
  "snd (snd auth_rule) = verdict Auth_Failure False True (Some note_auth)"
  "snd (snd no_recipient_rule) = verdict Recipient_Rejected False False None"
  "snd (snd mismatch_rule) = verdict Sender_Mismatch False True (Some note_mismatch)"
  "snd (snd unauthorized_rule) = verdict Sender_Unauthorized False True None"
  "snd (snd rate_rule) = verdict Rate_Limited True False (Some note_rate)"
  "snd (snd recipient_rule) = verdict Recipient_Rejected False False None"
  "snd (snd policy_rule) = verdict Policy_Rejected False True None"
  "snd (snd size_rule) = verdict Message_Invalid False False None"
  "snd (snd deferral_rule) = verdict Provider_Deferral True False None"
  by (simp_all only: rule_defs snd_conv)

lemma rules_not_retryable:
  "r \<in> set rules \<Longrightarrow> \<not> vd_retryable (snd (snd r)) \<Longrightarrow>
   r \<in> set observed_rules \<union> {recipient_rule, policy_rule, size_rule}"
  by (auto simp: rules_def)

lemma rules_class:
  assumes "r \<in> set rules" "vd_failure_class (snd (snd r)) = Recipient_Rejected"
  shows "r = no_recipient_rule \<or> r = recipient_rule"
  using assms by (auto simp: rules_def observed_rules_def)

lemma default_verdict_class: "vd_failure_class (default_verdict c) \<noteq> Recipient_Rejected"
  by (simp add: default_verdict_def)

lemma classify_recipient_rejected:
  assumes "vd_failure_class (classify code response) = Recipient_Rejected"
  shows "\<not> vd_retryable (classify code response)"
    and "\<exists>c. code = Some c \<and>
       (rule_applies c (py_strip (or_empty response)) no_recipient_rule \<or>
        rule_applies c (py_strip (or_empty response)) recipient_rule)"
proof -
  obtain c v where c: "code = Some c" "first_rule rules c (py_strip (or_empty response)) = Some v"
    "classify code response = v"
    using assms default_verdict_class
    by (auto simp: classify_def Let_def split: option.splits)
  from first_rule_in [OF c(2)] obtain r where r: "r \<in> set rules"
    "rule_applies c (py_strip (or_empty response)) r" "v = snd (snd r)" by auto
  with c assms have "r = no_recipient_rule \<or> r = recipient_rule" using rules_class by auto
  with r c show "\<not> vd_retryable (classify code response)"
    "\<exists>c. code = Some c \<and>
       (rule_applies c (py_strip (or_empty response)) no_recipient_rule \<or>
        rule_applies c (py_strip (or_empty response)) recipient_rule)"
    by auto
qed

lemma should_suppressD:
  assumes "should_suppress code response klass"
  shows "klass = Recipient_Rejected" "\<exists>c. code = Some c \<and> 500 \<le> c \<and> c < 600"
    "search address_is_dead (or_empty response)"
  using assms by (auto simp: should_suppress_def split: if_splits option.splits)

end
