(* ===== verification/Py_Mail.thy ===== *)
theory Py_Mail
  imports Py_Str
begin

text \<open>
  The standard library's \<open>email.utils.parseaddr\<close> (Python 3.12, strict), which the program calls
  on every address it accepts: the recursive-descent parser of \<open>email._parseaddr\<close> with the
  pre- and post-validation of \<open>email.utils\<close>.  The parser's position in its field is the list of
  characters not yet read; comments are returned beside the value because they end up in the
  display name.  The section ends with the one fact the components need of it: a plain
  \<open>local@domain\<close> address parses to itself.
\<close>

section \<open>Character classes\<close>

definition dquote :: char where "dquote = CHR 34"
definition backslash :: char where "backslash = CHR 92"

definition specials :: string where
  "specials = ''()<>@,:;.'' @ [dquote] @ ''[]''"

definition lws :: "char \<Rightarrow> bool" where
  "lws c = (ord c = 32 \<or> ord c = 9)"

definition crlf :: "char \<Rightarrow> bool" where
  "crlf c = (ord c = 13 \<or> ord c = 10)"

definition atom_end :: "char \<Rightarrow> bool" where
  "atom_end c = (c \<in> set specials \<or> lws c \<or> crlf c)"

definition phrase_end :: "char \<Rightarrow> bool" where
  "phrase_end c = (atom_end c \<and> c \<noteq> CHR ''.'')"

section \<open>Delimited fragments\<close>

text \<open>\<open>getdelimited\<close> without comments (quoted strings and domain literals).\<close>

fun delimited :: "char \<Rightarrow> bool \<Rightarrow> string \<Rightarrow> string \<times> string" where
  "delimited e q [] = ([], [])"
| "delimited e q (c # s) =
     (if q then (c # fst (delimited e False s), snd (delimited e False s))
      else if c = e \<or> ord c = 13 then ([], s)
      else if c = backslash then delimited e True s
      else (c # fst (delimited e False s), snd (delimited e False s)))"

text \<open>\<open>getcomment\<close>: nested comments are flattened; the first argument counts the open ones.\<close>

fun comment_loop :: "nat \<Rightarrow> bool \<Rightarrow> string \<Rightarrow> string \<times> string" where
  "comment_loop d q [] = ([], [])"
| "comment_loop d q (c # s) =
     (if q then (c # fst (comment_loop d False s), snd (comment_loop d False s))
      else if c = CHR '')'' \<or> ord c = 13
        then (case d of 0 \<Rightarrow> ([], s) | Suc d' \<Rightarrow> comment_loop d' False s)
      else if c = CHR ''('' then comment_loop (Suc d) False s
      else if c = backslash then comment_loop d True s
      else (c # fst (comment_loop d False s), snd (comment_loop d False s)))"

lemma length_delimited: "length (snd (delimited e q s)) \<le> length s"
proof (induction e q s rule: delimited.induct)
  case (2 e q c s)
  then show ?case by (cases q) (auto intro: le_SucI)
qed simp

lemma length_comment_loop: "length (snd (comment_loop d q s)) \<le> length s"
proof (induction d q s rule: comment_loop.induct)
  case (2 d q c s)
  then show ?case by (cases q) (auto intro: le_SucI split: nat.split)
qed simp

lemma length_fragments [termination_simp]:
  "length (snd (delimited e q s)) < Suc (length s)"
  "length (snd (comment_loop d q s)) < Suc (length s)"
  using length_delimited length_comment_loop by (simp_all add: le_imp_less_Suc)

section \<open>Whitespace, atoms, phrases\<close>

text \<open>\<open>gotonext\<close>: the linear whitespace skipped, the comments, the rest.\<close>

fun gotonext :: "string \<Rightarrow> string \<times> string list \<times> string" where
  "gotonext [] = ([], [], [])"
| "gotonext (c # s) =
     (if lws c \<or> crlf c
        then (case gotonext s of (ws, cm, r) \<Rightarrow> (if crlf c then ws else c # ws, cm, r))
      else if c = CHR ''(''
        then (case gotonext (snd (comment_loop 0 False s)) of
                (ws, cm, r) \<Rightarrow> (ws, fst (comment_loop 0 False s) # cm, r))
      else ([], [], c # s))"

definition next_rest :: "string \<Rightarrow> string" where "next_rest s = snd (snd (gotonext s))"
definition next_comments :: "string \<Rightarrow> string list" where "next_comments s = fst (snd (gotonext s))"
definition next_ws :: "string \<Rightarrow> string" where "next_ws s = fst (gotonext s)"

lemma length_gotonext: "length (snd (snd (gotonext s))) \<le> length s"
proof (induction s rule: gotonext.induct)
  case 1
  then show ?case by simp
next
  case (2 c s)
  then show ?case
    using length_comment_loop [of 0 False s]
    by (auto simp: split_beta intro: le_SucI)
qed

lemma length_next_rest: "length (next_rest s) \<le> length s"
  by (simp add: next_rest_def length_gotonext)

lemma length_next_rest_Suc [termination_simp]: "length (next_rest s) < Suc (length s)"
  using length_next_rest [of s] by simp

lemma length_dropWhile_Suc [termination_simp]: "length (dropWhile P s) < Suc (length s)"
  by (simp add: length_dropWhile_le le_imp_less_Suc)

lemma length_next_rest_fragments [termination_simp]:
  "length (next_rest (snd (delimited e q s))) < Suc (length s)"
  "length (next_rest (dropWhile P s)) < Suc (length s)"
  using length_next_rest [of "snd (delimited e q s)"] length_delimited [of e q s]
    length_next_rest [of "dropWhile P s"] length_dropWhile_le [of P s]
  by simp_all

text \<open>\<open>getphraselist\<close>: words, comments, rest.\<close>

fun phraselist :: "string \<Rightarrow> string list \<times> string list \<times> string" where
  "phraselist [] = ([], [], [])"
| "phraselist (c # s) =
     (if lws c \<or> crlf c then phraselist s
      else if c = dquote
        then (case phraselist (snd (delimited dquote False s)) of
                (pl, cm, r) \<Rightarrow> (fst (delimited dquote False s) # pl, cm, r))
      else if c = CHR ''(''
        then (case phraselist (snd (comment_loop 0 False s)) of
                (pl, cm, r) \<Rightarrow> (pl, fst (comment_loop 0 False s) # cm, r))
      else if phrase_end c then ([], [], c # s)
      else (case phraselist (dropWhile (\<lambda>d. \<not> phrase_end d) s) of
              (pl, cm, r) \<Rightarrow> ((c # takeWhile (\<lambda>d. \<not> phrase_end d) s) # pl, cm, r)))"

lemma length_phraselist: "length (snd (snd (phraselist s))) \<le> length s"
proof (induction s rule: phraselist.induct)
  case 1
  then show ?case by simp
next
  case (2 c s)
  then show ?case
    using length_comment_loop [of 0 False s] length_delimited [of dquote False s]
      length_dropWhile_le [of "\<lambda>d. \<not> phrase_end d" s]
    by (auto simp: split_beta intro: le_SucI)
qed

section \<open>Domains and addr-specs\<close>

text \<open>
  \<open>getdomain\<close>: the pieces read so far are the accumulator; meeting an \<open>@\<close> gives the empty
  string and leaves the position there.
\<close>

fun getdomain :: "string \<Rightarrow> string \<Rightarrow> string \<times> string list \<times> string" where
  "getdomain acc [] = (acc, [], [])"
| "getdomain acc (c # s) =
     (if lws c then getdomain acc s
      else if c = CHR ''(''
        then (case getdomain acc (snd (comment_loop 0 False s)) of
                (d, cm, r) \<Rightarrow> (d, fst (comment_loop 0 False s) # cm, r))
      else if c = CHR ''[''
        then getdomain (acc @ ''['' @ fst (delimited (CHR '']'') False s) @ '']'')
               (snd (delimited (CHR '']'') False s))
      else if c = CHR ''.'' then getdomain (acc @ ''.'') s
      else if c = CHR ''@'' then ([], [], c # s)
      else if atom_end c then (acc, [], c # s)
      else getdomain (acc @ c # takeWhile (\<lambda>d. \<not> atom_end d) s)
             (dropWhile (\<lambda>d. \<not> atom_end d) s))"

lemma fragment_le:
  "n \<le> length (snd (comment_loop d q s)) \<Longrightarrow> n \<le> Suc (length s)"
  "n \<le> length (snd (delimited e q s)) \<Longrightarrow> n \<le> Suc (length s)"
  "n \<le> length (dropWhile P s) \<Longrightarrow> n \<le> Suc (length s)"
  using length_comment_loop [of d q s] length_delimited [of e q s] length_dropWhile_le [of P s]
  by linarith+

lemma length_getdomain: "length (snd (snd (getdomain acc s))) \<le> length s"
proof (induction acc s rule: getdomain.induct)
  case (1 acc)
  then show ?case by simp
next
  case (2 acc c s)
  consider "lws c" | "\<not> lws c" "c = CHR ''(''" | "\<not> lws c" "c = CHR ''[''" | "\<not> lws c" "c = CHR ''.''"
    | "\<not> lws c" "c = CHR ''@''"
    | "\<not> lws c" "c \<notin> {CHR ''('', CHR ''['', CHR ''.'', CHR ''@''}" "atom_end c"
    | "\<not> lws c" "c \<notin> {CHR ''('', CHR ''['', CHR ''.'', CHR ''@''}" "\<not> atom_end c"
    by blast
  then show ?case
  proof cases
    case 1
    then show ?thesis using "2.IH"(1) by simp
  next
    case 2
    then show ?thesis using "2.IH"(2) by (simp add: split_beta fragment_le(1))
  next
    case 3
    then show ?thesis using "2.IH"(3) by (simp add: fragment_le(2))
  next
    case 4
    then show ?thesis using "2.IH"(4) by simp
  next
    case 7
    then show ?thesis using "2.IH"(5) by (simp add: fragment_le(3))
  qed simp_all
qed

text \<open>\<open>email.utils.quote\<close>, and the list of address pieces kept in reverse.\<close>

definition quote :: "string \<Rightarrow> string" where
  "quote s = replace_char dquote [backslash, dquote] (replace_char backslash [backslash, backslash] s)"

definition pop_blank :: "string list \<Rightarrow> string list" where
  "pop_blank ps = (case ps of [] \<Rightarrow> [] | p # qs \<Rightarrow> if py_strip p = [] then qs else ps)"

definition push_ws :: "string \<Rightarrow> string list \<Rightarrow> string list" where
  "push_ws ws ps = (if ws = [] then ps else ws # ps)"

fun addrspec_loop :: "string list \<Rightarrow> string \<Rightarrow> string list \<times> string list \<times> string" where
  "addrspec_loop acc [] = (acc, [], [])"
| "addrspec_loop acc (c # s) =
     (if c = CHR ''.''
        then (case addrspec_loop (''.'' # pop_blank acc) (next_rest s) of
                (a, cm, r) \<Rightarrow> (a, next_comments s @ cm, r))
      else if c = dquote
        then (case addrspec_loop
                     (push_ws (next_ws (snd (delimited dquote False s)))
                        (([dquote] @ quote (fst (delimited dquote False s)) @ [dquote]) # acc))
                     (next_rest (snd (delimited dquote False s))) of
                (a, cm, r) \<Rightarrow> (a, next_comments (snd (delimited dquote False s)) @ cm, r))
      else if atom_end c then (pop_blank acc, [], c # s)
      else (case addrspec_loop
                   (push_ws (next_ws (dropWhile (\<lambda>d. \<not> atom_end d) s))
                      ((c # takeWhile (\<lambda>d. \<not> atom_end d) s) # acc))
                   (next_rest (dropWhile (\<lambda>d. \<not> atom_end d) s)) of
              (a, cm, r) \<Rightarrow> (a, next_comments (dropWhile (\<lambda>d. \<not> atom_end d) s) @ cm, r)))"

definition getaddrspec :: "string \<Rightarrow> string \<times> string list \<times> string" where
  "getaddrspec s =
     (case addrspec_loop [] (next_rest s) of
        (acc, cm, r) \<Rightarrow>
          (case r of
             [] \<Rightarrow> (concat (rev acc), next_comments s @ cm, [])
           | c # r' \<Rightarrow>
               if c \<noteq> CHR ''@'' then (concat (rev acc), next_comments s @ cm, r)
               else (case getdomain [] (next_rest r') of
                       (d, cm', r'') \<Rightarrow>
                         (if d = [] then [] else concat (rev acc) @ ''@'' @ d,
                          next_comments s @ cm @ next_comments r' @ cm', r''))))"

section \<open>Addresses\<close>

text \<open>\<open>getrouteaddr\<close> after its opening angle bracket and \<open>gotonext\<close>.\<close>

function routeaddr_loop :: "bool \<Rightarrow> string \<Rightarrow> string \<times> string list \<times> string" where
  "routeaddr_loop ex [] = ([], [], [])"
| "routeaddr_loop ex (c # s) =
     (if ex
        then (case routeaddr_loop False (next_rest (snd (snd (getdomain [] (c # s))))) of
                (a, cm, r) \<Rightarrow>
                  (a, fst (snd (getdomain [] (c # s)))
                      @ next_comments (snd (snd (getdomain [] (c # s)))) @ cm, r))
      else if c = CHR ''>'' then ([], [], s)
      else if c = CHR ''@'' \<or> c = CHR '':''
        then (case routeaddr_loop (c = CHR ''@'') (next_rest s) of
                (a, cm, r) \<Rightarrow> (a, next_comments s @ cm, r))
      else (case getaddrspec (c # s) of (a, cm, r) \<Rightarrow> (a, cm, tl r)))"
  by pat_completeness auto
termination
proof (relation "measure (\<lambda>(ex, s). 2 * length s + (if ex then 1 else 0))", goal_cases)
  case (2 ex c s)
  then show ?case
    using length_getdomain [of "[]" "c # s"]
      length_next_rest [of "snd (snd (getdomain [] (c # s)))"] by auto
next
  case (3 ex c s)
  then show ?case using length_next_rest [of s] by auto
qed auto

definition realname :: "string list \<Rightarrow> string list \<Rightarrow> string" where
  "realname plist comments =
     (if comments = [] then py_join '' '' plist
      else py_join '' '' plist @ '' ('' @ py_join '' '' comments @ '')'')"

definition skip_comma :: "string \<Rightarrow> string" where
  "skip_comma s = (case next_rest s of [] \<Rightarrow> [] | c # r \<Rightarrow> if c = CHR '','' then r else c # r)"

text \<open>
  \<open>getaddress\<close> and its group loop.  The Python list of comments is one object, so the comments
  read while looking for a phrase stay in it when the address is read again.  A call always reads
  at least one character, so the comparison of lengths in the group loop never stops it early.
\<close>

function (sequential)
  getaddress :: "string \<Rightarrow> (string \<times> string) list \<times> string" and
  group_loop :: "string \<Rightarrow> (string \<times> string) list \<times> string" where
  "getaddress s0 =
     (let s = next_rest s0; (pl, cmp, r) = phraselist s;
          cms = next_comments s0 @ cmp @ next_comments r; r1 = next_rest r
      in case r1 of
           [] \<Rightarrow> (if pl = [] then [] else [(py_join '' '' cms, hd pl)], [])
         | c # r2 \<Rightarrow>
             if c = CHR ''.'' \<or> c = CHR ''@''
               then (case getaddrspec s of
                       (a, cm, r3) \<Rightarrow> ([(py_join '' '' (cms @ cm), a)], skip_comma r3))
             else if c = CHR '':''
               then (case group_loop r2 of (l, r3) \<Rightarrow> (l, skip_comma r3))
             else if c = CHR ''<''
               then (case routeaddr_loop False (next_rest r2) of
                       (a, cm, r3) \<Rightarrow>
                         ([(realname pl (cms @ next_comments r2 @ cm), a)], skip_comma r3))
             else if pl \<noteq> [] then ([(py_join '' '' cms, hd pl)], skip_comma (c # r2))
             else if c \<in> set specials then ([], skip_comma r2)
             else ([], skip_comma (c # r2)))"
| "group_loop s0 =
     (let s = next_rest s0
      in case s of
           [] \<Rightarrow> ([], [])
         | c # r \<Rightarrow>
             if c = CHR '';'' then ([], r)
             else if length (snd (getaddress s)) < length s
               then (case group_loop (snd (getaddress s)) of
                       (l, r') \<Rightarrow> (fst (getaddress s) @ l, r'))
             else getaddress s)"
  by pat_completeness auto
termination
proof (relation "measure (\<lambda>x. case x of Inl s \<Rightarrow> 2 * length s | Inr s \<Rightarrow> 2 * length s + 1)",
    goal_cases)
  case 1
  then show ?case by simp
next
  case (2 s0 s x pl y cmp r cms r1 c r2)
  have "length (c # r2) \<le> length r"
    using 2 length_next_rest [of r] by (metis)
  moreover have "length r \<le> length s0"
    using 2 length_phraselist [of s] length_next_rest [of s0] by (metis le_trans snd_conv)
  ultimately show ?case by simp
next
  case (3 s0 s c r)
  then show ?case by (simp add: less_Suc_eq_le length_next_rest)
next
  case (4 s0 s c r)
  then show ?case using length_next_rest [of s0] by simp
next
  case (5 s0 s c r)
  then show ?case using length_next_rest [of s0] by simp
qed (simp_all add: less_Suc_eq_le length_next_rest)

function getaddrlist :: "string \<Rightarrow> (string \<times> string) list" where
  "getaddrlist s =
     (if s = [] then []
      else let r = getaddress s; a = (if fst r = [] then [([], [])] else fst r) in
           if length (snd r) < length s then a @ getaddrlist (snd r) else a)"
  by pat_completeness auto
termination
  by (relation "measure length") auto

declare getaddrlist.simps [simp del] getaddress.simps [simp del] group_loop.simps [simp del]

section \<open>Validation and the entry point\<close>

fun split_quote :: "bool \<Rightarrow> string \<Rightarrow> (string \<times> string) option" where
  "split_quote esc [] = None"
| "split_quote esc (c # s) =
     (if \<not> esc \<and> c = dquote then Some ([], s)
      else map_option (\<lambda>(a, b). (c # a, b)) (split_quote (\<not> esc \<and> c = backslash) s))"

lemma length_split_quote: "split_quote esc s = Some (a, b) \<Longrightarrow> length b < length s"
  by (induction esc s arbitrary: a b rule: split_quote.induct) (force split: if_splits)+

function strip_quoted_realnames :: "string \<Rightarrow> string" where
  "strip_quoted_realnames s =
     (case split_quote False s of
        None \<Rightarrow> s
      | Some (a, r) \<Rightarrow>
          (case split_quote False r of
             None \<Rightarrow> s
           | Some (b, r') \<Rightarrow> a @ strip_quoted_realnames r'))"
  by pat_completeness auto
termination
  by (relation "measure length") (auto dest!: length_split_quote)

declare strip_quoted_realnames.simps [simp del]

fun parens_balanced :: "nat \<Rightarrow> bool \<Rightarrow> string \<Rightarrow> bool" where
  "parens_balanced opens esc [] = (opens = 0)"
| "parens_balanced opens esc (c # s) =
     (if esc then parens_balanced opens False s
      else if c = backslash then parens_balanced opens True s
      else if c = CHR ''('' then parens_balanced (Suc opens) False s
      else if c = CHR '')''
        then (case opens of 0 \<Rightarrow> False | Suc n \<Rightarrow> parens_balanced n False s)
      else parens_balanced opens False s)"

definition refused_field :: string where
  "refused_field = [CHR ''('', CHR 39, CHR 39, CHR '','', CHR '' '', CHR 39, CHR 39, CHR '')'']"

definition pre_parse :: "string \<Rightarrow> string" where
  "pre_parse s = (if parens_balanced 0 False (strip_quoted_realnames s) then s else refused_field)"

definition parseaddr :: "string \<Rightarrow> string \<times> string" where
  "parseaddr s =
     (case map (\<lambda>v. if CHR ''['' \<in> set (snd v) then ([], []) else v) (getaddrlist (pre_parse s)) of
        [v] \<Rightarrow> v
      | _ \<Rightarrow> ([], []))"


section \<open>Plain addresses parse to themselves\<close>

text \<open>
  A plain address is \<open>local@domain\<close> with no specials but dots on either side, no whitespace and
  no quoting: the form every real address of the program has.
\<close>

definition plain_char :: "char \<Rightarrow> bool" where
  "plain_char c = (c = CHR ''.'' \<or> (\<not> atom_end c \<and> \<not> py_space c))"

definition plain_addr :: "string \<Rightarrow> bool" where
  "plain_addr s =
     (case partition_at (CHR ''@'') s of
        (l, _, d) \<Rightarrow> l \<noteq> [] \<and> d \<noteq> [] \<and> (\<forall>c \<in> set l. plain_char c) \<and> (\<forall>c \<in> set d. plain_char c))"

lemma special_chars [simp]:
  "atom_end (CHR ''@'')" "atom_end (CHR ''('')" "atom_end (CHR '')'')" "atom_end (CHR ''['')"
  "atom_end dquote" "phrase_end (CHR ''@'')" "\<not> lws (CHR ''@'')" "\<not> crlf (CHR ''@'')"
  "\<not> lws (CHR ''.'')" "\<not> crlf (CHR ''.'')" "\<not> py_space (CHR ''.'')" "CHR ''@'' \<noteq> dquote"
  "CHR ''.'' \<noteq> dquote" "dquote \<noteq> CHR ''.''"
  by (simp_all add: atom_end_def phrase_end_def specials_def dquote_def lws_def crlf_def ord_def
      py_space_def)

lemma lws_crlf_atom_end: "lws c \<or> crlf c \<Longrightarrow> atom_end c"
  by (auto simp: atom_end_def)

lemma plain_charD:
  assumes "plain_char c"
  shows "\<not> lws c" "\<not> crlf c" "c \<noteq> CHR ''(''" "c \<noteq> CHR '')''" "c \<noteq> CHR ''[''" "c \<noteq> CHR ''@''"
    "c \<noteq> dquote" "\<not> phrase_end c" "\<not> py_space c" "c \<noteq> CHR ''.'' \<Longrightarrow> \<not> atom_end c"
  using assms lws_crlf_atom_end [of c] special_chars
  by (auto simp: plain_char_def phrase_end_def)

lemma plain_addr_iff:
  "plain_addr s \<longleftrightarrow> (\<exists>l d. s = l @ CHR ''@'' # d \<and> l \<noteq> [] \<and> d \<noteq> [] \<and>
     (\<forall>c \<in> set l. plain_char c) \<and> (\<forall>c \<in> set d. plain_char c))"
proof
  assume p: "plain_addr s"
  have at: "CHR ''@'' \<in> set s"
    using p by (auto simp: plain_addr_def partition_at_def split: if_splits)
  obtain l d where s: "s = l @ CHR ''@'' # d" "CHR ''@'' \<notin> set l"
    using split_list_first [OF at] by blast
  with p show "\<exists>l d. s = l @ CHR ''@'' # d \<and> l \<noteq> [] \<and> d \<noteq> [] \<and>
     (\<forall>c \<in> set l. plain_char c) \<and> (\<forall>c \<in> set d. plain_char c)"
    by (auto simp: plain_addr_def partition_at_simps)
next
  assume "\<exists>l d. s = l @ CHR ''@'' # d \<and> l \<noteq> [] \<and> d \<noteq> [] \<and>
     (\<forall>c \<in> set l. plain_char c) \<and> (\<forall>c \<in> set d. plain_char c)"
  then obtain l d where s: "s = l @ CHR ''@'' # d" "l \<noteq> []" "d \<noteq> []"
    "\<forall>c \<in> set l. plain_char c" "\<forall>c \<in> set d. plain_char c" by blast
  then have "CHR ''@'' \<notin> set l" using plain_charD(6) by blast
  with s show "plain_addr s" by (simp add: plain_addr_def partition_at_simps)
qed

lemma gotonext_stop:
  "\<not> lws c \<Longrightarrow> \<not> crlf c \<Longrightarrow> c \<noteq> CHR ''('' \<Longrightarrow>
   next_rest (c # s) = c # s \<and> next_comments (c # s) = [] \<and> next_ws (c # s) = []"
  by (simp add: next_rest_def next_comments_def next_ws_def)

lemma gotonext_plain:
  assumes "\<forall>c \<in> set l. plain_char c"
  shows "next_rest (l @ CHR ''@'' # d) = l @ CHR ''@'' # d"
    and "next_comments (l @ CHR ''@'' # d) = []" and "next_ws (l @ CHR ''@'' # d) = []"
  using assms gotonext_stop [of "hd (l @ CHR ''@'' # d)" "tl (l @ CHR ''@'' # d)"] plain_charD
  by (cases l; auto)+

lemma gotonext_end [simp]: "next_rest [] = []" "next_comments [] = []" "next_ws [] = []"
  by (simp_all add: next_rest_def next_comments_def next_ws_def)

lemma phraselist_plain:
  assumes "\<forall>c \<in> set l. plain_char c" "l \<noteq> []"
  shows "phraselist (l @ CHR ''@'' # d) = ([l], [], CHR ''@'' # d)"
proof -
  obtain c m where l: "l = c # m" using assms(2) by (cases l) auto
  have "\<forall>x \<in> set m. \<not> phrase_end x" using assms plain_charD(8) l by auto
  then have "takeWhile (\<lambda>x. \<not> phrase_end x) (m @ CHR ''@'' # d) = m"
    "dropWhile (\<lambda>x. \<not> phrase_end x) (m @ CHR ''@'' # d) = CHR ''@'' # d"
    by (simp_all add: takeWhile_append dropWhile_append)
  with assms l plain_charD [of c] show ?thesis by simp
qed

lemma pop_blank_plain: "\<forall>p \<in> set acc. py_strip p \<noteq> [] \<Longrightarrow> pop_blank acc = acc"
  by (cases acc) (auto simp: pop_blank_def)

lemma addrspec_loop_plain:
  assumes "\<forall>c \<in> set l. plain_char c" "\<forall>p \<in> set acc. py_strip p \<noteq> []"
  shows "\<exists>a. addrspec_loop acc (l @ CHR ''@'' # d) = (a, [], CHR ''@'' # d)
              \<and> concat (rev a) = concat (rev acc) @ l"
  using assms
proof (induction l arbitrary: acc rule: length_induct)
  case (1 l)
  show ?case
  proof (cases l)
    case Nil
    with 1(3) show ?thesis by (simp add: pop_blank_plain)
  next
    case (Cons c m)

    have m: "\<forall>x \<in> set m. plain_char x" and c: "plain_char c" using 1(2) Cons by auto
    show ?thesis
    proof (cases "c = CHR ''.''")
      case True
      have "py_strip ''.'' \<noteq> []" by (simp add: py_strip_id)
      then have "\<forall>p \<in> set (''.'' # acc). py_strip p \<noteq> []" using 1(3) by simp
      moreover have "length m < length l" using Cons by simp
      ultimately obtain a where "addrspec_loop (''.'' # acc) (m @ CHR ''@'' # d) = (a, [], CHR ''@'' # d)"
        "concat (rev a) = concat (rev (''.'' # acc)) @ m"
        using 1(1) m by meson
      with True Cons m 1(3) show ?thesis by (simp add: gotonext_plain pop_blank_plain)
    next
      case False
      define t where "t = takeWhile (\<lambda>x. \<not> atom_end x) m"
      define r where "r = dropWhile (\<lambda>x. \<not> atom_end x) m"
      have mt: "m = t @ r" by (simp add: t_def r_def)
      have tw: "takeWhile (\<lambda>x. \<not> atom_end x) (m @ CHR ''@'' # d) = t"
        "dropWhile (\<lambda>x. \<not> atom_end x) (m @ CHR ''@'' # d) = r @ CHR ''@'' # d"
        by (auto simp: t_def r_def takeWhile_append dropWhile_append takeWhile_eq_all_conv [THEN iffD2])
      have r: "\<forall>x \<in> set r. plain_char x" using m mt by auto
      have "py_strip (c # t) \<noteq> []"
        using c m mt plain_charD(9) by (subst py_strip_id) auto
      then have "\<forall>p \<in> set ((c # t) # acc). py_strip p \<noteq> []" using 1(3) by simp
      moreover have "length r < length l" using Cons mt by simp
      ultimately obtain a where
        a: "addrspec_loop ((c # t) # acc) (r @ CHR ''@'' # d) = (a, [], CHR ''@'' # d)"
          "concat (rev a) = concat (rev ((c # t) # acc)) @ r"
        using 1(1) r by meson
      have "addrspec_loop acc ((c # m) @ CHR ''@'' # d) = (a, [], CHR ''@'' # d)"
        using False plain_charD(7) [OF c] plain_charD(10) [OF c False] a(1) by (simp add: tw gotonext_plain [OF r] push_ws_def)
      with a(2) Cons mt show ?thesis by simp
    qed
  qed
qed

lemma getdomain_plain:
  assumes "\<forall>c \<in> set d. plain_char c"
  shows "getdomain acc d = (acc @ d, [], [])"
  using assms
proof (induction d arbitrary: acc rule: length_induct)
  case (1 d)
  show ?case
  proof (cases d)
    case Nil
    then show ?thesis by simp
  next
    case (Cons c m)
    have c: "plain_char c" and m: "\<forall>x \<in> set m. plain_char x" using 1(2) Cons by auto
    define t where "t = takeWhile (\<lambda>x. \<not> atom_end x) m"
    define r where "r = dropWhile (\<lambda>x. \<not> atom_end x) m"
    have mt: "t @ r = m" by (simp add: t_def r_def)
    have IH: "getdomain acc' x = (acc' @ x, [], [])"
      if "length x < length d" "\<forall>y \<in> set x. plain_char y" for acc' x
      using 1(1) that by blast
    have "length r < length d" "\<forall>y \<in> set r. plain_char y" using Cons m by (auto simp flip: mt)
    from IH [OF this] IH [of m] Cons m plain_charD [OF c] show ?thesis
      by (cases "c = CHR ''.''") (simp_all add: mt flip: t_def r_def)
  qed
qed

lemma getaddrspec_plain:
  assumes "\<forall>c \<in> set l. plain_char c" "\<forall>c \<in> set d. plain_char c" "d \<noteq> []"
  shows "getaddrspec (l @ CHR ''@'' # d) = (l @ CHR ''@'' # d, [], [])"
proof -
  obtain a where a: "addrspec_loop [] (l @ CHR ''@'' # d) = (a, [], CHR ''@'' # d)"
    "concat (rev a) = l"
    using addrspec_loop_plain [OF assms(1), of "[]" d] by auto
  have "next_rest d = d \<and> next_comments d = []"
    using assms(2,3) gotonext_stop [of "hd d" "tl d"] plain_charD [of "hd d"] by (cases d) auto
  with a assms show ?thesis
    by (simp add: getaddrspec_def gotonext_plain getdomain_plain)
qed

lemma getaddress_plain:
  assumes "\<forall>c \<in> set l. plain_char c" "\<forall>c \<in> set d. plain_char c" "l \<noteq> []" "d \<noteq> []"
  shows "getaddress (l @ CHR ''@'' # d) = ([([], l @ CHR ''@'' # d)], [])"
  using assms gotonext_stop [of "CHR ''@''" d]
  by (subst getaddress.simps)
     (simp add: gotonext_plain phraselist_plain getaddrspec_plain skip_comma_def)

lemma split_quote_none: "dquote \<notin> set s \<Longrightarrow> split_quote esc s = None"
  by (induction esc s rule: split_quote.induct) auto

lemma parens_balanced_none:
  "CHR ''('' \<notin> set s \<Longrightarrow> CHR '')'' \<notin> set s \<Longrightarrow> parens_balanced 0 esc s"
  by (induction s arbitrary: esc) auto

theorem parseaddr_plain:
  assumes "plain_addr s"
  shows "parseaddr s = ([], s)"
proof -
  obtain l d where s: "s = l @ CHR ''@'' # d" "l \<noteq> []" "d \<noteq> []"
    "\<forall>c \<in> set l. plain_char c" "\<forall>c \<in> set d. plain_char c"
    using assms by (auto simp: plain_addr_iff)
  then have no: "dquote \<notin> set s" "CHR ''('' \<notin> set s" "CHR '')'' \<notin> set s" "CHR ''['' \<notin> set s"
    using plain_charD by (auto simp: dquote_def) (metis dquote_def)+
  then have "strip_quoted_realnames s = s"
    by (subst strip_quoted_realnames.simps) (simp add: split_quote_none)
  with no have "pre_parse s = s" by (simp add: pre_parse_def parens_balanced_none)
  moreover have "getaddress s = ([([], s)], [])" using getaddress_plain s by simp
  then have "getaddrlist s = [([], s)]"
    using s by (subst getaddrlist.simps) (simp add: getaddrlist.simps)
  ultimately show ?thesis using no by (simp add: parseaddr_def)
qed

end
