(* ===== verification/Suppressions.thy ===== *)
theory Suppressions
  imports Models Py_Mail
begin

text \<open>
  The suppression list (emaild/suppressions.py): canonical addresses, lookup, insertion with the
  race the unique index decides, removal, and the scoped listing.  The interface the other
  components use is the locale \<open>blocklist\<close>, interpreted on the operations below.
\<close>

section \<open>Operations\<close>

text \<open>The shape test the program writes out wherever it has parsed an address.\<close>

definition address_shape_ok :: "string \<Rightarrow> bool" where
  "address_shape_ok address =
     (case rpartition_at (CHR ''@'') address of
        (local, _, domain) \<Rightarrow>
          \<not> (local = [] \<or> domain = [] \<or> CHR ''.'' \<notin> set domain \<or> starts_with ''.'' domain))"

definition normalise_address :: "string \<Rightarrow> string result" where
  "normalise_address raw =
     (let address = py_lower (py_strip (snd (parseaddr raw)))
      in if \<not> address_shape_ok address
         then Inl (Invalid_Address (''not a valid email address: '' @ py_repr raw))
         else Inr address)"

definition is_suppressed :: "db \<Rightarrow> string \<Rightarrow> bool result" where
  "is_suppressed d address =
     bind_result (normalise_address address)
       (\<lambda>n. Inr (0 < count_where (\<lambda>s. su_address s = n) (suppressions d)))"

text \<open>Addresses that do not parse are skipped; the result is the set of suppressed ones.\<close>

fun normalise_valid :: "string list \<Rightarrow> string list" where
  "normalise_valid [] = []"
| "normalise_valid (raw # rest) =
     (case normalise_address raw of
        Inl _ \<Rightarrow> normalise_valid rest
      | Inr n \<Rightarrow> n # normalise_valid rest)"

definition find_suppressed :: "db \<Rightarrow> string list \<Rightarrow> string list" where
  "find_suppressed d addresses =
     (let normalised = normalise_valid addresses
      in if normalised = [] then []
         else map su_address (filter (\<lambda>s. su_address s \<in> set normalised) (suppressions d)))"

text \<open>
  \<open>add_suppression\<close>.  \<open>d0\<close> is the database when the transaction began; \<open>rival\<close> is the row another
  transaction committed between the lookup and the insert, if any.  A rival with the same address
  makes the flush fail, and the rollback takes the whole transaction back to \<open>d0\<close>.
\<close>

definition add_suppression ::
    "time \<Rightarrow> suppression_row option \<Rightarrow> db \<Rightarrow> db \<Rightarrow> string \<Rightarrow> suppression_source \<Rightarrow>
     string option \<Rightarrow> nat option \<Rightarrow> (suppression_row \<times> bool \<times> db) result" where
  "add_suppression now rival d0 d address source reason project_id =
     bind_result (normalise_address address) (\<lambda>n.
       case find (\<lambda>s. su_address s = n) (suppressions d) of
         Some existing \<Rightarrow> Inr (existing, False, d)
       | None \<Rightarrow>
           (let row = \<lparr>su_id = next_id d, su_address = n, su_source = source, su_reason = reason,
                       su_project_id = project_id, su_created_at = now\<rparr>;
                inserted = (row, True, d\<lparr>suppressions := suppressions d @ [row],
                                        next_id := Suc (next_id d)\<rparr>)
            in case rival of
                 None \<Rightarrow> Inr inserted
               | Some r \<Rightarrow>
                   if su_address r = n
                   then Inr (r, False, d0\<lparr>suppressions := suppressions d0 @ [r]\<rparr>)
                   else Inr inserted))"

definition remove_suppression :: "db \<Rightarrow> string \<Rightarrow> (bool \<times> db) result" where
  "remove_suppression d address =
     bind_result (normalise_address address) (\<lambda>n.
       Inr (\<exists>s \<in> set (suppressions d). su_address s = n,
            d\<lparr>suppressions := filter (\<lambda>s. su_address s \<noteq> n) (suppressions d)\<rparr>))"

text \<open>
  The listing, newest first.  \<open>project_id = None\<close> is the operator's view.  The database refuses
  a negative \<open>LIMIT\<close> or \<open>OFFSET\<close>.
\<close>

definition in_project :: "nat option \<Rightarrow> suppression_row \<Rightarrow> bool" where
  "in_project project_id s = (case project_id of None \<Rightarrow> True | Some p \<Rightarrow> su_project_id s = Some p)"

definition list_suppressions ::
    "db \<Rightarrow> int \<Rightarrow> int \<Rightarrow> nat option \<Rightarrow> suppression_row list result" where
  "list_suppressions d limit offset project_id =
     (let rows = sort_key (\<lambda>s. - su_created_at s) (filter (in_project project_id) (suppressions d));
          n = min limit 1000
      in if n < 0 then Inl (Runtime_Error ''LIMIT must not be negative'')
         else if offset < 0 then Inl (Runtime_Error ''OFFSET must not be negative'')
         else Inr (take (nat n) (drop (nat offset) rows)))"

definition count_suppressions :: "db \<Rightarrow> nat option \<Rightarrow> nat" where
  "count_suppressions d project_id = count_where (in_project project_id) (suppressions d)"

section \<open>Canonical addresses\<close>

lemma normalise_address_Inr:
  "normalise_address raw = Inr n \<longleftrightarrow>
     n = py_lower (py_strip (snd (parseaddr raw))) \<and> address_shape_ok n"
  by (auto simp: normalise_address_def Let_def)

lemma normalise_address_shape: "normalise_address raw = Inr n \<Longrightarrow> address_shape_ok n"
  using normalise_address_Inr by blast

lemma normalise_address_lower: "normalise_address raw = Inr n \<Longrightarrow> py_lower n = n"
  by (simp add: normalise_address_Inr)

lemma address_shape_okE:
  assumes "address_shape_ok a"
  obtains l d where "a = l @ CHR ''@'' # d" "l \<noteq> []" "d \<noteq> []" "CHR ''@'' \<notin> set d" "CHR ''.'' \<in> set d"
proof (cases "CHR ''@'' \<in> set a")
  case True
  then obtain l d where a: "a = l @ CHR ''@'' # d" "CHR ''@'' \<notin> set d"
    by (meson split_list_last)
  with assms show ?thesis
    by (intro that [of l d]) (auto simp: address_shape_ok_def rpartition_at_simps)
next
  case False
  with assms show ?thesis by (simp add: address_shape_ok_def rpartition_at_def)
qed

text \<open>A plain address is stored in lower case, and storing it again changes nothing.\<close>

lemma lower_char_special:
  assumes "c \<in> set specials \<or> ord c \<in> {9, 10, 13, 32}"
  shows "lower_char x = c \<longleftrightarrow> x = c"
proof (rule lower_char_eq_iff)
  show "\<not> py_upper_letter c" "\<not> (97 \<le> ord c \<and> ord c \<le> 122)" "\<not> 224 \<le> ord c"
    using assms by (auto simp: specials_def dquote_def py_upper_letter_def ord_def)
qed

lemma lower_char_classes [simp]:
  "lower_char x \<in> set specials \<longleftrightarrow> x \<in> set specials"
  "lws (lower_char x) = lws x" "crlf (lower_char x) = crlf x"
proof -
  show "lower_char x \<in> set specials \<longleftrightarrow> x \<in> set specials"
    using lower_char_special by metis
  have "ord (lower_char x) = n \<longleftrightarrow> ord x = n" if "n \<in> {9, 10, 13, 32}" for n
    using that by (auto simp: ord_lower_char py_upper_letter_def)
  then show "lws (lower_char x) = lws x" "crlf (lower_char x) = crlf x"
    by (simp_all add: lws_def crlf_def)
qed

lemma plain_char_lower [simp]: "plain_char (lower_char c) = plain_char c"
proof -
  have "CHR ''.'' \<in> set specials" by (simp add: specials_def)
  then show ?thesis by (simp add: plain_char_def atom_end_def lower_char_special)
qed

lemma plain_addr_lower: "plain_addr s \<Longrightarrow> plain_addr (py_lower s)"
proof -
  assume "plain_addr s"
  then obtain l d where s: "s = l @ CHR ''@'' # d" "l \<noteq> []" "d \<noteq> []"
    "\<forall>c \<in> set l. plain_char c" "\<forall>c \<in> set d. plain_char c"
    by (auto simp: plain_addr_iff)
  moreover have "lower_char (CHR ''@'') = CHR ''@''"
    by (simp add: lower_char_special specials_def)
  ultimately have "py_lower s = py_lower l @ CHR ''@'' # py_lower d"
    "\<forall>c \<in> set (py_lower l). plain_char c" "\<forall>c \<in> set (py_lower d). plain_char c"
    by (auto simp: py_lower_def)
  with s show ?thesis unfolding plain_addr_iff
    by (intro exI [of _ "py_lower l"] exI [of _ "py_lower d"]) simp
qed

lemma plain_addr_strip: "plain_addr s \<Longrightarrow> py_strip s = s"
proof (rule py_strip_id)
  assume "plain_addr s"
  then obtain l d where "s = l @ CHR ''@'' # d"
    "\<forall>c \<in> set l. plain_char c" "\<forall>c \<in> set d. plain_char c"
    by (auto simp: plain_addr_iff)
  moreover have "\<not> py_space (CHR ''@'')" by (simp add: py_space_def ord_def)
  ultimately show "\<forall>c \<in> set s. \<not> py_space c" using plain_charD(9) by auto
qed

lemma normalise_plain:
  assumes "plain_addr s"
  shows "normalise_address s =
    (if address_shape_ok (py_lower s) then Inr (py_lower s)
     else Inl (Invalid_Address (''not a valid email address: '' @ py_repr s)))"
  using assms by (simp add: normalise_address_def parseaddr_plain plain_addr_strip)

lemma normalise_plain_idem:
  assumes "plain_addr s" "normalise_address s = Inr n"
  shows "n = py_lower s" and "plain_addr n" and "normalise_address n = Inr n"
proof -
  show n: "n = py_lower s" using assms by (auto simp: normalise_plain split: if_splits)
  with assms show p: "plain_addr n" by (simp add: plain_addr_lower)
  from assms have "address_shape_ok n" by (simp add: normalise_address_shape)
  with p n show "normalise_address n = Inr n" by (simp add: normalise_plain)
qed

section \<open>The list as a set of canonical addresses\<close>

definition suppressed_set :: "db \<Rightarrow> string set" where
  "suppressed_set d = su_address ` set (suppressions d)"

lemma is_suppressed_iff:
  "is_suppressed d a = Inr b \<longleftrightarrow>
     (\<exists>n. normalise_address a = Inr n \<and> b = (n \<in> suppressed_set d))"
  by (auto simp: is_suppressed_def bind_result_eq_Inr suppressed_set_def count_where_def
      filter_empty_conv)

lemma set_normalise_valid:
  "set (normalise_valid as) = {n. \<exists>a \<in> set as. normalise_address a = Inr n}"
  by (induction as) (auto split: sum.splits)

lemma set_find_suppressed:
  "set (find_suppressed d as) =
     {n \<in> suppressed_set d. \<exists>a \<in> set as. normalise_address a = Inr n}"
  by (auto simp: find_suppressed_def Let_def set_normalise_valid suppressed_set_def
      simp flip: set_empty)

lemma find_None_suppressed:
  "find (\<lambda>s. su_address s = n) (suppressions d) = None \<longleftrightarrow> n \<notin> suppressed_set d"
  by (auto simp: find_None_ball suppressed_set_def)

lemma add_suppression_Inl_iff:
  "add_suppression now rival d0 d a src reason p = Inl e \<longleftrightarrow> normalise_address a = Inl e"
  by (auto simp: add_suppression_def bind_result_eq_Inl Let_def split: option.splits if_splits)

lemma add_suppression_cases:
  assumes "add_suppression now rival d0 d a src reason p = Inr (r, created, d')"
  obtains
    (present) n where "normalise_address a = Inr n" "n \<in> suppressed_set d"
      "su_address r = n" "\<not> created" "d' = d"
  | (inserted) n where "normalise_address a = Inr n" "n \<notin> suppressed_set d"
      "r = \<lparr>su_id = next_id d, su_address = n, su_source = src, su_reason = reason,
            su_project_id = p, su_created_at = now\<rparr>" "created"
      "d' = d\<lparr>suppressions := suppressions d @ [r], next_id := Suc (next_id d)\<rparr>"
      "\<forall>q. rival = Some q \<longrightarrow> su_address q \<noteq> n"
  | (raced) n where "normalise_address a = Inr n" "n \<notin> suppressed_set d"
      "rival = Some r" "su_address r = n" "\<not> created"
      "d' = d0\<lparr>suppressions := suppressions d0 @ [r]\<rparr>"
proof -
  obtain n where n: "normalise_address a = Inr n"
    using assms by (auto simp: add_suppression_def bind_result_eq_Inr)
  show ?thesis
  proof (cases "find (\<lambda>s. su_address s = n) (suppressions d)")
    case None
    then have "n \<notin> suppressed_set d" by (simp add: find_None_suppressed)
    with assms n None show ?thesis
      by (cases rival)
         (auto simp: add_suppression_def Let_def intro: inserted raced split: if_splits)
  next
    case (Some q)
    then have "n \<in> suppressed_set d" using find_None_suppressed [of n d] by simp
    with assms n Some show ?thesis
      using find_SomeD(2) [OF Some] by (intro present [of n]) (auto simp: add_suppression_def)
  qed
qed

lemma add_suppression_adds:
  assumes "add_suppression now None d0 d a src reason p = Inr (r, created, d')"
    and "normalise_address a = Inr n"
  shows "suppressed_set d' = insert n (suppressed_set d)" and "created \<longleftrightarrow> n \<notin> suppressed_set d"
  using assms by (auto elim!: add_suppression_cases simp: suppressed_set_def)

lemma add_suppression_ok:
  assumes "add_suppression now rival d0 d a src reason p = Inr (r, created, d')"
    and "suppressions_ok d" "suppressions_ok d0"
    and "\<And>q. rival = Some q \<Longrightarrow> su_address q \<notin> suppressed_set d0"
  shows "suppressions_ok d'"
  using assms
  by (auto elim!: add_suppression_cases simp: suppressions_ok_def unique_on_append suppressed_set_def)

lemma remove_suppression_removes:
  assumes "remove_suppression d a = Inr (removed, d')" "normalise_address a = Inr n"
  shows "suppressed_set d' = suppressed_set d - {n}" and "removed \<longleftrightarrow> n \<in> suppressed_set d"
  using assms by (auto simp: remove_suppression_def suppressed_set_def)

lemma unique_on_filter: "unique_on key t \<Longrightarrow> unique_on key (filter P t)"
  by (induction t) (auto simp: unique_on_def)

lemma remove_suppression_ok:
  "remove_suppression d a = Inr (removed, d') \<Longrightarrow> suppressions_ok d \<Longrightarrow> suppressions_ok d'"
  by (auto simp: remove_suppression_def suppressions_ok_def bind_result_eq_Inr unique_on_filter)

section \<open>The interface\<close>

text \<open>
  What a client of the list relies on: one canonicalisation for both directions, adding and
  removing exactly one canonical address, and an error only where the address has no canonical
  form.
\<close>

locale blocklist =
  fixes canon :: "string \<Rightarrow> string result"
    and listed :: "'s \<Rightarrow> string set"
    and block :: "'s \<Rightarrow> string \<Rightarrow> 's result"
    and unblock :: "'s \<Rightarrow> string \<Rightarrow> 's result"
  assumes block_law: "canon a = Inr n \<Longrightarrow> \<exists>s'. block s a = Inr s' \<and> listed s' = insert n (listed s)"
    and block_error: "canon a = Inl e \<Longrightarrow> block s a = Inl e"
    and unblock_law: "canon a = Inr n \<Longrightarrow> \<exists>s'. unblock s a = Inr s' \<and> listed s' = listed s - {n}"
    and unblock_error: "canon a = Inl e \<Longrightarrow> unblock s a = Inl e"
begin

lemma blocked:
  assumes "block s a = Inr s'"
  shows "\<exists>n. canon a = Inr n \<and> listed s' = insert n (listed s)"
proof (cases "canon a")
  case (Inl e)
  with assms block_error [OF Inl, of s] show ?thesis by simp
next
  case (Inr n)
  with assms block_law [OF Inr, of s] show ?thesis by auto
qed

lemma unblocked:
  assumes "unblock s a = Inr s'"
  shows "\<exists>n. canon a = Inr n \<and> listed s' = listed s - {n}"
proof (cases "canon a")
  case (Inl e)
  with assms unblock_error [OF Inl, of s] show ?thesis by simp
next
  case (Inr n)
  with assms unblock_law [OF Inr, of s] show ?thesis by auto
qed

lemma block_monotone: "block s a = Inr s' \<Longrightarrow> listed s \<subseteq> listed s'"
  using blocked by blast

text \<open>Blocking a list of addresses in turn blocks every canonical form among them.\<close>

lemma block_all:
  assumes "fold (\<lambda>a r. bind_result r (\<lambda>s. block s a)) as (Inr s) = Inr s'"
  shows "listed s' = listed s \<union> {n. \<exists>a \<in> set as. canon a = Inr n}"
  using assms
proof (induction as arbitrary: s)
  case Nil
  then show ?case by simp
next
  case (Cons a as)
  have stuck: "fold (\<lambda>a r. bind_result r (\<lambda>s. block s a)) xs (Inl e) = Inl e" for xs e
    by (induction xs) auto
  from Cons.prems obtain t where t: "block s a = Inr t"
    by (cases "block s a") (auto simp: stuck)
  with Cons.prems have "fold (\<lambda>a r. bind_result r (\<lambda>s. block s a)) as (Inr t) = Inr s'" by simp
  from Cons.IH [OF this] blocked [OF t] show ?case by auto
qed

lemma block_then_unblock:
  assumes "block s a = Inr t" "unblock t a = Inr u"
  shows "\<exists>n. canon a = Inr n \<and> listed u = listed s - {n}"
  using blocked [OF assms(1)] unblocked [OF assms(2)] by auto

end

definition block_address :: "time \<Rightarrow> db \<Rightarrow> string \<Rightarrow> db result" where
  "block_address now d a =
     bind_result (add_suppression now None d d a Manual None None) (\<lambda>(r, c, d'). Inr d')"

definition unblock_address :: "db \<Rightarrow> string \<Rightarrow> db result" where
  "unblock_address d a = bind_result (remove_suppression d a) (\<lambda>(r, d'). Inr d')"

interpretation sup_list: blocklist normalise_address suppressed_set "block_address now" unblock_address
  for now
proof
  fix a n and d :: db
  assume n: "normalise_address a = Inr n"
  obtain r c d' where add: "add_suppression now None d d a Manual None None = Inr (r, c, d')"
  proof (cases "add_suppression now None d d a Manual None None")
    case (Inl e)
    with n show ?thesis by (simp add: add_suppression_Inl_iff)
  next
    case (Inr x)
    then show ?thesis using that by (cases x) auto
  qed
  then show "\<exists>s'. block_address now d a = Inr s' \<and> suppressed_set s' = insert n (suppressed_set d)"
    using add_suppression_adds [OF add n] by (simp add: block_address_def)
  obtain b u where "remove_suppression d a = Inr (b, u)"
    using n by (auto simp: remove_suppression_def)
  then show "\<exists>s'. unblock_address d a = Inr s' \<and> suppressed_set s' = suppressed_set d - {n}"
    using remove_suppression_removes n by (fastforce simp: unblock_address_def)
next
  fix a e and d :: db
  assume "normalise_address a = Inl e"
  then show "block_address now d a = Inl e" "unblock_address d a = Inl e"
    by (simp_all add: block_address_def unblock_address_def add_suppression_def
        remove_suppression_def)
qed

end
