(* ===== verification/Canonical.thy ===== *)
theory Canonical
  imports Errors "HOL-Library.Multiset"
begin

text \<open>
  \<open>json.dumps(.., sort_keys=True, separators=(",", ":"))\<close> with its ASCII escapes, the text the
  idempotency fingerprint is taken of.  Two facts matter to the caller: the order of the keys does
  not change the text, and different values never share a text.
\<close>

section \<open>The encoder\<close>

definition json_escape :: "char \<Rightarrow> string" where
  "json_escape c = (let n = ord c; b = char_of (92::nat) in
     if n = 34 \<or> n = 92 then [b, c]
     else if n = 10 then [b, CHR ''n'']
     else if n = 13 then [b, CHR ''r'']
     else if n = 9 then [b, CHR ''t'']
     else if n = 8 then [b, CHR ''b'']
     else if n = 12 then [b, CHR ''f'']
     else if n < 32 \<or> 126 < n
       then [b, CHR ''u'', CHR ''0'', CHR ''0'', hex_char (n div 16), hex_char (n mod 16)]
     else [c])"

definition json_text :: "string \<Rightarrow> string" where
  "json_text s = [CHR 34] @ concat (map json_escape s) @ [CHR 34]"

fun json_dumps :: "json \<Rightarrow> string" where
  "json_dumps JNull = ''null''"
| "json_dumps (JBool b) = (if b then ''true'' else ''false'')"
| "json_dumps (JInt i) = str_of_int i"
| "json_dumps (JStr s) = json_text s"
| "json_dumps (JArr xs) = ''['' @ py_join '','' (map json_dumps xs) @ '']''"
| "json_dumps (JObj kvs) =
     ''{'' @ py_join '','' (map (\<lambda>(k, v). json_text k @ '':'' @ json_dumps v) kvs) @ ''}''"

fun sort_keys :: "json \<Rightarrow> json" where
  "sort_keys (JArr xs) = JArr (map sort_keys xs)"
| "sort_keys (JObj kvs) = JObj (sort_key fst (map (\<lambda>(k, v). (k, sort_keys v)) kvs))"
| "sort_keys j = j"

definition canonical_json :: "json \<Rightarrow> string" where
  "canonical_json j = json_dumps (sort_keys j)"

text \<open>Dictionaries have distinct keys, at every level.\<close>

fun json_dict_ok :: "json \<Rightarrow> bool" where
  "json_dict_ok (JArr xs) = list_all json_dict_ok xs"
| "json_dict_ok (JObj kvs) = (distinct (map fst kvs) \<and> list_all (\<lambda>(k, v). json_dict_ok v) kvs)"
| "json_dict_ok j = True"

section \<open>Key order does not matter\<close>

lemma sort_key_fst_perm:
  assumes "mset kvs = mset kvs'" "distinct (map fst kvs)"
  shows "sort_key fst kvs = sort_key fst kvs'"
proof -
  have s: "set kvs = set kvs'" using assms(1) by (rule mset_eq_setD)
  have "mset (map fst kvs) = mset (map fst kvs')" using assms(1) by simp
  then have d: "distinct (map fst kvs')" using assms(2) mset_eq_imp_distinct_iff by blast
  have "mset (map fst (sort_key fst kvs)) = mset (map fst kvs)"
    "mset (map fst (sort_key fst kvs')) = mset (map fst kvs')" by simp_all
  then have "distinct (map fst (sort_key fst kvs))" "distinct (map fst (sort_key fst kvs'))"
    using assms(2) d mset_eq_imp_distinct_iff by blast+
  moreover have "inj_on fst (set kvs)" using assms(2) by (simp add: distinct_map)
  ultimately show ?thesis
    using s by (intro map_sorted_distinct_set_unique [where f = fst]) simp_all
qed

section \<open>Different values have different texts\<close>

definition hex_value :: "char \<Rightarrow> nat" where
  "hex_value c = (if ord c < 58 then ord c - 48 else ord c - 87)"

fun unescape :: "string \<Rightarrow> (char \<times> string) option" where
  "unescape [] = None"
| "unescape (c # s) =
     (if ord c = 34 then None
      else if ord c \<noteq> 92 then Some (c, s)
      else case s of
        [] \<Rightarrow> None
      | d # t \<Rightarrow>
          if d = CHR ''n'' then Some (char_of (10::nat), t)
          else if d = CHR ''r'' then Some (char_of (13::nat), t)
          else if d = CHR ''t'' then Some (char_of (9::nat), t)
          else if d = CHR ''b'' then Some (char_of (8::nat), t)
          else if d = CHR ''f'' then Some (char_of (12::nat), t)
          else if d = CHR ''u''
            then Some (char_of (16 * hex_value (t ! 2) + hex_value (t ! 3)), drop 4 t)
          else Some (d, t))"

lemma ord_CHR_of [simp]: "char_of (ord c) = c"
  by (simp add: ord_def)

lemma hex_value_hex_char: "n < 16 \<Longrightarrow> hex_value (hex_char n) = n"
  by (simp add: hex_value_def hex_char_def)

lemma ord_eq_CHR: "n < 256 \<Longrightarrow> ord c = n \<longleftrightarrow> c = char_of n"
  by (metis ord_CHR_of ord_char_of)

lemma char_literals:
  "char_of (34::nat) = CHR 34" "char_of (92::nat) = CHR 92" "char_of (10::nat) = CHR 10"
  "char_of (13::nat) = CHR 13" "char_of (9::nat) = CHR 9" "char_of (8::nat) = CHR 8"
  "char_of (12::nat) = CHR 12"
  by (simp_all add: char_of_def bit_Suc_0_iff)

lemma ord_literals:
  "ord (CHR 34) = 34" "ord (CHR 92) = 92" "ord (CHR 10) = 10" "ord (CHR 13) = 13"
  "ord (CHR 9) = 9" "ord (CHR 8) = 8" "ord (CHR 12) = 12"
  by (simp_all add: ord_def)

lemma unescape_escape: "unescape (json_escape c @ s) = Some (c, s)"
proof -
  have hex: "hex_value (hex_char (ord c div 16)) = ord c div 16"
    "hex_value (hex_char (ord c mod 16)) = ord c mod 16"
    using ord_less [of c] by (simp_all add: hex_value_hex_char)
  have bs: "ord (char_of (92::nat)) = 92" by simp
  show ?thesis
  proof (cases "ord c \<in> {34, 92, 10, 13, 9, 8, 12}")
    case True
    then have "c \<in> {CHR 34, CHR 92, CHR 10, CHR 13, CHR 9, CHR 8, CHR 12}"
      by (auto simp: ord_eq_CHR char_literals)
    then show ?thesis
      by (elim insertE emptyE) (simp_all add: json_escape_def Let_def char_literals ord_literals)
  next
    case False
    then show ?thesis
      by (auto simp: json_escape_def Let_def hex bs ord_CHR_of simp del: char_of_nat)
  qed
qed


lemma escape_prefix_free:
  "json_escape c @ s = json_escape d @ t \<Longrightarrow> c = d \<and> s = t"
  by (metis Pair_inject option.inject unescape_escape)

lemma escape_not_quote: "json_escape c @ s \<noteq> CHR 34 # t"
proof
  assume "json_escape c @ s = CHR 34 # t"
  with unescape_escape [of c s] show False by (simp add: ord_def)
qed

lemma escaped_prefix_free:
  "concat (map json_escape s) @ CHR 34 # r = concat (map json_escape t) @ CHR 34 # r' \<Longrightarrow>
   s = t \<and> r = r'"
proof (induction s arbitrary: t)
  case Nil
  show ?case
  proof (cases t)
    case Nil
    with Nil.prems show ?thesis by simp
  next
    case (Cons d t')
    with Nil.prems have "json_escape d @ concat (map json_escape t') @ CHR 34 # r' = CHR 34 # r"
      by simp
    with escape_not_quote show ?thesis by blast
  qed
next
  case (Cons c s)
  show ?case
  proof (cases t)
    case Nil
    with Cons.prems escape_not_quote [of c] show ?thesis by simp
  next
    case t: (Cons d t')
    with Cons.prems have "c = d \<and> concat (map json_escape s) @ CHR 34 # r
        = concat (map json_escape t') @ CHR 34 # r'"
      by (intro escape_prefix_free) simp
    with Cons.IH t show ?thesis by simp
  qed
qed

lemma json_text_prefix_free: "json_text s @ r = json_text t @ r' \<Longrightarrow> s = t \<and> r = r'"
  using escaped_prefix_free [of s r t r'] by (simp add: json_text_def)

text \<open>A list of prefix-free codes, joined with commas and closed by another character, is one too.\<close>

definition code_for :: "('a \<Rightarrow> string) \<Rightarrow> 'a \<Rightarrow> 'a \<Rightarrow> bool" where
  "code_for f x y = (\<forall>r r'. f x @ r = f y @ r' \<longrightarrow> x = y \<and> r = r')"

lemma code_forI: "(\<And>r r'. f x @ r = f y @ r' \<Longrightarrow> x = y \<and> r = r') \<Longrightarrow> code_for f x y"
  by (simp add: code_for_def)

lemma code_forD: "code_for f x y \<Longrightarrow> f x @ r = f y @ r' \<Longrightarrow> x = y \<and> r = r'"
  by (simp add: code_for_def)

lemma join_prefix_free:
  assumes "\<And>x y. x \<in> set xs \<Longrightarrow> y \<in> set ys \<Longrightarrow> code_for f x y"
    and "\<And>z s. z \<in> set xs \<union> set ys \<Longrightarrow> f z @ s \<noteq> [] \<and> hd (f z @ s) \<noteq> c"
    and "c \<noteq> CHR '',''"
    and "py_join '','' (map f xs) @ c # r = py_join '','' (map f ys) @ c # r'"
  shows "xs = ys \<and> r = r'"
  using assms
proof (induction xs arbitrary: ys)
  case Nil
  have "ys = []"
  proof (rule ccontr)
    assume "ys \<noteq> []"
    then obtain y ys' where ys: "ys = y # ys'" by (cases ys) auto
    then obtain s where "py_join '','' (map f ys) @ c # r' = f y @ s"
      by (cases ys') auto
    with Nil.prems(4) have "c # r = f y @ s" by simp
    moreover have "hd (f y @ s) \<noteq> c" using Nil.prems(2) ys by simp
    ultimately show False by (metis list.sel(1))
  qed
  with Nil.prems show ?case by simp
next
  case (Cons x xs)
  have "ys \<noteq> []"
  proof
    assume "ys = []"
    obtain s where "py_join '','' (map f (x # xs)) @ c # r = f x @ s"
      by (cases xs) auto
    with Cons.prems(4) \<open>ys = []\<close> have "f x @ s = c # r'" by simp
    moreover have "hd (f x @ s) \<noteq> c" using Cons.prems(2) by simp
    ultimately show False by simp
  qed
  then obtain y ys' where ys: "ys = y # ys'" by (cases ys) auto
  define rest where
    "rest zs q = (if zs = [] then c # q else CHR '','' # py_join '','' (map f zs) @ c # q)" for zs q
  have tail: "py_join '','' (map f (z # zs)) @ c # q = f z @ rest zs q" for z zs q
    by (cases zs) (simp_all add: rest_def)
  have "f x @ rest xs r = f y @ rest ys' r'"
    using Cons.prems(4) unfolding ys tail .
  moreover have "code_for f x y" using Cons.prems(1) ys by simp
  ultimately have same: "x = y \<and> rest xs r = rest ys' r'" by (rule code_forD [rotated])
  then have eq: "x = y" "py_join '','' (map f xs) @ c # r = py_join '','' (map f ys') @ c # r'"
    using Cons.prems(3) by (simp_all add: rest_def split: if_splits)
  have "xs = ys' \<and> r = r'"
  proof (rule Cons.IH)
    show "code_for f a b" if "a \<in> set xs" "b \<in> set ys'" for a b
      using Cons.prems(1) [of a b] that ys by simp
    show "f z @ s \<noteq> [] \<and> hd (f z @ s) \<noteq> c" if "z \<in> set xs \<union> set ys'" for z s
      using Cons.prems(2) [of z s] that ys by auto
  qed (fact Cons.prems(3), fact eq(2))
  with eq(1) ys show ?case by simp
qed

text \<open>
  What a request carries: strings, lists and dictionaries of strings.
\<close>

fun textual :: "json \<Rightarrow> bool" where
  "textual (JStr s) = True"
| "textual (JArr xs) = list_all textual xs"
| "textual (JObj kvs) = list_all (\<lambda>(k, v). textual v) kvs"
| "textual j = False"

lemma dumps_starts:
  "textual j \<Longrightarrow> \<exists>c s. json_dumps j = c # s \<and> c \<in> {CHR 34, CHR ''['', CHR ''{''}"
  by (cases j) (simp_all add: json_text_def)

lemma dumps_prefix_free:
  assumes "textual j" "textual j'" "json_dumps j @ r = json_dumps j' @ r'"
  shows "j = j' \<and> r = r'"
  using assms
proof (induction j arbitrary: j' r r' rule: json.induct)
  case (JStr s)
  then obtain t where "j' = JStr t" by (cases j') (auto simp: json_text_def)
  with JStr.prems(3) json_text_prefix_free [of s r t r'] show ?case by simp
next
  case (JArr xs)
  then obtain ys where j': "j' = JArr ys" by (cases j') (auto simp: json_text_def)
  have "xs = ys \<and> r = r'"
  proof (rule join_prefix_free [where f = json_dumps and c = "CHR '']''"])
    show "code_for json_dumps a b" if "a \<in> set xs" "b \<in> set ys" for a b
    proof (rule code_forI)
      have "textual a" "textual b" using that JArr.prems j' by (auto simp: list_all_iff)
      then show "a = b \<and> s = s'" if "json_dumps a @ s = json_dumps b @ s'" for s s'
        using JArr.IH [OF \<open>a \<in> set xs\<close>] that by blast
    qed
    show "json_dumps z @ s \<noteq> [] \<and> hd (json_dumps z @ s) \<noteq> CHR '']''"
      if "z \<in> set xs \<union> set ys" for z s
    proof -
      have "textual z" using that JArr.prems j' by (auto simp: list_all_iff)
      with dumps_starts [of z] show ?thesis by auto
    qed
    show "py_join '','' (map json_dumps xs) @ CHR '']'' # r = py_join '','' (map json_dumps ys) @ CHR '']'' # r'"
      using JArr.prems(3) j' by simp
  qed simp
  with j' show ?case by simp
next
  case (JObj kvs)
  then obtain lvs where j': "j' = JObj lvs" by (cases j') (auto simp: json_text_def)
  define f where "f = (\<lambda>(k, v). json_text k @ '':'' @ json_dumps v)"
  have "kvs = lvs \<and> r = r'"
  proof (rule join_prefix_free [where f = f and c = "CHR ''}''"])
    show "code_for f a b" if "a \<in> set kvs" "b \<in> set lvs" for a b
    proof -
      obtain k v where a: "a = (k, v)" by (cases a)
      obtain l w where b: "b = (l, w)" by (cases b)
      have t: "textual v" "textual w"
        using that a b JObj.prems j' by (auto simp: list_all_iff)
      have IH: "json_dumps v @ s = json_dumps w @ s' \<Longrightarrow> v = w \<and> s = s'" for s s'
        using JObj.IH [of "(k, v)" v w s s'] that a t by (auto simp: snds.simps)
      show ?thesis
      proof (rule code_forI)
        fix s s'
        assume "f a @ s = f b @ s'"
        then have "json_text k @ CHR '':'' # json_dumps v @ s = json_text l @ CHR '':'' # json_dumps w @ s'"
          by (simp add: a b f_def)
        then have "k = l" "json_dumps v @ s = json_dumps w @ s'"
          using json_text_prefix_free by blast+
        with IH show "a = b \<and> s = s'" by (simp add: a b)
      qed
    qed
    show "f z @ s \<noteq> [] \<and> hd (f z @ s) \<noteq> CHR ''}''" if "z \<in> set kvs \<union> set lvs" for z s
      by (cases z) (simp add: f_def json_text_def)
    show "py_join '','' (map f kvs) @ CHR ''}'' # r = py_join '','' (map f lvs) @ CHR ''}'' # r'"
      using JObj.prems(3) j' by (simp add: f_def)
  qed simp
  with j' show ?case by simp
qed simp_all

lemma dumps_inj: "textual j \<Longrightarrow> textual j' \<Longrightarrow> json_dumps j = json_dumps j' \<Longrightarrow> j = j'"
  using dumps_prefix_free [of j j' "[]" "[]"] by simp

lemma textual_sort_keys: "textual j \<Longrightarrow> textual (sort_keys j)"
  by (induction j rule: sort_keys.induct) (auto simp: list_all_iff split: prod.splits)

lemma canonical_json_inj:
  "textual j \<Longrightarrow> textual j' \<Longrightarrow> canonical_json j = canonical_json j' \<longleftrightarrow> sort_keys j = sort_keys j'"
  unfolding canonical_json_def using dumps_inj textual_sort_keys by metis

end
