(* ===== verification/Schemas.thy ===== *)
theory Schemas
  imports Errors Canonical
begin

text \<open>
  The request bodies of /v1 (emaild/api/schemas.py).  The declarations are read by pydantic, whose
  part is the parameter \<open>pydantic\<close>: how it trims a string and the texts of its own error kinds.
  The declared fields, bounds, aliases and validators are the program's.
\<close>

section \<open>Limits and requests\<close>

definition max_recipients :: nat where "max_recipients = 150"
definition max_message_bytes :: nat where "max_message_bytes = 52428800"

record send_request =
  rq_from :: string
  rq_to :: "string list"
  rq_subject :: "string option"
  rq_html :: "string option"
  rq_text :: "string option"
  rq_cc :: "string list option"
  rq_bcc :: "string list option"
  rq_reply_to :: "string option"
  rq_headers :: "(string \<times> string) list option"
  rq_tags :: "(string \<times> string) list option"

record suppression_request =
  sq_address :: string
  sq_reason :: "string option"

record pydantic =
  px_trim :: "string \<Rightarrow> string"
  px_text :: "string \<Rightarrow> string"

type_synonym 'a validated = "schema_error list + 'a"

section \<open>Field validation\<close>

definition field_error :: "pydantic \<Rightarrow> string list \<Rightarrow> string \<Rightarrow> schema_error list" where
  "field_error px loc kind = [\<lparr>se_loc = ''body'' # loc, se_msg = Some (px_text px kind)\<rparr>]"

definition value_error :: "string list \<Rightarrow> string \<Rightarrow> schema_error list" where
  "value_error loc msg = [\<lparr>se_loc = ''body'' # loc, se_msg = Some (''Value error, '' @ msg)\<rparr>]"

definition str_field ::
    "pydantic \<Rightarrow> string list \<Rightarrow> nat \<Rightarrow> nat option \<Rightarrow> json \<Rightarrow> string validated" where
  "str_field px loc min_length max_length j =
     (case j of
        JStr s \<Rightarrow>
          (let t = px_trim px s
           in if length t < min_length then Inl (field_error px loc ''string_too_short'')
              else if (case max_length of None \<Rightarrow> False | Some n \<Rightarrow> n < length t)
                then Inl (field_error px loc ''string_too_long'')
              else Inr t)
      | _ \<Rightarrow> Inl (field_error px loc ''string_type''))"

definition optional_field :: "(json \<Rightarrow> 'a validated) \<Rightarrow> json option \<Rightarrow> 'a option validated" where
  "optional_field f j = (case j of
       None \<Rightarrow> Inr None | Some JNull \<Rightarrow> Inr None | Some v \<Rightarrow> bind_result (f v) (\<lambda>x. Inr (Some x)))"

definition required_field ::
    "pydantic \<Rightarrow> string list \<Rightarrow> (json \<Rightarrow> 'a validated) \<Rightarrow> json option \<Rightarrow> 'a validated" where
  "required_field px loc f j = (case j of
       None \<Rightarrow> Inl (field_error px loc ''missing'') | Some v \<Rightarrow> f v)"

text \<open>\<open>_coerce_to_list\<close> runs before the declared type.\<close>

definition coerce_to_list :: "string \<Rightarrow> json \<Rightarrow> json validated" where
  "coerce_to_list field v = (case v of
       JNull \<Rightarrow> Inr v
     | JArr _ \<Rightarrow> Inr v
     | JStr s \<Rightarrow> Inr (JArr [JStr s])
     | _ \<Rightarrow> Inl (value_error [field] ''must be a string or a list of strings''))"

text \<open>
  \<open>list[str] | str\<close> on a coerced value: a list of strings, or the errors of both branches.
\<close>

fun string_items :: "json list \<Rightarrow> string list option" where
  "string_items [] = Some []"
| "string_items (JStr s # js) = map_option ((#) s) (string_items js)"
| "string_items (_ # js) = None"

definition bad_items :: "json list \<Rightarrow> nat list" where
  "bad_items js = filter (\<lambda>i. case js ! i of JStr _ \<Rightarrow> False | _ \<Rightarrow> True) [0..<length js]"

definition recipients_field :: "pydantic \<Rightarrow> string \<Rightarrow> json \<Rightarrow> string list validated" where
  "recipients_field px field v =
     bind_result (coerce_to_list field v) (\<lambda>w.
       case w of
         JArr js \<Rightarrow>
           (case string_items js of
              Some ss \<Rightarrow> Inr (map (px_trim px) ss)
            | None \<Rightarrow> Inl (concat (map (\<lambda>i. field_error px [field, ''list[str]'', str_of_nat i] ''string_type'')
                              (bad_items js)) @ field_error px [field, ''str''] ''string_type''))
       | _ \<Rightarrow> Inl (field_error px [field, ''list[str]''] ''list_type''
                     @ field_error px [field, ''str''] ''string_type''))"

text \<open>\<open>dict[str, str]\<close>: keys and values are trimmed too.\<close>

definition mapping_field :: "pydantic \<Rightarrow> string \<Rightarrow> json \<Rightarrow> (string \<times> string) list validated" where
  "mapping_field px field v = (case v of
       JObj kvs \<Rightarrow>
         (let bad = filter (\<lambda>(k, j). case j of JStr _ \<Rightarrow> False | _ \<Rightarrow> True) kvs
          in if bad \<noteq> []
             then Inl (concat (map (\<lambda>(k, j). field_error px [field, k] ''string_type'') bad))
             else Inr (fold (\<lambda>(k, j). dict_put (px_trim px k)
                              (px_trim px (case j of JStr s \<Rightarrow> s | _ \<Rightarrow> []))) kvs []))
     | _ \<Rightarrow> Inl (field_error px [field] ''dict_type''))"

definition errors_of :: "'a validated \<Rightarrow> schema_error list" where
  "errors_of v = (case v of Inl es \<Rightarrow> es | Inr _ \<Rightarrow> [])"

definition extra_errors :: "pydantic \<Rightarrow> string list \<Rightarrow> (string \<times> json) list \<Rightarrow> schema_error list" where
  "extra_errors px known body =
     concat (map (\<lambda>(k, _). field_error px [k] ''extra_forbidden'') (filter (\<lambda>(k, _). k \<notin> set known) body))"

section \<open>Whole bodies\<close>

definition request_fields :: "string list" where
  "request_fields = [''to'', ''subject'', ''html'', ''text'', ''cc'', ''bcc'', ''reply_to'', ''headers'', ''tags'']"

text \<open>The two model validators, in order.\<close>

definition require_a_body :: "send_request \<Rightarrow> send_request validated" where
  "require_a_body rq =
     (if \<not> (truthy_str (rq_html rq) \<or> truthy_str (rq_text rq))
      then Inl (value_error [] (''provide at least one of '' @ py_repr ''html'' @ '' or '' @ py_repr ''text'')) else Inr rq)"

definition require_a_recipient :: "send_request \<Rightarrow> send_request validated" where
  "require_a_recipient rq = (if rq_to rq = [] then Inl (value_error [] (py_repr ''to'' @ '' must contain at least one recipient''))
      else Inr rq)"


definition validate_request :: "pydantic \<Rightarrow> (string \<times> json) list \<Rightarrow> send_request validated" where
  "validate_request px body =
     (let from_key = (if dict_get body ''from'' \<noteq> None then ''from'' else ''from_'');
          from_v = required_field px [''from''] (str_field px [''from''] 3 None) (dict_get body from_key);
          to_v = required_field px [''to''] (recipients_field px ''to'') (dict_get body ''to'');
          subject_v = optional_field (str_field px [''subject''] 0 (Some 998)) (dict_get body ''subject'');
          html_v = optional_field (str_field px [''html''] 0 None) (dict_get body ''html'');
          text_v = optional_field (str_field px [''text''] 0 None) (dict_get body ''text'');
          cc_v = optional_field (recipients_field px ''cc'') (dict_get body ''cc'');
          bcc_v = optional_field (recipients_field px ''bcc'') (dict_get body ''bcc'');
          reply_v = optional_field (str_field px [''reply_to''] 0 None) (dict_get body ''reply_to'');
          headers_v = optional_field (mapping_field px ''headers'') (dict_get body ''headers'');
          tags_v = optional_field (mapping_field px ''tags'') (dict_get body ''tags'');
          errors = errors_of from_v @ errors_of to_v @ errors_of subject_v @ errors_of html_v
            @ errors_of text_v @ errors_of cc_v @ errors_of bcc_v @ errors_of reply_v
            @ errors_of headers_v @ errors_of tags_v
            @ extra_errors px (from_key # request_fields) body
      in if errors \<noteq> [] then Inl errors else
         bind_result from_v (\<lambda>f. bind_result to_v (\<lambda>t. bind_result subject_v (\<lambda>s.
         bind_result html_v (\<lambda>h. bind_result text_v (\<lambda>x. bind_result cc_v (\<lambda>c.
         bind_result bcc_v (\<lambda>b. bind_result reply_v (\<lambda>r. bind_result headers_v (\<lambda>hs.
         bind_result tags_v (\<lambda>tg.
           bind_result (require_a_body
             \<lparr>rq_from = f, rq_to = t, rq_subject = s, rq_html = h, rq_text = x, rq_cc = c,
              rq_bcc = b, rq_reply_to = r, rq_headers = hs, rq_tags = tg\<rparr>)
             require_a_recipient)))))))))))"

definition validate_suppression ::
    "pydantic \<Rightarrow> (string \<times> json) list \<Rightarrow> suppression_request validated" where
  "validate_suppression px body =
     (let address_v = required_field px [''address''] (str_field px [''address''] 3 None)
            (dict_get body ''address'');
          reason_v = optional_field (str_field px [''reason''] 0 (Some 500)) (dict_get body ''reason'');
          errors = errors_of address_v @ errors_of reason_v
            @ extra_errors px [''address'', ''reason''] body
      in if errors \<noteq> [] then Inl errors else
         bind_result address_v (\<lambda>a. bind_result reason_v (\<lambda>r.
           Inr \<lparr>sq_address = a, sq_reason = r\<rparr>)))"

section \<open>Sizes\<close>

definition or_list :: "'a list option \<Rightarrow> 'a list" where
  "or_list xs = (case xs of None \<Rightarrow> [] | Some ys \<Rightarrow> ys)"

definition all_recipients :: "send_request \<Rightarrow> string list" where
  "all_recipients rq = rq_to rq @ or_list (rq_cc rq) @ or_list (rq_bcc rq)"

definition utf8_length :: "string \<Rightarrow> nat" where
  "utf8_length s = sum_list (map (\<lambda>c. if ord c < 128 then 1 else 2) s)"

definition estimated_size_bytes :: "send_request \<Rightarrow> nat" where
  "estimated_size_bytes rq =
     sum_list (map (\<lambda>v. utf8_length (or_empty v)) [rq_subject rq, rq_html rq, rq_text rq])
     + sum_list (map (\<lambda>r. utf8_length r + 8) (all_recipients rq))
     + utf8_length (rq_from rq)
     + (case rq_headers rq of None \<Rightarrow> 0 | Some hs \<Rightarrow>
          sum_list (map (\<lambda>(k, v). utf8_length (k @ '': '' @ v @ [CHR 13, CHR 10])) hs))
     + 2048"

lemma utf8_length_append [simp]: "utf8_length (s @ t) = utf8_length s + utf8_length t"
  by (simp add: utf8_length_def)

lemma length_le_utf8: "length s \<le> utf8_length s"
  by (induction s) (simp_all add: utf8_length_def)

section \<open>The dumped model\<close>

text \<open>\<open>model_dump(by_alias=True, exclude_none=True)\<close>.\<close>

definition dumped :: "string \<Rightarrow> ('a \<Rightarrow> json) \<Rightarrow> 'a option \<Rightarrow> (string \<times> json) list" where
  "dumped k f v = (case v of None \<Rightarrow> [] | Some x \<Rightarrow> [(k, f x)])"

definition json_strings :: "string list \<Rightarrow> json" where
  "json_strings ss = JArr (map JStr ss)"

definition json_mapping :: "(string \<times> string) list \<Rightarrow> json" where
  "json_mapping kvs = JObj (map (\<lambda>(k, v). (k, JStr v)) kvs)"

definition request_payload :: "send_request \<Rightarrow> json" where
  "request_payload rq = JObj
     ([(''from'', JStr (rq_from rq)), (''to'', json_strings (rq_to rq))]
      @ dumped ''subject'' JStr (rq_subject rq)
      @ dumped ''html'' JStr (rq_html rq)
      @ dumped ''text'' JStr (rq_text rq)
      @ dumped ''cc'' json_strings (rq_cc rq)
      @ dumped ''bcc'' json_strings (rq_bcc rq)
      @ dumped ''reply_to'' JStr (rq_reply_to rq)
      @ dumped ''headers'' json_mapping (rq_headers rq)
      @ dumped ''tags'' json_mapping (rq_tags rq))"

section \<open>What a validated request satisfies\<close>

definition request_ok :: "send_request \<Rightarrow> bool" where
  "request_ok rq = (3 \<le> length (rq_from rq) \<and> rq_to rq \<noteq> [] \<and>
     (truthy_str (rq_html rq) \<or> truthy_str (rq_text rq)) \<and>
     (case rq_subject rq of None \<Rightarrow> True | Some s \<Rightarrow> length s \<le> 998))"

lemma str_fieldD:
  "str_field px loc lo hi j = Inr t \<Longrightarrow> lo \<le> length t \<and> (\<forall>n. hi = Some n \<longrightarrow> length t \<le> n)"
  by (auto simp: str_field_def Let_def split: json.splits if_splits option.splits)

lemma optional_fieldD:
  "optional_field f j = Inr (Some t) \<Longrightarrow> \<exists>v. f v = Inr t"
  by (auto simp: optional_field_def bind_result_eq_Inr split: option.splits json.splits)

lemma required_fieldD: "required_field px loc f j = Inr t \<Longrightarrow> \<exists>v. j = Some v \<and> f v = Inr t"
  by (auto simp: required_field_def split: option.splits)

lemma validate_request_ok:
  assumes "validate_request px body = Inr rq"
  shows "request_ok rq"
proof -
  obtain j s where "str_field px [''from''] 3 None j = Inr (rq_from rq)"
    and "optional_field (str_field px [''subject''] 0 (Some 998)) s = Inr (rq_subject rq)"
    and "rq_to rq \<noteq> []" and "truthy_str (rq_html rq) \<or> truthy_str (rq_text rq)"
    using assms
    unfolding validate_request_def Let_def
    by (auto simp: bind_result_eq_Inr require_a_body_def require_a_recipient_def
        dest!: required_fieldD split: sum.splits if_splits)
  then show ?thesis
    by (auto simp: request_ok_def dest!: str_fieldD optional_fieldD split: option.split)
qed

lemma textual_request_payload: "textual (request_payload rq)"
  by (auto simp: request_payload_def dumped_def json_strings_def json_mapping_def list_all_iff
      split: option.splits)

end
