(* ===== verification/Delivery.thy ===== *)
theory Delivery
  imports Errors Models Schemas
begin

text \<open>
  The delivery adapters (emaild/delivery/base.py, smtp.py, sink.py): the outbound message and the
  provider's answer, MIME assembly, the limits read from EHLO, the SMTP connection with its reuse
  budget, and the sink of test mode.  What aiosmtplib returns or raises is an input, the type
  \<open>smtp_outcome\<close>; the encoded-word form of a non-ASCII display name is the parameter \<open>encode_word\<close>.
  What the worker requires of an adapter is the locale \<open>delivery_adapter\<close>.
\<close>

section \<open>Messages and results\<close>

record outbound =
  ob_public_id :: string
  ob_envelope_from :: string
  ob_from_address :: string
  ob_from_name :: "string option"
  ob_to :: "string list"
  ob_cc :: "string list"
  ob_bcc :: "string list"
  ob_reply_to :: "string option"
  ob_subject :: "string option"
  ob_html :: "string option"
  ob_text :: "string option"
  ob_headers :: "(string \<times> string) list"

definition envelope_recipients :: "outbound \<Rightarrow> string list" where
  "envelope_recipients m = ob_to m @ ob_cc m @ ob_bcc m"

record delivery_result =
  dr_success :: bool
  dr_code :: "int option"
  dr_response :: "string option"
  dr_refused :: "(string \<times> int \<times> string) list"
  dr_accepted :: "string list"

definition partial :: "delivery_result \<Rightarrow> bool" where
  "partial r = (dr_refused r \<noteq> [] \<and> dr_accepted r \<noteq> [])"

definition failure_result :: "int option \<Rightarrow> string option \<Rightarrow> delivery_result" where
  "failure_result code response =
     \<lparr>dr_success = False, dr_code = code, dr_response = response, dr_refused = [], dr_accepted = []\<rparr>"

section \<open>MIME assembly\<close>

text \<open>Headers in order; the body is a list of parts, one alternative each.\<close>

record mime =
  mi_headers :: "(string \<times> string) list"
  mi_parts :: "(string \<times> string) list"

text \<open>
  \<open>mime[name] = value\<close>: the policy refuses a value of more than one line and a second header of a
  kind that may occur once.
\<close>

definition line_break :: "char \<Rightarrow> bool" where
  "line_break c = (ord c \<in> {10, 11, 12, 13, 28, 29, 30, 133})"

fun multi_line :: "string \<Rightarrow> bool" where
  "multi_line [] = False"
| "multi_line (c # s) =
     (if line_break c
      then (case s of [] \<Rightarrow> False
            | d # t \<Rightarrow> if ord c = 13 \<and> ord d = 10 then t \<noteq> [] else True)
      else multi_line s)"

definition unique_headers :: "string list" where
  "unique_headers = [''subject'', ''date'', ''orig-date'', ''sender'', ''to'', ''cc'', ''bcc'', ''from'',
     ''reply-to'', ''mime-version'', ''content-type'', ''content-disposition'',
     ''content-transfer-encoding'', ''message-id'']"

definition set_header ::
    "string \<Rightarrow> string \<Rightarrow> (string \<times> string) list \<Rightarrow> (string \<times> string) list result" where
  "set_header name value headers =
     (if py_lower name \<in> set unique_headers \<and> py_lower name \<in> set (map (\<lambda>(n, _). py_lower n) headers)
      then Inl (Value_Error (''There may be at most 1 '' @ name @ '' headers in a message''))
      else if multi_line value
      then Inl (Value_Error ''Header values may not contain linefeed or carriage return characters'')
      else Inr (headers @ [(name, value)]))"

definition optional_header ::
    "string \<Rightarrow> string option \<Rightarrow> (string \<times> string) list \<Rightarrow> (string \<times> string) list result" where
  "optional_header name value headers =
     (if truthy_str value then set_header name (or_empty value) headers else Inr headers)"

definition ascii :: "string \<Rightarrow> bool" where
  "ascii s = (\<forall>c \<in> set s. ord c < 128)"

text \<open>\<open>email.utils.formataddr\<close>: a name with specials is quoted, quotes and backslashes escaped.\<close>

definition name_specials :: string where
  "name_specials = [CHR ''['', CHR '']'', CHR 92, CHR ''('', CHR '')'', CHR ''<'', CHR ''>'', CHR ''@'',
     CHR '','', CHR '':'', CHR '';'', CHR 34, CHR ''.'']"

definition escape_quotes :: "string \<Rightarrow> string" where
  "escape_quotes s = concat (map (\<lambda>c. if c = CHR 92 \<or> c = CHR 34 then [CHR 92, c] else [c]) s)"

definition formataddr :: "(string \<Rightarrow> string) \<Rightarrow> string \<Rightarrow> string \<Rightarrow> string result" where
  "formataddr encode_word name address =
     (if \<not> ascii address then Inl (Value_Error ''ordinal not in range(128)'')
      else if name = [] then Inr address
      else if \<not> ascii name then Inr (encode_word name @ '' <'' @ address @ ''>'')
      else (let q = (if \<exists>c \<in> set name. c \<in> set name_specials then [CHR 34] else [])
            in Inr (q @ escape_quotes name @ q @ '' <'' @ address @ ''>'')))"

definition protected_headers :: "string list" where
  "protected_headers = [''from'', ''to'', ''cc'', ''bcc'', ''message-id'', ''date'', ''subject'', ''reply-to'']"

fun custom_headers ::
    "(string \<times> string) list \<Rightarrow> (string \<times> string) list \<Rightarrow> (string \<times> string) list result" where
  "custom_headers [] headers = Inr headers"
| "custom_headers ((key, value) # rest) headers =
     (if py_lower key \<in> set protected_headers then custom_headers rest headers
      else bind_result (set_header key value headers) (custom_headers rest))"

text \<open>\<open>set_content\<close> drops the content headers present.\<close>

definition clear_content :: "(string \<times> string) list \<Rightarrow> (string \<times> string) list" where
  "clear_content = filter (\<lambda>(n, _). \<not> starts_with ''content-'' (py_lower n))"

section \<open>The plaintext fallback\<close>

text \<open>
  \<open>re.sub\<close>: a pattern is a matcher that gives the replacement and the number of characters it
  consumes (at least one); the scan goes on after the match.
\<close>

fun regex_sub :: "(string \<Rightarrow> (string \<times> nat) option) \<Rightarrow> string \<Rightarrow> string" where
  "regex_sub m [] = []"
| "regex_sub m (c # s) =
     (case m (c # s) of
        None \<Rightarrow> c # regex_sub m s
      | Some (replacement, n) \<Rightarrow> replacement @ regex_sub m (drop (n - 1) s))"

definition starts_ci :: "string \<Rightarrow> string \<Rightarrow> bool" where
  "starts_ci p s = (py_lower (take (length p) s) = p)"

fun find_ci :: "string \<Rightarrow> string \<Rightarrow> nat option" where
  "find_ci p [] = (if p = [] then Some 0 else None)"
| "find_ci p (c # s) = (if starts_ci p (c # s) then Some 0 else map_option Suc (find_ci p s))"

text \<open>\<open>(?is)<(script|style).*?</\1>\<close>\<close>

definition block_match :: "string \<Rightarrow> string \<Rightarrow> (string \<times> nat) option" where
  "block_match tag s =
     (if starts_ci (''<'' @ tag) s
      then map_option (\<lambda>k. ([], 1 + length tag + k + 3 + length tag))
             (find_ci (''</'' @ tag @ ''>'') (drop (1 + length tag) s))
      else None)"

definition script_or_style :: "string \<Rightarrow> (string \<times> nat) option" where
  "script_or_style s = (case block_match ''script'' s of
       None \<Rightarrow> block_match ''style'' s | Some r \<Rightarrow> Some r)"

text \<open>\<open>(?i)<br\s*/?>\<close>\<close>

definition br_match :: "string \<Rightarrow> (string \<times> nat) option" where
  "br_match s =
     (if starts_ci ''<br'' s
      then (let blanks = length (takeWhile py_space (drop 3 s));
                slash = (if starts_with ''/'' (drop (3 + blanks) s) then 1 else 0)
            in if starts_with ''>'' (drop (3 + blanks + slash) s)
               then Some ([CHR 10], 3 + blanks + slash + 1) else None)
      else None)"

text \<open>\<open>(?i)</(p|div|h[1-6]|li|tr)>\<close>\<close>

definition block_ends :: "string list" where
  "block_ends = [''</p>'', ''</div>'', ''</h1>'', ''</h2>'', ''</h3>'', ''</h4>'', ''</h5>'', ''</h6>'',
     ''</li>'', ''</tr>'']"

definition block_end_match :: "string \<Rightarrow> (string \<times> nat) option" where
  "block_end_match s = map_option (\<lambda>p. ([CHR 10], length p)) (find (\<lambda>p. starts_ci p s) block_ends)"

text \<open>\<open><[^>]+>\<close>\<close>

definition tag_match :: "string \<Rightarrow> (string \<times> nat) option" where
  "tag_match s = (case s of
       [] \<Rightarrow> None
     | c # t \<Rightarrow>
         (let n = length (takeWhile (\<lambda>x. x \<noteq> CHR ''>'') t)
          in if c = CHR ''<'' \<and> 0 < n \<and> n < length t then Some ([], n + 2) else None))"

definition literal_match :: "string \<Rightarrow> string \<Rightarrow> string \<Rightarrow> (string \<times> nat) option" where
  "literal_match p r s = (if starts_with p s then Some (r, length p) else None)"

definition newlines_match :: "string \<Rightarrow> (string \<times> nat) option" where
  "newlines_match s =
     (let n = length (takeWhile (\<lambda>c. c = CHR 10) s)
      in if 3 \<le> n then Some ([CHR 10, CHR 10], n) else None)"

definition html_to_text :: "string \<Rightarrow> string" where
  "html_to_text html =
     (let t = regex_sub script_or_style html;
          t = regex_sub br_match t;
          t = regex_sub block_end_match t;
          t = regex_sub tag_match t;
          t = regex_sub (literal_match ''&nbsp;'' '' '') t;
          t = regex_sub (literal_match ''&amp;'' ''&'') t;
          t = regex_sub (literal_match ''&lt;'' ''<'') t;
          t = regex_sub (literal_match ''&gt;'' ''>'') t;
          t = regex_sub (literal_match ''&quot;'' [CHR 34]) t;
          t = regex_sub (literal_match ''&#39;'' [CHR 39]) t
      in py_strip (regex_sub newlines_match t))"

section \<open>\<open>build_mime\<close>\<close>

definition mime_parts :: "outbound \<Rightarrow> (string \<times> string) list" where
  "mime_parts m =
     (if truthy_str (ob_text m) \<and> truthy_str (ob_html m)
        then [(''plain'', or_empty (ob_text m)), (''html'', or_empty (ob_html m))]
      else if truthy_str (ob_html m)
        then [(''plain'', html_to_text (or_empty (ob_html m))), (''html'', or_empty (ob_html m))]
      else [(''plain'', or_empty (ob_text m))])"

definition build_mime ::
    "(string \<Rightarrow> string) \<Rightarrow> string \<Rightarrow> outbound \<Rightarrow> string \<Rightarrow> mime result" where
  "build_mime encode_word date m message_id =
     bind_result
       (if truthy_str (ob_from_name m)
        then formataddr encode_word (or_empty (ob_from_name m)) (ob_from_address m)
        else Inr (ob_from_address m)) (\<lambda>from_value.
     bind_result (set_header ''From'' from_value []) (\<lambda>h.
     bind_result (set_header ''To'' (py_join '', '' (ob_to m)) h) (\<lambda>h.
     bind_result (if ob_cc m = [] then Inr h else set_header ''Cc'' (py_join '', '' (ob_cc m)) h) (\<lambda>h.
     bind_result (optional_header ''Reply-To'' (ob_reply_to m) h) (\<lambda>h.
     bind_result (optional_header ''Subject'' (ob_subject m) h) (\<lambda>h.
     bind_result (set_header ''Message-ID'' message_id h) (\<lambda>h.
     bind_result (set_header ''Date'' date h) (\<lambda>h.
     bind_result (custom_headers (ob_headers m) h) (\<lambda>h.
       Inr \<lparr>mi_headers = clear_content h, mi_parts = mime_parts m\<rparr>)))))))))"

text \<open>The Message-ID an adapter writes.\<close>

definition wire_message_id :: "outbound \<Rightarrow> string result" where
  "wire_message_id m = (case after_first (CHR ''@'') (ob_from_address m) of
       None \<Rightarrow> Inl Index_Error
     | Some dmn \<Rightarrow> Inr (''<'' @ ob_public_id m @ ''@'' @ dmn @ ''>''))"

section \<open>Server limits\<close>

record server_limits =
  sl_messages :: nat
  sl_recipients :: nat
  sl_bytes :: nat

definition digits_value :: "string \<Rightarrow> nat" where
  "digits_value ds = foldl (\<lambda>n c. 10 * n + (ord c - 48)) 0 ds"

definition leading_digits :: "string \<Rightarrow> string" where
  "leading_digits s = takeWhile ascii_digit s"

text \<open>\<open>MAILMAX=(\d+)|RCPTMAX=(\d+)\<close>: the last match of each wins.\<close>

fun limits_scan :: "nat option \<Rightarrow> nat option \<Rightarrow> string \<Rightarrow> nat option \<times> nat option" where
  "limits_scan mailmax rcptmax [] = (mailmax, rcptmax)"
| "limits_scan mailmax rcptmax (c # s) =
     (let ds = leading_digits (drop 7 s)
      in if ds \<noteq> [] \<and> starts_ci ''mailmax='' (c # s)
           then limits_scan (Some (digits_value ds)) rcptmax (drop (7 + length ds) s)
         else if ds \<noteq> [] \<and> starts_ci ''rcptmax='' (c # s)
           then limits_scan mailmax (Some (digits_value ds)) (drop (7 + length ds) s)
         else limits_scan mailmax rcptmax s)"

text \<open>\<open>^SIZE\s+(\d+)\<close> at the start of a line.\<close>

fun size_scan :: "bool \<Rightarrow> string \<Rightarrow> nat option" where
  "size_scan line_start [] = None"
| "size_scan line_start (c # s) =
     (let blanks = takeWhile py_space (drop 3 s);
          ds = leading_digits (dropWhile py_space (drop 3 s))
      in if line_start \<and> starts_ci ''size'' (c # s) \<and> blanks \<noteq> [] \<and> ds \<noteq> []
         then Some (digits_value ds) else size_scan (c = CHR 10) s)"

definition or_nat :: "nat option \<Rightarrow> nat \<Rightarrow> nat" where
  "or_nat n fallback = (case n of None \<Rightarrow> fallback | Some k \<Rightarrow> if k = 0 then fallback else k)"

definition from_ehlo :: "string \<Rightarrow> server_limits \<Rightarrow> server_limits" where
  "from_ehlo banner fallback =
     (case limits_scan None None banner of
        (mailmax, rcptmax) \<Rightarrow>
          \<lparr>sl_messages = or_nat mailmax (sl_messages fallback),
           sl_recipients = or_nat rcptmax (sl_recipients fallback),
           sl_bytes = (case size_scan True banner of None \<Rightarrow> sl_bytes fallback | Some n \<Rightarrow> n)\<rparr>)"

section \<open>The SMTP adapter\<close>

datatype smtp_failure =
    Recipients_Refused "(string \<times> int \<times> string) list"
  | Response_Error int string
  | Transport_Error string

datatype connect_outcome =
    Connected string
  | Ehlo_Failed smtp_failure
  | Login_Failed string smtp_failure

datatype send_outcome =
    Sent "(string \<times> int \<times> string) list" string
  | Send_Failed smtp_failure

text \<open>What one \<open>send\<close> meets on the wire.\<close>

record wire =
  wi_is_connected :: bool
  wi_connect :: connect_outcome
  wi_send :: send_outcome
  wi_date :: string

record smtp_adapter =
  sm_username :: string
  sm_password :: string
  sm_fallback :: server_limits
  sm_client :: bool
  sm_sent :: nat
  sm_limits :: "server_limits option"

definition new_adapter :: "string \<Rightarrow> string \<Rightarrow> server_limits \<Rightarrow> smtp_adapter" where
  "new_adapter username password fallback =
     \<lparr>sm_username = username, sm_password = password, sm_fallback = fallback, sm_client = False,
      sm_sent = 0, sm_limits = None\<rparr>"

definition limits :: "smtp_adapter \<Rightarrow> server_limits" where
  "limits st = (case sm_limits st of None \<Rightarrow> sm_fallback st | Some l \<Rightarrow> l)"

definition close_smtp :: "smtp_adapter \<Rightarrow> smtp_adapter" where
  "close_smtp st = (if sm_client st then st\<lparr>sm_client := False, sm_sent := 0\<rparr> else st)"

text \<open>\<open>_connect\<close>: the limits are read before the login, which may still fail.\<close>

definition connect :: "connect_outcome \<Rightarrow> smtp_adapter \<Rightarrow> smtp_failure option \<times> smtp_adapter" where
  "connect outcome st = (case outcome of
       Ehlo_Failed f \<Rightarrow> (Some f, st)
     | Login_Failed banner f \<Rightarrow> (Some f, st\<lparr>sm_limits := Some (from_ehlo banner (sm_fallback st))\<rparr>)
     | Connected banner \<Rightarrow>
         (None, st\<lparr>sm_limits := Some (from_ehlo banner (sm_fallback st)), sm_sent := 0,
                   sm_client := True\<rparr>))"

definition ensure_connection :: "wire \<Rightarrow> smtp_adapter \<Rightarrow> smtp_failure option \<times> smtp_adapter" where
  "ensure_connection w st =
     (let over_budget = sl_messages (limits st) \<le> sm_sent st;
          st' = (if sm_client st \<and> (over_budget \<or> \<not> wi_is_connected w) then close_smtp st else st)
      in if sm_client st' then (None, st') else connect (wi_connect w) st')"

text \<open>The three \<open>except\<close> clauses.\<close>

definition refused_dict :: "(string \<times> int \<times> string) list \<Rightarrow> (string \<times> int \<times> string) list" where
  "refused_dict rs = fold (\<lambda>(a, v). dict_put a v) rs []"

definition failed_result :: "smtp_failure \<Rightarrow> delivery_result" where
  "failed_result f = (case f of
       Recipients_Refused rs \<Rightarrow>
         (let refused = refused_dict rs;
              first = (case refused of [] \<Rightarrow> (550, ''recipients refused'') | (_, v) # _ \<Rightarrow> v)
          in \<lparr>dr_success = False, dr_code = Some (fst first), dr_response = Some (snd first),
              dr_refused = refused, dr_accepted = []\<rparr>)
     | Response_Error code text \<Rightarrow> failure_result (Some code) (Some text)
     | Transport_Error text \<Rightarrow> failure_result None (Some text))"

definition smtp_send ::
    "(string \<Rightarrow> string) \<Rightarrow> wire \<Rightarrow> outbound \<Rightarrow> smtp_adapter \<Rightarrow> (delivery_result \<times> smtp_adapter) result" where
  "smtp_send encode_word w m st =
     bind_result (wire_message_id m) (\<lambda>message_id.
     bind_result (build_mime encode_word (wi_date w) m message_id) (\<lambda>_.
       Inr (case ensure_connection w st of
         (Some f, st') \<Rightarrow> (failed_result f, close_smtp st')
       | (None, st') \<Rightarrow>
           (case wi_send w of
              Send_Failed f \<Rightarrow> (failed_result f, close_smtp st')
            | Sent errors response \<Rightarrow>
                (let accepted = filter (\<lambda>r. r \<notin> fst ` set errors) (envelope_recipients m)
                 in (\<lparr>dr_success = (accepted \<noteq> []),
                      dr_code = (if accepted \<noteq> [] then Some 250 else None),
                      dr_response = (if response \<noteq> [] then Some response
                        else if errors \<noteq> [] then Some ''all recipients refused'' else None),
                      dr_refused = errors, dr_accepted = accepted\<rparr>,
                     st'\<lparr>sm_sent := Suc (sm_sent st')\<rparr>))))))"

section \<open>The sink\<close>

record sink_entry =
  se_public_id :: string
  se_host :: string
  se_envelope_from :: string
  se_recipients :: "string list"
  se_subject :: "string option"
  se_message_id :: string

record sink =
  sk_sent :: "sink_entry list"
  sk_fail_with :: "(int option \<times> string) option"
  sk_fail_recipients :: "(string \<times> int \<times> string) list"

text \<open>The recorded size of the serialised message is left out.\<close>

definition sink_send ::
    "(string \<Rightarrow> string) \<Rightarrow> string \<times> string \<Rightarrow> outbound \<Rightarrow> sink \<Rightarrow> (delivery_result \<times> sink) result" where
  "sink_send encode_word env m st = (case env of (host, date) \<Rightarrow>
     bind_result (wire_message_id m) (\<lambda>message_id.
     bind_result (build_mime encode_word date m message_id) (\<lambda>_.
       let st' = st\<lparr>sk_sent := sk_sent st @
             [\<lparr>se_public_id = ob_public_id m, se_host = host, se_envelope_from = ob_envelope_from m,
               se_recipients = envelope_recipients m, se_subject = ob_subject m,
               se_message_id = message_id\<rparr>]\<rparr>
       in case sk_fail_with st of
            Some (code, text) \<Rightarrow> Inr (failure_result code (Some text), st')
          | None \<Rightarrow>
              (let refused = fold (\<lambda>a d. case dict_get (sk_fail_recipients st) a of
                                     None \<Rightarrow> d | Some v \<Rightarrow> dict_put a v d) (envelope_recipients m) [];
                   accepted = filter (\<lambda>r. r \<notin> fst ` set refused) (envelope_recipients m)
               in Inr (\<lparr>dr_success = (accepted \<noteq> []),
                        dr_code = Some (if accepted \<noteq> [] then 250 else 550),
                        dr_response = Some ''sink: accepted (nothing was actually sent)'',
                        dr_refused = refused, dr_accepted = accepted\<rparr>, st')))))"

section \<open>What the worker requires of an adapter\<close>

text \<open>
  A send that answers at all accounts for every recipient of the envelope: it succeeds when it
  accepted one, and whoever was not accepted is named among the refused.
\<close>

locale delivery_adapter =
  fixes send :: "'env \<Rightarrow> outbound \<Rightarrow> 'state \<Rightarrow> (delivery_result \<times> 'state) result"
  assumes success_iff: "send e m st = Inr (r, st') \<Longrightarrow> dr_success r \<longleftrightarrow> dr_accepted r \<noteq> []"
    and accepted_are: "send e m st = Inr (r, st') \<Longrightarrow> dr_success r \<Longrightarrow>
      dr_accepted r = filter (\<lambda>a. a \<notin> fst ` set (dr_refused r)) (envelope_recipients m)"
    and success_code: "send e m st = Inr (r, st') \<Longrightarrow> dr_success r \<Longrightarrow> dr_code r = Some 250"
begin

lemma accounted:
  assumes "send e m st = Inr (r, st')" "dr_success r" "a \<in> set (envelope_recipients m)"
  shows "a \<in> set (dr_accepted r) \<longleftrightarrow> a \<notin> fst ` set (dr_refused r)"
  using accepted_are [OF assms(1,2)] assms(3) by simp

lemma nothing_accepted:
  "send e m st = Inr (r, st') \<Longrightarrow> \<not> dr_success r \<Longrightarrow> dr_accepted r = []"
  using success_iff by blast

lemma partial_iff:
  "send e m st = Inr (r, st') \<Longrightarrow> partial r \<longleftrightarrow> dr_success r \<and> dr_refused r \<noteq> []"
  using success_iff by (auto simp: partial_def)

lemma unrefused_success:
  assumes "send e m st = Inr (r, st')" "dr_success r" "\<not> partial r"
  shows "dr_accepted r = envelope_recipients m"
  using accepted_are [OF assms(1,2)] partial_iff [OF assms(1)] assms(2,3) by simp

end

lemma failed_result_sel [simp]:
  "\<not> dr_success (failed_result f)" "dr_accepted (failed_result f) = []"
  by (simp_all add: failed_result_def failure_result_def Let_def split: smtp_failure.split)

lemma smtp_sendE:
  assumes "smtp_send encode_word w m st = Inr (r, st')"
  obtains
    (failed) f st1 where "r = failed_result f" "st' = close_smtp st1"
      "ensure_connection w st = (Some f, st1) \<or>
       ensure_connection w st = (None, st1) \<and> wi_send w = Send_Failed f"
  | (sent) errors response st1 where "wi_send w = Sent errors response"
      "ensure_connection w st = (None, st1)" "st' = st1\<lparr>sm_sent := Suc (sm_sent st1)\<rparr>"
      "dr_refused r = errors"
      "dr_accepted r = filter (\<lambda>a. a \<notin> fst ` set errors) (envelope_recipients m)"
      "dr_success r \<longleftrightarrow> dr_accepted r \<noteq> []"
      "dr_code r = (if dr_success r then Some 250 else None)"
proof -
  obtain o1 st1 where e: "ensure_connection w st = (o1, st1)" by fastforce
  show thesis
  proof (cases o1)
    case (Some f)
    with assms e show thesis
      by (intro failed [of f st1]) (auto simp: smtp_send_def bind_result_eq_Inr)
  next
    case None
    show thesis
    proof (cases "wi_send w")
      case (Send_Failed f)
      with assms e None show thesis
        by (intro failed [of f st1]) (auto simp: smtp_send_def bind_result_eq_Inr)
    next
      case (Sent errors response)
      with assms e None show thesis
        by (intro sent [of errors response st1]) (auto simp: smtp_send_def bind_result_eq_Inr Let_def)
    qed
  qed
qed

interpretation smtp: delivery_adapter "smtp_send encode_word"
  for encode_word
proof
  fix e m st r st'
  assume run: "smtp_send encode_word e m st = Inr (r, st')"
  show "dr_success r \<longleftrightarrow> dr_accepted r \<noteq> []"
    using run by (cases rule: smtp_sendE) auto
  show "dr_accepted r = filter (\<lambda>a. a \<notin> fst ` set (dr_refused r)) (envelope_recipients m)"
    if "dr_success r" using run that by (cases rule: smtp_sendE) auto
  show "dr_code r = Some 250" if "dr_success r"
    using run that by (cases rule: smtp_sendE) auto
qed

lemma sink_sendE:
  assumes "sink_send encode_word env m st = Inr (r, st')"
  obtains
    (injected) code t where "sk_fail_with st = Some (code, t)" "r = failure_result code (Some t)"
  | (recorded) "sk_fail_with st = None"
      "dr_accepted r = filter (\<lambda>a. a \<notin> fst ` set (dr_refused r)) (envelope_recipients m)"
      "dr_success r \<longleftrightarrow> dr_accepted r \<noteq> []"
      "dr_code r = Some (if dr_success r then 250 else 550)"
proof (cases "sk_fail_with st")
  case None
  with assms show thesis
    by (intro recorded) (auto simp: sink_send_def bind_result_eq_Inr Let_def split: prod.splits)
next
  case (Some ct)
  obtain code t where "ct = (code, t)" by (cases ct)
  with assms Some show thesis
    by (intro injected [of code t])
       (auto simp: sink_send_def bind_result_eq_Inr Let_def split: prod.splits)
qed

interpretation sink: delivery_adapter "sink_send encode_word"
  for encode_word
proof
  fix e m st r st'
  assume run: "sink_send encode_word e m st = Inr (r, st')"
  show "dr_success r \<longleftrightarrow> dr_accepted r \<noteq> []"
    using run by (cases rule: sink_sendE) (auto simp: failure_result_def)
  show "dr_accepted r = filter (\<lambda>a. a \<notin> fst ` set (dr_refused r)) (envelope_recipients m)"
    if "dr_success r" using run that by (cases rule: sink_sendE) (auto simp: failure_result_def)
  show "dr_code r = Some 250" if "dr_success r"
    using run that by (cases rule: sink_sendE) (auto simp: failure_result_def)
qed

section \<open>The connection budget\<close>

definition within_budget :: "smtp_adapter \<Rightarrow> bool" where
  "within_budget st = (sm_client st \<longrightarrow> sm_sent st \<le> sl_messages (limits st))"

definition limits_positive :: "smtp_adapter \<Rightarrow> bool" where
  "limits_positive st = (0 < sl_messages (sm_fallback st) \<and> 0 < sl_messages (limits st))"

lemma from_ehlo_positive: "0 < sl_messages fallback \<Longrightarrow> 0 < sl_messages (from_ehlo banner fallback)"
  by (simp add: from_ehlo_def or_nat_def split: prod.split option.split)

lemma close_smtp_sel [simp]:
  "sm_fallback (close_smtp st) = sm_fallback st" "sm_limits (close_smtp st) = sm_limits st"
  "limits (close_smtp st) = limits st" "\<not> sm_client (close_smtp st)"
  by (simp_all add: close_smtp_def limits_def split: option.split)

lemma connect_positive:
  "limits_positive st \<Longrightarrow> limits_positive (snd (connect outcome st))"
  using from_ehlo_positive [of "sm_fallback st"]
  by (auto simp: connect_def limits_positive_def limits_def split: connect_outcome.split option.splits)

lemma ensure_connection_props:
  assumes "ensure_connection w st = (f, st')" "limits_positive st"
  shows "limits_positive st'" and "f = None \<Longrightarrow> sm_client st' \<and> sm_sent st' < sl_messages (limits st')"
proof -
  define st1 where "st1 = (if sm_client st \<and> (sl_messages (limits st) \<le> sm_sent st \<or> \<not> wi_is_connected w)
     then close_smtp st else st)"
  have run: "(if sm_client st1 then (None, st1) else connect (wi_connect w) st1) = (f, st')"
    using assms(1) unfolding ensure_connection_def Let_def st1_def .
  have pos: "limits_positive st1"
    using assms(2) by (simp add: st1_def limits_positive_def)
  then show "limits_positive st'"
    using run connect_positive [of st1 "wi_connect w"] by (auto split: if_splits)
  show "sm_client st' \<and> sm_sent st' < sl_messages (limits st')" if "f = None"
  proof (cases "sm_client st1")
    case True
    then have "st1 = st" "\<not> sl_messages (limits st) \<le> sm_sent st"
      by (auto simp: st1_def split: if_splits)
    with run True show ?thesis by simp
  next
    case False
    with run that have c: "connect (wi_connect w) st1 = (None, st')" by simp
    then obtain banner where "st' = st1\<lparr>sm_limits := Some (from_ehlo banner (sm_fallback st1)),
        sm_sent := 0, sm_client := True\<rparr>"
      by (auto simp: connect_def split: connect_outcome.splits)
    with pos from_ehlo_positive [of "sm_fallback st1" banner] show ?thesis
      by (simp add: limits_def limits_positive_def)
  qed
qed

section \<open>Properties\<close>


definition ex_outbound :: outbound where
  "ex_outbound = \<lparr>ob_public_id = ''email_1'', ob_envelope_from = ''no@a.io'',
     ob_from_address = ''no@a.io'', ob_from_name = None, ob_to = [''u@b.io''], ob_cc = [],
     ob_bcc = [''v@b.io''], ob_reply_to = None, ob_subject = Some ''hi'', ob_html = None,
     ob_text = Some ''t'', ob_headers = []\<rparr>"

definition ex_wire :: wire where
  "ex_wire = \<lparr>wi_is_connected = True, wi_connect = Connected ''LIMITS MAILMAX=2 RCPTMAX=150'',
     wi_send = Sent [] ''ok'', wi_date = ''now''\<rparr>"

lemma ex_mime:
  "build_mime (\<lambda>s. s) ''now'' ex_outbound ''<email_1@a.io>'' =
     Inr \<lparr>mi_headers = [(''From'', ''no@a.io''), (''To'', ''u@b.io''), (''Subject'', ''hi''),
            (''Message-ID'', ''<email_1@a.io>''), (''Date'', ''now'')], mi_parts = [(''plain'', ''t'')]\<rparr>"
proof -
  have "set_header ''From'' ''no@a.io'' [] = Inr [(''From'', ''no@a.io'')]"
    "set_header ''To'' ''u@b.io'' [(''From'', ''no@a.io'')] = Inr [(''From'', ''no@a.io''), (''To'', ''u@b.io'')]"
    "set_header ''Subject'' ''hi'' [(''From'', ''no@a.io''), (''To'', ''u@b.io'')]
      = Inr [(''From'', ''no@a.io''), (''To'', ''u@b.io''), (''Subject'', ''hi'')]"
    "set_header ''Message-ID'' ''<email_1@a.io>'' [(''From'', ''no@a.io''), (''To'', ''u@b.io''), (''Subject'', ''hi'')]
      = Inr [(''From'', ''no@a.io''), (''To'', ''u@b.io''), (''Subject'', ''hi''), (''Message-ID'', ''<email_1@a.io>'')]"
    "set_header ''Date'' ''now'' [(''From'', ''no@a.io''), (''To'', ''u@b.io''), (''Subject'', ''hi''), (''Message-ID'', ''<email_1@a.io>'')]
      = Inr [(''From'', ''no@a.io''), (''To'', ''u@b.io''), (''Subject'', ''hi''), (''Message-ID'', ''<email_1@a.io>''), (''Date'', ''now'')]"
    "clear_content [(''From'', ''no@a.io''), (''To'', ''u@b.io''), (''Subject'', ''hi''), (''Message-ID'', ''<email_1@a.io>''), (''Date'', ''now'')]
      = [(''From'', ''no@a.io''), (''To'', ''u@b.io''), (''Subject'', ''hi''), (''Message-ID'', ''<email_1@a.io>''), (''Date'', ''now'')]"
    "mime_parts ex_outbound = [(''plain'', ''t'')]" by code_simp+
  then show ?thesis
    by (simp add: build_mime_def optional_header_def truthy_str_def or_empty_def ex_outbound_def)
qed


lemma set_header_Inr:
  "set_header n v h = Inr h' \<longleftrightarrow>
     h' = h @ [(n, v)] \<and> \<not> multi_line v \<and>
     \<not> (py_lower n \<in> set unique_headers \<and> py_lower n \<in> set (map (\<lambda>(n, _). py_lower n) h))"
  by (auto simp: set_header_def)

lemma custom_headers_Inr:
  "custom_headers cs h = Inr h' \<Longrightarrow>
     \<exists>extra. h' = h @ extra \<and> (\<forall>(n, v) \<in> set extra. py_lower n \<notin> set protected_headers)"
proof (induction cs h rule: custom_headers.induct)
  case (1 h)
  then show ?case by simp
next
  case (2 key v rest h)
  show ?case
  proof (cases "py_lower key \<in> set protected_headers")
    case True
    with 2 show ?thesis by simp
  next
    case False
    with 2(3) obtain h1 where h1: "set_header key v h = Inr h1" "custom_headers rest h1 = Inr h'"
      by (auto simp: bind_result_eq_Inr)
    with 2(2) False obtain extra where "h' = h1 @ extra"
      "\<forall>(n, v) \<in> set extra. py_lower n \<notin> set protected_headers" by blast
    with h1 False show ?thesis by (auto simp: set_header_Inr)
  qed
qed

lemma optional_header_Inr:
  "optional_header n v h = Inr h' \<Longrightarrow> h' = h \<or> (\<exists>x. h' = h @ [(n, x)])"
  by (auto simp: optional_header_def set_header_Inr split: if_splits)

lemma build_mime_headers:
  assumes "build_mime encode_word date m message_id = Inr mi"
  obtains from_value cc rt sj extra where
    "mi_headers mi = clear_content ([(''From'', from_value), (''To'', py_join '', '' (ob_to m))] @ cc @ rt @ sj
       @ [(''Message-ID'', message_id), (''Date'', date)] @ extra)"
    "cc = [] \<or> (\<exists>x. cc = [(''Cc'', x)])" "rt = [] \<or> (\<exists>x. rt = [(''Reply-To'', x)])"
    "sj = [] \<or> (\<exists>x. sj = [(''Subject'', x)])"
    "\<forall>(n, v) \<in> set extra. py_lower n \<notin> set protected_headers"
proof -
  from assms obtain fv h1 h2 h3 h4 h5 h6 h7 h8 where steps:
    "set_header ''From'' fv [] = Inr h1" "set_header ''To'' (py_join '', '' (ob_to m)) h1 = Inr h2"
    "(if ob_cc m = [] then Inr h2 else set_header ''Cc'' (py_join '', '' (ob_cc m)) h2) = Inr h3"
    "optional_header ''Reply-To'' (ob_reply_to m) h3 = Inr h4"
    "optional_header ''Subject'' (ob_subject m) h4 = Inr h5"
    "set_header ''Message-ID'' message_id h5 = Inr h6" "set_header ''Date'' date h6 = Inr h7"
    "custom_headers (ob_headers m) h7 = Inr h8" "mi_headers mi = clear_content h8"
    unfolding build_mime_def bind_result_eq_Inr by fastforce
  from custom_headers_Inr [OF steps(8)] obtain extra where extra: "h8 = h7 @ extra"
    "\<forall>(n, v) \<in> set extra. py_lower n \<notin> set protected_headers" by blast
  have h: "h1 = [(''From'', fv)]" "h2 = h1 @ [(''To'', py_join '', '' (ob_to m))]"
    "h6 = h5 @ [(''Message-ID'', message_id)]" "h7 = h6 @ [(''Date'', date)]"
    using steps(1,2,6,7) by (simp_all add: set_header_Inr)
  obtain cc where cc: "h3 = h2 @ cc" "cc = [] \<or> (\<exists>x. cc = [(''Cc'', x)])"
    using steps(3) by (auto simp: set_header_Inr split: if_splits)
  obtain rt where rt: "h4 = h3 @ rt" "rt = [] \<or> (\<exists>x. rt = [(''Reply-To'', x)])"
    using optional_header_Inr [OF steps(4)] by auto
  obtain sj where sj: "h5 = h4 @ sj" "sj = [] \<or> (\<exists>x. sj = [(''Subject'', x)])"
    using optional_header_Inr [OF steps(5)] by auto
  show thesis
    by (rule that [of fv cc rt sj extra]) (use steps(9) h cc rt sj extra in simp_all)
qed

lemma clear_content_subset: "x \<in> set (clear_content h) \<Longrightarrow> x \<in> set h"
  by (auto simp: clear_content_def)

lemma own_headers:
  "py_lower ''From'' \<noteq> ''bcc''" "py_lower ''To'' \<noteq> ''bcc''" "py_lower ''Cc'' \<noteq> ''bcc''"
  "py_lower ''Reply-To'' \<noteq> ''bcc''" "py_lower ''Subject'' \<noteq> ''bcc''"
  "py_lower ''Message-ID'' \<noteq> ''bcc''" "py_lower ''Date'' \<noteq> ''bcc''"
  by code_simp+

lemma build_mime_no_bcc:
  assumes "build_mime encode_word date m message_id = Inr mi"
  shows "list_all (\<lambda>(n, v). py_lower n \<noteq> ''bcc'') (mi_headers mi)"
  using assms
proof (cases rule: build_mime_headers)
  case (1 fv cc rt sj extra)
  let ?P = "\<lambda>(n, v :: string). py_lower n \<noteq> ''bcc''"
  have protected: "''bcc'' \<in> set protected_headers" by (simp add: protected_headers_def)
  have "list_all ?P cc" using 1(2) by (elim disjE exE) (simp_all add: own_headers)
  moreover have "list_all ?P rt" using 1(3) by (elim disjE exE) (simp_all add: own_headers)
  moreover have "list_all ?P sj" using 1(4) by (elim disjE exE) (simp_all add: own_headers)
  moreover have "list_all ?P extra" unfolding list_all_iff
    using 1(5) protected by (simp add: case_prod_unfold) metis
  ultimately have "list_all ?P ([(''From'', fv), (''To'', py_join '', '' (ob_to m))] @ cc @ rt @ sj
       @ [(''Message-ID'', message_id), (''Date'', date)] @ extra)"
    by (simp only: list_all_append list.pred_inject own_headers prod.case simp_thms)
  then show ?thesis
    unfolding 1(1) list_all_iff using clear_content_subset by blast
qed

lemma build_mime_bcc_irrelevant:
  "build_mime encode_word date (m\<lparr>ob_bcc := others\<rparr>) message_id = build_mime encode_word date m message_id"
proof -
  have "mime_parts (m\<lparr>ob_bcc := others\<rparr>) = mime_parts m" by (simp add: mime_parts_def)
  then show ?thesis unfolding build_mime_def by (simp cong: if_cong)
qed

text \<open>
  C11 Blind recipients are in the envelope and nowhere else: the assembled message does not depend
  on them, and no header of it is a Bcc, even if the caller supplied one.
\<close>

theorem bcc_only_in_envelope:
  assumes "build_mime encode_word date m message_id = Inr mi"
  shows "set (ob_bcc m) \<subseteq> set (envelope_recipients m) \<and>
    build_mime encode_word date (m\<lparr>ob_bcc := others\<rparr>) message_id = Inr mi \<and>
    list_all (\<lambda>(n, v). py_lower n \<noteq> ''bcc'') (mi_headers mi)"
  using build_mime_no_bcc [OF assms] assms
  by (simp add: envelope_recipients_def build_mime_bcc_irrelevant le_supI2)

theorem bcc_only_in_envelope_witness:
  "\<exists>mi. build_mime (\<lambda>s. s) ''now'' (ex_outbound\<lparr>ob_bcc := []\<rparr>) ''<email_1@a.io>'' = Inr mi
     \<and> (''Message-ID'', ''<email_1@a.io>'') \<in> set (mi_headers mi)"
proof -
  show ?thesis
    using bcc_only_in_envelope [OF ex_mime, of "[]"] by simp
qed

end
