(* ===== verification/Auth.thy ===== *)
theory Auth
  imports Models Py_Mail
begin

text \<open>
  API keys (emaild/crypto.py) and the four authorization questions (emaild/auth.py): bearer
  extraction, key resolution to a principal, sender parsing, and \<open>authorize_sender\<close>.  SHA-256 is
  a parameter \<open>sha256\<close>; the random token of a new key is an input.
\<close>

section \<open>Keys\<close>

definition api_key_prefix :: string where
  "api_key_prefix = ''em_live_''"

definition hash_api_key :: "(string \<Rightarrow> string) \<Rightarrow> string \<Rightarrow> string" where
  "hash_api_key sha256 key = sha256 key"

definition generate_api_key :: "(string \<Rightarrow> string) \<Rightarrow> string \<Rightarrow> string \<times> string \<times> string" where
  "generate_api_key sha256 urlsafe =
     (let token = rstrip_chars ''='' urlsafe;
          full_key = api_key_prefix @ token
      in (full_key, hash_api_key sha256 full_key, take (length api_key_prefix + 6) full_key))"

definition verify_api_key :: "(string \<Rightarrow> string) \<Rightarrow> string \<Rightarrow> string \<Rightarrow> bool" where
  "verify_api_key sha256 presented stored_hash = (hash_api_key sha256 presented = stored_hash)"

section \<open>Principals\<close>

text \<open>A mailbox object carries its domain, loaded with it.\<close>

record principal =
  pc_api_key_id :: nat
  pc_key_name :: string
  pc_project_id :: nat
  pc_project_name :: string
  pc_mailboxes :: "(string \<times> mailbox_row \<times> domain_row option) list"

definition allowed_addresses :: "principal \<Rightarrow> string list" where
  "allowed_addresses p = sort (map fst (pc_mailboxes p))"

definition allowed_domains :: "principal \<Rightarrow> string list result" where
  "allowed_domains p =
     map_result (\<lambda>(a, _). case after_first (CHR ''@'') a of None \<Rightarrow> Inl Index_Error | Some dmn \<Rightarrow> Inr dmn)
       (pc_mailboxes p)"

definition auth_error :: "string \<Rightarrow> exn" where
  "auth_error m = Api_Error Authentication_Error m None"

definition msg_missing :: string where
  "msg_missing = ''Missing Authorization header. Send: Authorization: Bearer em_live_...''"

definition msg_malformed :: string where
  "msg_malformed = ''Malformed Authorization header. Expected: Authorization: Bearer em_live_...''"

definition msg_key_format :: string where
  "msg_key_format = ''Invalid API key format. Keys begin with '' @ [CHR 39] @ api_key_prefix @ [CHR 39] @ ''.''"

definition msg_invalid_key :: string where
  "msg_invalid_key = ''Invalid API key.''"

definition extract_bearer :: "string option \<Rightarrow> string result" where
  "extract_bearer header =
     (case header of
        None \<Rightarrow> Inl (auth_error msg_missing)
      | Some h \<Rightarrow>
          if h = [] then Inl (auth_error msg_missing)
          else (case partition_at (CHR '' '') h of
                  (scheme, _, token) \<Rightarrow>
                    if py_lower scheme \<noteq> ''bearer'' \<or> py_strip token = []
                      then Inl (auth_error msg_malformed)
                    else if \<not> starts_with api_key_prefix (py_strip token)
                      then Inl (auth_error msg_key_format)
                    else Inr (py_strip token)))"

definition last_used_resolution :: time where
  "last_used_resolution = minutes 1"

definition touch_last_used :: "time \<Rightarrow> api_key_row \<Rightarrow> api_key_row" where
  "touch_last_used now k =
     (case ak_last_used_at k of
        None \<Rightarrow> k\<lparr>ak_last_used_at := Some now\<rparr>
      | Some previous \<Rightarrow>
          if now - previous > last_used_resolution then k\<lparr>ak_last_used_at := Some now\<rparr> else k)"

definition no_attribute :: "string \<Rightarrow> exn" where
  "no_attribute a = Attribute_Error ([CHR 39] @ ''NoneType'' @ [CHR 39] @ '' object has no attribute '' @ py_repr a)"

text \<open>The mailboxes a key is scoped to, by address; the in-clause of an empty scope list is skipped.\<close>

definition scoped_mailboxes :: "db \<Rightarrow> nat \<Rightarrow> (string \<times> mailbox_row \<times> domain_row option) list" where
  "scoped_mailboxes d key_id =
     (let mailbox_ids = map sc_mailbox_id (filter (\<lambda>s. sc_api_key_id s = key_id) (api_key_scopes d))
      in if mailbox_ids = [] then []
         else map (\<lambda>m. (mb_address m, m, domain_of d (mb_domain_id m)))
                (filter (\<lambda>m. mb_id m \<in> set mailbox_ids) (mailboxes d)))"

definition resolve_principal ::
    "(string \<Rightarrow> string) \<Rightarrow> time \<Rightarrow> db \<Rightarrow> string \<Rightarrow> (principal \<times> db) result" where
  "resolve_principal sha256 now d presented_key =
     (let digest = hash_api_key sha256 presented_key
      in case find (\<lambda>k. ak_key_hash k = digest) (api_keys d) of
           None \<Rightarrow> Inl (auth_error msg_invalid_key)
         | Some k \<Rightarrow>
             if ak_revoked_at k \<noteq> None \<or> \<not> ak_active k then Inl (auth_error msg_invalid_key)
             else (case project_of d (ak_project_id k) of
                     None \<Rightarrow> Inl (no_attribute ''active'')
                   | Some p \<Rightarrow>
                       if \<not> pr_active p then Inl (auth_error msg_invalid_key)
                       else Inr (\<lparr>pc_api_key_id = ak_id k, pc_key_name = ak_name k,
                                  pc_project_id = pr_id p, pc_project_name = pr_name p,
                                  pc_mailboxes = scoped_mailboxes d (ak_id k)\<rparr>,
                                 d\<lparr>api_keys := update_where (\<lambda>q. ak_id q = ak_id k)
                                      (touch_last_used now) (api_keys d)\<rparr>)))"

text \<open>The dependency of every endpoint: extract, then resolve; an exception rolls back.\<close>

definition require_principal ::
    "(string \<Rightarrow> string) \<Rightarrow> time \<Rightarrow> db \<Rightarrow> string option \<Rightarrow> (principal \<times> db) result" where
  "require_principal sha256 now d header =
     bind_result (extract_bearer header) (resolve_principal sha256 now d)"

section \<open>Senders\<close>

definition authorization_error :: "string \<Rightarrow> exn" where
  "authorization_error m = Api_Error Authorization_Error m (Some ''from'')"

definition msg_unparsed :: "string \<Rightarrow> string" where
  "msg_unparsed value = ''Could not parse a valid sender address from '' @ py_repr value @
     ''. Use '' @ py_repr ''noreply@example.com'' @ '' or '' @ py_repr ''Acme <noreply@example.com>'' @ ''.''"

definition parse_from_address :: "string \<Rightarrow> (string option \<times> string) result" where
  "parse_from_address value =
     (case parseaddr value of
        (display_name, address0) \<Rightarrow>
          (let address = py_lower (py_strip address0)
           in case rpartition_at (CHR ''@'') address of
                (local, _, domain_part) \<Rightarrow>
                  if local = [] \<or> domain_part = [] \<or> CHR ''.'' \<notin> set domain_part
                     \<or> starts_with ''.'' domain_part
                  then Inl (authorization_error (msg_unparsed value))
                  else Inr (or_none (py_strip display_name), address)))"

definition msg_no_senders :: "string \<Rightarrow> string" where
  "msg_no_senders address = ''This API key has no sender identities. Grant one with: keys create ... --mailbox '' @ address"

definition msg_not_permitted :: "string \<Rightarrow> string list \<Rightarrow> string" where
  "msg_not_permitted address permitted = ''This API key is not permitted to send as '' @ address @
     ''. Permitted: '' @ py_join '', '' permitted @ ''.''"

definition msg_deactivated :: "string \<Rightarrow> string" where
  "msg_deactivated address = ''Sender identity '' @ address @ '' is deactivated.''"

text \<open>The names of the failing checks of a stored DNS state; DMARC is advisory.\<close>

definition failing_checks :: "json option \<Rightarrow> string result" where
  "failing_checks dns_state =
     (case dns_state of
        Some (JObj kvs) \<Rightarrow>
          bind_result (json_get (JObj kvs) ''checks'') (\<lambda>c.
            case json_or c (JObj []) of
              JObj checks \<Rightarrow>
                bind_result
                  (map_result (\<lambda>(k, v). bind_result (json_get v ''result'') (\<lambda>r. Inr (k, r))) checks)
                  (\<lambda>rs. let bad = map fst (filter (\<lambda>(k, r). r \<noteq> JStr ''pass'' \<and> k \<noteq> ''dmarc'') rs)
                        in Inr (if bad = [] then []
                                else '' Failing checks: '' @ py_join '', '' (sort bad) @ ''.''))
            | other \<Rightarrow> Inl (Attribute_Error ([CHR 39] @ py_type_name other @ [CHR 39] @
                        '' object has no attribute '' @ py_repr ''items'')))
      | _ \<Rightarrow> Inr [])"

definition remedy :: "domain_row \<Rightarrow> string" where
  "remedy dmn = (let q = [CHR 39] in case dm_status dmn of
       Verified \<Rightarrow> '' Its DNS is complete; run '' @ q @ ''appctl admin domains verify '' @ dm_name dmn @ q @ '' to promote it to ready.''
     | Added \<Rightarrow> '' Publish its DNS records ('' @ q @ ''appctl admin domains records '' @ dm_name dmn @ q @ ''), then verify it.''
     | Ownership_Pending \<Rightarrow> '' The ownership TXT record is not resolving yet.''
     | Dns_Incomplete \<Rightarrow> '' Publish the missing records, then run '' @ q @ ''appctl admin domains verify '' @ dm_name dmn @ q @ ''.''
     | Misconfigured \<Rightarrow> '' Its DNS used to pass and no longer does -- something changed outside emaild.''
     | Suspended \<Rightarrow> '' An operator suspended it.''
     | Ready \<Rightarrow> [])"

definition msg_not_ready :: "domain_row \<Rightarrow> string \<Rightarrow> string" where
  "msg_not_ready dmn failing = ''Domain '' @ dm_name dmn @ '' is '' @ [CHR 39] @
     domain_status_value (dm_status dmn) @ [CHR 39] @ '' and cannot send.'' @ failing @ remedy dmn"

definition authorize_sender ::
    "principal \<Rightarrow> string \<Rightarrow> (string option \<times> mailbox_row) result" where
  "authorize_sender p from_value =
     bind_result (parse_from_address from_value) (\<lambda>(display_name, address).
       case map_of (pc_mailboxes p) address of
         None \<Rightarrow>
           if pc_mailboxes p = [] then Inl (authorization_error (msg_no_senders address))
           else Inl (authorization_error (msg_not_permitted address (allowed_addresses p)))
       | Some (mailbox, domain) \<Rightarrow>
           if \<not> mb_active mailbox then Inl (authorization_error (msg_deactivated address))
           else (case domain of
                   None \<Rightarrow> Inl (no_attribute ''status'')
                 | Some dmn \<Rightarrow>
                     if dm_status dmn \<noteq> Ready
                     then bind_result (failing_checks (dm_dns_state dmn)) (\<lambda>failing.
                            Inl (Api_Error Domain_Not_Ready (msg_not_ready dmn failing) (Some ''from'')))
                     else Inr (display_name, mailbox)))"

section \<open>What a principal is\<close>

lemma touch_last_used_frame [simp]:
  "ak_id (touch_last_used now k) = ak_id k" "ak_key_hash (touch_last_used now k) = ak_key_hash k"
  "ak_active (touch_last_used now k) = ak_active k"
  "ak_revoked_at (touch_last_used now k) = ak_revoked_at k"
  "ak_project_id (touch_last_used now k) = ak_project_id k" "ak_name (touch_last_used now k) = ak_name k"
  by (simp_all add: touch_last_used_def split: option.split)

lemma scoped_mailboxes_iff:
  "(a, m, dmn) \<in> set (scoped_mailboxes d k) \<longleftrightarrow>
     m \<in> set (mailboxes d) \<and> a = mb_address m \<and> dmn = domain_of d (mb_domain_id m) \<and>
     (\<exists>s \<in> set (api_key_scopes d). sc_api_key_id s = k \<and> sc_mailbox_id s = mb_id m)"
  by (auto simp: scoped_mailboxes_def Let_def image_iff filter_empty_conv)

lemma resolve_principalE:
  assumes "resolve_principal sha256 now d key = Inr (p, d')"
  obtains k pr where "find (\<lambda>k. ak_key_hash k = sha256 key) (api_keys d) = Some k"
    "ak_revoked_at k = None" "ak_active k" "project_of d (ak_project_id k) = Some pr" "pr_active pr"
    "p = \<lparr>pc_api_key_id = ak_id k, pc_key_name = ak_name k, pc_project_id = pr_id pr,
          pc_project_name = pr_name pr, pc_mailboxes = scoped_mailboxes d (ak_id k)\<rparr>"
    "d' = d\<lparr>api_keys := update_where (\<lambda>q. ak_id q = ak_id k) (touch_last_used now) (api_keys d)\<rparr>"
  using assms
  by (auto simp: resolve_principal_def hash_api_key_def Let_def split: option.splits if_splits)

lemma authorize_senderE:
  assumes "authorize_sender p from_value = Inr (display_name, mailbox)"
  obtains address dmn where "parse_from_address from_value = Inr (display_name, address)"
    "map_of (pc_mailboxes p) address = Some (mailbox, Some dmn)" "mb_active mailbox" "dm_status dmn = Ready"
proof -
  from assms obtain n address where parsed: "parse_from_address from_value = Inr (n, address)"
    by (cases "parse_from_address from_value") (auto simp: authorize_sender_def)
  show thesis
  proof (cases "map_of (pc_mailboxes p) address")
    case None
    with assms parsed show thesis by (simp add: authorize_sender_def split: if_splits)
  next
    case (Some md)
    obtain m dmn where md: "md = (m, dmn)" by fastforce
    show thesis
    proof (cases dmn)
      case None
      with Some md assms parsed show thesis by (simp add: authorize_sender_def split: if_splits)
    next
      case (Some q)
      with \<open>map_of (pc_mailboxes p) address = Some md\<close> md assms parsed
      have "mb_active m" "dm_status q = Ready" "display_name = n" "mailbox = m"
        by (auto simp: authorize_sender_def bind_result_eq_Inr split: if_splits)
      with that Some \<open>map_of (pc_mailboxes p) address = Some md\<close> md parsed show thesis by simp
    qed
  qed
qed

lemma parse_from_addressD:
  "parse_from_address v = Inr (n, a) \<Longrightarrow> py_lower a = a \<and> a = py_lower (py_strip (snd (parseaddr v)))"
  by (auto simp: parse_from_address_def Let_def split: prod.splits if_splits)

end
