(* ===== verification/Py_Time.thy ===== *)
theory Py_Time
  imports Prelude Py_Str
begin

text \<open>
  \<open>datetime.isoformat()\<close> of an aware UTC time, on the microsecond count of the prelude: the civil
  date of the proleptic Gregorian calendar and the time of day, six digits of microseconds unless
  they are zero.
\<close>

definition pad_to :: "nat \<Rightarrow> int \<Rightarrow> string" where
  "pad_to w n = (let s = str_of_int n in replicate (w - length s) (CHR ''0'') @ s)"

definition civil_date :: "int \<Rightarrow> int \<times> int \<times> int" where
  "civil_date days =
     (let z = days + 719468;
          era = z div 146097;
          doe = z - era * 146097;
          yoe = (doe - doe div 1460 + doe div 36524 - doe div 146096) div 365;
          doy = doe - (365 * yoe + yoe div 4 - yoe div 100);
          mp = (5 * doy + 2) div 153;
          d = doy - (153 * mp + 2) div 5 + 1;
          m = (if mp < 10 then mp + 3 else mp - 9)
      in (yoe + era * 400 + (if m \<le> 2 then 1 else 0), m, d))"

definition day_micros :: int where
  "day_micros = 86400000000"

definition isoformat :: "time \<Rightarrow> string" where
  "isoformat t =
     (let (y, m, d) = civil_date (t div day_micros);
          r = t mod day_micros;
          us = r mod 1000000;
          s = r div 1000000
      in pad_to 4 y @ ''-'' @ pad_to 2 m @ ''-'' @ pad_to 2 d @ ''T'' @
         pad_to 2 (s div 3600) @ '':'' @ pad_to 2 (s div 60 mod 60) @ '':'' @ pad_to 2 (s mod 60) @
         (if us = 0 then [] else ''.'' @ pad_to 6 us) @ ''+00:00'')"

lemma isoformat_example:
  "isoformat (seconds 1709214245 + 1500) = ''2024-02-29T13:44:05.001500+00:00''"
  by code_simp

end
