(* ===== verification/Fixtures.thy ===== *)
theory Fixtures
  imports Auth Suppressions
begin

text \<open>
  A small installation for the concrete instances: one project, one ready domain, one mailbox, one
  key scoped to it, and a queued message.  Nothing here models code.
\<close>

definition ex_project :: project_row where
  "ex_project = \<lparr>pr_id = 1, pr_name = ''shop'', pr_description = None, pr_active = True,
     pr_created_at = 0\<rparr>"

definition ex_domain :: domain_row where
  "ex_domain = \<lparr>dm_id = 2, dm_name = ''a.io'', dm_status = Ready, dm_smtp_host = Some ''mx.a.io'',
     dm_required_records = None, dm_dns_state = None, dm_dns_checked_at = None,
     dm_verification_token = None, dm_created_at = 0\<rparr>"

definition ex_mailbox :: mailbox_row where
  "ex_mailbox = \<lparr>mb_id = 3, mb_domain_id = 2, mb_address = ''no@a.io'', mb_password_encrypted = ''x'',
     mb_display_name = None, mb_hourly_limit = 400, mb_daily_limit = 9600, mb_active = True,
     mb_provisioned_at = None, mb_created_at = 0\<rparr>"

definition ex_key :: api_key_row where
  "ex_key = \<lparr>ak_id = 4, ak_project_id = 1, ak_name = ''web'', ak_key_hash = ''em_live_k'',
     ak_key_prefix = ''em_live_k'', ak_active = True, ak_created_at = 0, ak_last_used_at = None,
     ak_revoked_at = None\<rparr>"

definition ex_scope :: scope_row where
  "ex_scope = \<lparr>sc_id = 5, sc_api_key_id = 4, sc_mailbox_id = 3\<rparr>"

definition ex_message :: message_row where
  "ex_message =
     \<lparr>ms_id = 6, ms_public_id = ''email_1'', ms_project_id = 1, ms_mailbox_id = 3,
      ms_api_key_id = Some 4, ms_status = Queued, ms_from_address = ''no@a.io'', ms_from_name = None,
      ms_to_addresses = [''u@b.io''], ms_cc_addresses = None, ms_bcc_addresses = None,
      ms_reply_to = None, ms_subject = Some ''hi'', ms_return_path = Some ''no@a.io'',
      ms_body_html = None, ms_body_text = Some ''hello'', ms_body_purged_at = None,
      ms_size_bytes = 2070, ms_recipient_count = 1, ms_last_attempt_at = None, ms_attempts = 0,
      ms_next_attempt_at = Some 0, ms_claimed_by = None, ms_claimed_at = None,
      ms_provider_response = None, ms_provider_latency_ms = None, ms_failure_class = None,
      ms_failure_code = None, ms_needs_review = False, ms_created_at = 0, ms_completed_at = None\<rparr>"

definition ex_db :: db where
  "ex_db = empty_db\<lparr>projects := [ex_project], domains := [ex_domain], mailboxes := [ex_mailbox],
     api_keys := [ex_key], api_key_scopes := [ex_scope], messages := [ex_message], next_id := 7\<rparr>"

definition ex_principal :: principal where
  "ex_principal = \<lparr>pc_api_key_id = 4, pc_key_name = ''web'', pc_project_id = 1,
     pc_project_name = ''shop'', pc_mailboxes = [(''no@a.io'', ex_mailbox, Some ex_domain)]\<rparr>"

definition ex_suppression :: "string \<Rightarrow> suppression_row" where
  "ex_suppression a = \<lparr>su_id = 9, su_address = a, su_source = Bounce, su_reason = None,
     su_project_id = None, su_created_at = 0\<rparr>"

lemmas ex_defs = ex_project_def ex_domain_def ex_mailbox_def ex_key_def ex_scope_def
  ex_message_def ex_db_def ex_principal_def ex_suppression_def empty_db_def

lemma ex_db_sel [simp]:
  "installation ex_db = []" "projects ex_db = [ex_project]" "domains ex_db = [ex_domain]"
  "mailboxes ex_db = [ex_mailbox]" "api_keys ex_db = [ex_key]" "api_key_scopes ex_db = [ex_scope]"
  "messages ex_db = [ex_message]" "events ex_db = []" "suppressions ex_db = []"
  "idempotency_keys ex_db = []" "worker_heartbeats ex_db = []" "provisioning_jobs ex_db = []"
  "next_id ex_db = 7"
  by (simp_all add: ex_db_def empty_db_def)

lemma ex_row_sel [simp]:
  "ms_id ex_message = 6" "ms_public_id ex_message = ''email_1''" "ms_status ex_message = Queued"
  "ms_mailbox_id ex_message = 3" "ms_project_id ex_message = 1" "ms_attempts ex_message = 0"
  "ms_last_attempt_at ex_message = None" "ms_next_attempt_at ex_message = Some 0"
  "ms_claimed_at ex_message = None" "ms_claimed_by ex_message = None"
  "mb_id ex_mailbox = 3" "mb_address ex_mailbox = ''no@a.io''" "mb_hourly_limit ex_mailbox = 400"
  "mb_domain_id ex_mailbox = 2" "mb_active ex_mailbox" "dm_status ex_domain = Ready"
  "dm_id ex_domain = 2" "dm_smtp_host ex_domain = Some ''mx.a.io''" "dm_name ex_domain = ''a.io''"
  by (simp_all add: ex_message_def ex_mailbox_def ex_domain_def)

lemma ex_principal_sel [simp]:
  "pc_project_id ex_principal = 1" "pc_api_key_id ex_principal = 4"
  "pc_mailboxes ex_principal = [(''no@a.io'', ex_mailbox, Some ex_domain)]"
  by (simp_all add: ex_principal_def)

end
