(* ===== verification/Ingest.thy ===== *)
theory Ingest
  imports Schemas Auth Suppressions Py_Time Fixtures
begin

text \<open>
  Message ingestion (emaild/ingest.py): recipients, the request fingerprint, the suppression check,
  the idempotency replay, the durable write, and the purge of old bodies.  The ULID, the hash and
  the key a rival request commits between the lookup and the insert are inputs.
\<close>

section \<open>Identifiers\<close>

definition public_id_prefix :: string where "public_id_prefix = ''email_''"

definition new_public_id :: "string \<Rightarrow> string" where
  "new_public_id ulid = public_id_prefix @ ulid"

definition message_id_header :: "string \<Rightarrow> string \<Rightarrow> string" where
  "message_id_header public_id dmn = ''<'' @ public_id @ ''@'' @ dmn @ ''>''"

record ingest_result =
  ir_public_id :: string
  ir_status :: string
  ir_replayed :: bool

section \<open>Recipients\<close>

definition validation_error :: "string \<Rightarrow> string \<Rightarrow> exn" where
  "validation_error m param = Api_Error Validation_Error m (Some param)"

fun recipients_from :: "string list \<Rightarrow> string \<Rightarrow> string list \<Rightarrow> string list result" where
  "recipients_from out field [] = Inr out"
| "recipients_from out field (raw # rest) =
     (let address = py_lower (py_strip (snd (parseaddr raw)))
      in case rpartition_at (CHR ''@'') address of
           (local, _, dmn) \<Rightarrow>
             if local = [] \<or> dmn = [] \<or> CHR ''.'' \<notin> set dmn \<or> starts_with ''.'' dmn
             then Inl (validation_error (''Invalid recipient address: '' @ py_repr raw) field)
             else recipients_from (if address \<in> set out then out else out @ [address]) field rest)"

definition normalise_recipients :: "string list \<Rightarrow> string \<Rightarrow> string list result" where
  "normalise_recipients values field = recipients_from [] field values"

section \<open>Fingerprint, suppression and replay\<close>

definition canonical_request_hash :: "(string \<Rightarrow> string) \<Rightarrow> json \<Rightarrow> string" where
  "canonical_request_hash sha256 payload = sha256 (canonical_json payload)"

definition check_suppressions :: "db \<Rightarrow> string list \<Rightarrow> unit result" where
  "check_suppressions d recipients =
     (let rows = find_suppressed d recipients
      in if rows \<noteq> []
         then Inl (Api_Error Suppressed_Recipient
                (''Refusing to send to suppressed address(es): '' @ py_join '', '' (sorted_set rows) @ ''.'')
                (Some ''to''))
         else Inr ())"

definition key_reused :: "string \<Rightarrow> exn" where
  "key_reused key = Api_Error Idempotency_Key_Reused
     (''Idempotency-Key '' @ py_repr key @ '' was already used with a different request body. '' @
      ''Use a new key for a different message.'') (Some ''Idempotency-Key'')"

definition key_in_progress :: "string \<Rightarrow> exn" where
  "key_in_progress key = Api_Error Idempotency_Conflict
     (''A request with Idempotency-Key '' @ py_repr key @ '' is currently in progress. Retry shortly.'')
     (Some ''Idempotency-Key'')"

definition replay_if_seen ::
    "db \<Rightarrow> nat \<Rightarrow> string \<Rightarrow> string \<Rightarrow> ingest_result option result" where
  "replay_if_seen d project_id key request_hash =
     bind_result (scalar_one_or_none (filter (\<lambda>k. (ik_project_id k, ik_key k) = (project_id, key))
                    (idempotency_keys d)))
       (\<lambda>row. case row of
          None \<Rightarrow> Inr None
        | Some existing \<Rightarrow>
            if ik_request_hash existing \<noteq> request_hash then Inl (key_reused key)
            else (case ik_response_body existing of
                    None \<Rightarrow> Inl (key_in_progress key)
                  | Some body \<Rightarrow>
                      bind_result (json_get body ''id'') (\<lambda>i.
                      bind_result (json_get body ''status'') (\<lambda>s.
                        Inr (Some \<lparr>ir_public_id = json_str i, ir_status = json_str s,
                                   ir_replayed = True\<rparr>)))))"

section \<open>The durable write\<close>

record accepted =
  ac_from_name :: "string option"
  ac_mailbox :: mailbox_row
  ac_to :: "string list"
  ac_cc :: "string list"
  ac_bcc :: "string list"
  ac_size :: nat

definition ac_total :: "accepted \<Rightarrow> nat" where
  "ac_total a = length (ac_to a) + length (ac_cc a) + length (ac_bcc a)"

definition or_null :: "'a list \<Rightarrow> 'a list option" where
  "or_null xs = (if xs = [] then None else Some xs)"

definition new_message :: "time \<Rightarrow> string \<Rightarrow> nat \<Rightarrow> principal \<Rightarrow> send_request \<Rightarrow> accepted \<Rightarrow> message_row" where
  "new_message now public_id i p rq a =
     \<lparr>ms_id = i, ms_public_id = public_id, ms_project_id = pc_project_id p,
      ms_mailbox_id = mb_id (ac_mailbox a), ms_api_key_id = Some (pc_api_key_id p),
      ms_status = Queued, ms_from_address = mb_address (ac_mailbox a),
      ms_from_name = ac_from_name a, ms_to_addresses = ac_to a,
      ms_cc_addresses = or_null (ac_cc a), ms_bcc_addresses = or_null (ac_bcc a),
      ms_reply_to = rq_reply_to rq, ms_subject = rq_subject rq,
      ms_return_path = Some (mb_address (ac_mailbox a)), ms_body_html = rq_html rq,
      ms_body_text = rq_text rq, ms_body_purged_at = None, ms_size_bytes = ac_size a,
      ms_recipient_count = ac_total a, ms_last_attempt_at = None, ms_attempts = 0,
      ms_next_attempt_at = Some now, ms_claimed_by = None, ms_claimed_at = None,
      ms_provider_response = None, ms_provider_latency_ms = None, ms_failure_class = None,
      ms_failure_code = None, ms_needs_review = False, ms_created_at = now, ms_completed_at = None\<rparr>"

definition accepted_event :: "time \<Rightarrow> nat \<Rightarrow> nat \<Rightarrow> principal \<Rightarrow> accepted \<Rightarrow> event_row" where
  "accepted_event now i m p a =
     \<lparr>ev_id = i, ev_message_id = m, ev_sequence = 1, ev_event_type = ''api.accepted'',
      ev_detail = Some (JObj [(''project'', JStr (pc_project_name p)), (''key'', JStr (pc_key_name p)),
        (''recipients'', JInt (int (ac_total a))), (''size_bytes'', JInt (int (ac_size a)))]),
      ev_occurred_at = now\<rparr>"

definition queued_event :: "time \<Rightarrow> nat \<Rightarrow> nat \<Rightarrow> string \<Rightarrow> string \<Rightarrow> event_row" where
  "queued_event now i m public_id dmn =
     \<lparr>ev_id = i, ev_message_id = m, ev_sequence = 2, ev_event_type = ''message.queued'',
      ev_detail = Some (JObj [(''message_id_header'', JStr (message_id_header public_id dmn))]),
      ev_occurred_at = now\<rparr>"

definition new_key ::
    "time \<Rightarrow> int \<Rightarrow> nat \<Rightarrow> nat \<Rightarrow> nat \<Rightarrow> string \<Rightarrow> string \<Rightarrow> string \<Rightarrow> idempotency_row" where
  "new_key now ttl_hours i m project_id key request_hash public_id =
     \<lparr>ik_id = i, ik_project_id = project_id, ik_key = key, ik_request_hash = request_hash,
      ik_message_id = Some m, ik_response_status = Some 200,
      ik_response_body = Some (JObj [(''id'', JStr public_id), (''status'', JStr (message_status_value Queued))]),
      ik_created_at = now, ik_expires_at = now + hours ttl_hours\<rparr>"

text \<open>
  The write.  The unique index of \<open>public_id\<close> and that of (project, key) raise at the flush; the
  latter is what a rival request with the same key runs into.
\<close>

definition store_message ::
    "time \<Rightarrow> string \<Rightarrow> idempotency_row option \<Rightarrow> int \<Rightarrow> db \<Rightarrow> principal \<Rightarrow> send_request \<Rightarrow>
     accepted \<Rightarrow> string option \<Rightarrow> string \<Rightarrow> (ingest_result \<times> db) result" where
  "store_message now ulid rival ttl_hours d p rq a key request_hash =
     (let public_id = new_public_id ulid; m = next_id d
      in case after_first (CHR ''@'') (mb_address (ac_mailbox a)) of
           None \<Rightarrow> Inl Index_Error
         | Some dmn \<Rightarrow>
             if public_id \<in> ms_public_id ` set (messages d) then Inl Integrity_Error
             else
               (let d' = d\<lparr>messages := messages d @ [new_message now public_id m p rq a],
                           events := events d @ [accepted_event now (m + 1) m p a,
                                                 queued_event now (m + 2) m public_id dmn],
                           next_id := m + 3\<rparr>;
                    result = \<lparr>ir_public_id = public_id, ir_status = message_status_value Queued,
                              ir_replayed = False\<rparr>
                in case key of
                     None \<Rightarrow> Inr (result, d')
                   | Some k \<Rightarrow>
                       if k = [] then Inr (result, d')
                       else if (case rival of None \<Rightarrow> False | Some r \<Rightarrow>
                                  (ik_project_id r, ik_key r) = (pc_project_id p, k))
                         then Inl (key_in_progress k)
                       else Inr (result, d'\<lparr>idempotency_keys := idempotency_keys d' @
                              [new_key now ttl_hours (m + 3) m (pc_project_id p) k request_hash public_id],
                              next_id := m + 4\<rparr>)))"

section \<open>Acceptance\<close>

fun group_from_right :: "nat \<Rightarrow> string \<Rightarrow> string" where
  "group_from_right n [] = []"
| "group_from_right n (c # s) =
     (if n = 3 then CHR '','' # c # group_from_right 1 s else c # group_from_right (Suc n) s)"

definition grouped_digits :: "nat \<Rightarrow> string" where
  "grouped_digits n = rev (group_from_right 0 (rev (str_of_nat n)))"

definition msg_too_many :: "nat \<Rightarrow> string" where
  "msg_too_many n = str_of_nat n @ '' recipients exceeds the provider limit of '' @
     str_of_nat max_recipients @ '' per message.''"

definition msg_too_big :: "nat \<Rightarrow> string" where
  "msg_too_big n = ''Message is approximately '' @ grouped_digits n @ '' bytes, over the '' @
     grouped_digits max_message_bytes @ '' byte limit.''"

text \<open>Steps 1 and 2: authorization, recipients and the provider's limits.\<close>

definition check_request :: "principal \<Rightarrow> send_request \<Rightarrow> accepted result" where
  "check_request p rq =
     bind_result (authorize_sender p (rq_from rq)) (\<lambda>(display_name, mailbox).
     bind_result (normalise_recipients (rq_to rq) ''to'') (\<lambda>to.
     bind_result (normalise_recipients (or_list (rq_cc rq)) ''cc'') (\<lambda>cc.
     bind_result (normalise_recipients (or_list (rq_bcc rq)) ''bcc'') (\<lambda>bcc.
       let a = \<lparr>ac_from_name = display_name, ac_mailbox = mailbox, ac_to = to, ac_cc = cc,
                ac_bcc = bcc, ac_size = estimated_size_bytes rq\<rparr>;
           n = ac_total a
       in if n = 0 then Inl (validation_error ''At least one recipient is required.'' ''to'')
          else if max_recipients < n then Inl (validation_error (msg_too_many n) ''to'')
          else if max_message_bytes < ac_size a then Inl (validation_error (msg_too_big (ac_size a)) ''html'')
          else bind_result
                 (if truthy_str (rq_reply_to rq)
                  then normalise_recipients [or_empty (rq_reply_to rq)] ''reply_to'' else Inr [])
                 (\<lambda>_. Inr a)))))"

definition ac_recipients :: "accepted \<Rightarrow> string list" where
  "ac_recipients a = ac_to a @ ac_cc a @ ac_bcc a"

definition request_hash :: "(string \<Rightarrow> string) \<Rightarrow> send_request \<Rightarrow> string" where
  "request_hash sha256 rq = canonical_request_hash sha256 (request_payload rq)"

definition ingest_message ::
    "(string \<Rightarrow> string) \<Rightarrow> time \<Rightarrow> string \<Rightarrow> idempotency_row option \<Rightarrow> int \<Rightarrow> db \<Rightarrow> principal \<Rightarrow>
     send_request \<Rightarrow> string option \<Rightarrow> (ingest_result \<times> db) result" where
  "ingest_message sha256 now ulid rival ttl_hours d p rq key =
     bind_result (check_request p rq) (\<lambda>a.
     bind_result (check_suppressions d (ac_recipients a)) (\<lambda>_.
     bind_result
       (if truthy_str key
        then replay_if_seen d (pc_project_id p) (or_empty key) (request_hash sha256 rq) else Inr None)
       (\<lambda>replay. case replay of
          Some r \<Rightarrow> Inr (r, d)
        | None \<Rightarrow> store_message now ulid rival ttl_hours d p rq a key (request_hash sha256 rq))))"

section \<open>Retention\<close>

definition purge_due :: "time \<Rightarrow> message_row \<Rightarrow> bool" where
  "purge_due cutoff m = ((case ms_completed_at m of None \<Rightarrow> False | Some t \<Rightarrow> t < cutoff)
     \<and> ms_body_purged_at m = None)"

definition purge_body :: "time \<Rightarrow> message_row \<Rightarrow> message_row" where
  "purge_body now m = m\<lparr>ms_body_html := None, ms_body_text := None, ms_body_purged_at := Some now\<rparr>"

definition purge_expired_bodies :: "time \<Rightarrow> db \<Rightarrow> int \<Rightarrow> nat \<times> db" where
  "purge_expired_bodies now d retention_hours =
     (let cutoff = now - hours retention_hours
      in (count_where (purge_due cutoff) (messages d),
          d\<lparr>messages := update_where (purge_due cutoff) (purge_body now) (messages d)\<rparr>))"


section \<open>What acceptance means\<close>

lemma recipients_from_step:
  "recipients_from out field (raw # rest) =
     (case normalise_address raw of
        Inl _ \<Rightarrow> Inl (validation_error (''Invalid recipient address: '' @ py_repr raw) field)
      | Inr n \<Rightarrow> recipients_from (if n \<in> set out then out else out @ [n]) field rest)"
  by (simp add: normalise_address_def address_shape_ok_def Let_def split: prod.split)

text \<open>
  The recipient normaliser and the suppression list's agree: the result is the list's canonical
  form of every address, each once.
\<close>

lemma recipients_from_Inr:
  assumes "recipients_from out field vs = Inr xs" "distinct out"
  shows "distinct xs \<and> set xs = set out \<union> {n. \<exists>v \<in> set vs. normalise_address v = Inr n} \<and>
    (\<forall>v \<in> set vs. \<exists>n. normalise_address v = Inr n)"
  using assms
proof (induction vs arbitrary: out)
  case Nil
  then show ?case by simp
next
  case (Cons v vs)
  then obtain n where n: "normalise_address v = Inr n"
    by (auto simp: recipients_from_step simp del: recipients_from.simps split: sum.splits)
  with Cons.prems have "recipients_from (if n \<in> set out then out else out @ [n]) field vs = Inr xs"
    by (simp add: recipients_from_step del: recipients_from.simps)
  from Cons.IH [OF this] Cons.prems(2) n show ?case by (auto split: if_splits)
qed

lemma normalise_recipients_Inr:
  assumes "normalise_recipients vs field = Inr xs"
  shows "distinct xs" and "set xs = {n. \<exists>v \<in> set vs. normalise_address v = Inr n}"
    and "\<forall>v \<in> set vs. \<exists>n. normalise_address v = Inr n"
  using recipients_from_Inr [of "[]" field vs xs] assms by (auto simp: normalise_recipients_def)

lemma check_requestE:
  assumes "check_request p rq = Inr a"
  obtains "authorize_sender p (rq_from rq) = Inr (ac_from_name a, ac_mailbox a)"
    "normalise_recipients (rq_to rq) ''to'' = Inr (ac_to a)"
    "normalise_recipients (or_list (rq_cc rq)) ''cc'' = Inr (ac_cc a)"
    "normalise_recipients (or_list (rq_bcc rq)) ''bcc'' = Inr (ac_bcc a)"
    "0 < ac_total a" "ac_total a \<le> max_recipients" "ac_size a \<le> max_message_bytes"
    "ac_size a = estimated_size_bytes rq"
  using assms
  by (fastforce simp: check_request_def Let_def bind_result_eq_Inr split: if_splits)

lemma check_suppressions_Inr_iff:
  "check_suppressions d rs = Inr u \<longleftrightarrow> (\<forall>r \<in> set rs. \<forall>n \<in> suppressed_set d. normalise_address r \<noteq> Inr n)"
proof -
  have "check_suppressions d rs = Inr u \<longleftrightarrow> set (find_suppressed d rs) = {}"
    by (simp add: check_suppressions_def Let_def)
  then show ?thesis by (auto simp: set_find_suppressed)
qed

lemma replay_if_seen_cases:
  assumes "idempotency_ok d"
  shows "replay_if_seen d pid key h =
    (case find (\<lambda>k. (ik_project_id k, ik_key k) = (pid, key)) (idempotency_keys d) of
       None \<Rightarrow> Inr None
     | Some k \<Rightarrow>
         if ik_request_hash k \<noteq> h then Inl (key_reused key)
         else (case ik_response_body k of
                 None \<Rightarrow> Inl (key_in_progress key)
               | Some body \<Rightarrow>
                   bind_result (json_get body ''id'') (\<lambda>i. bind_result (json_get body ''status'') (\<lambda>s.
                     Inr (Some \<lparr>ir_public_id = json_str i, ir_status = json_str s,
                                ir_replayed = True\<rparr>)))))"
  using scalar_one_or_none_unique [of "\<lambda>k. (ik_project_id k, ik_key k)" "idempotency_keys d" "(pid, key)"] assms
  by (simp add: replay_if_seen_def idempotency_ok_def)


lemma store_messageE:
  assumes "store_message now ulid rival ttl d p rq a key h = Inr (r, d')"
  obtains dmn where "after_first (CHR ''@'') (mb_address (ac_mailbox a)) = Some dmn"
    "r = \<lparr>ir_public_id = new_public_id ulid, ir_status = ''queued'', ir_replayed = False\<rparr>"
    "new_public_id ulid \<notin> ms_public_id ` set (messages d)"
    "messages d' = messages d @ [new_message now (new_public_id ulid) (next_id d) p rq a]"
    "events d' = events d @ [accepted_event now (next_id d + 1) (next_id d) p a,
       queued_event now (next_id d + 2) (next_id d) (new_public_id ulid) dmn]"
    "suppressions d' = suppressions d" "mailboxes d' = mailboxes d" "domains d' = domains d"
    "idempotency_keys d' = idempotency_keys d @
       (if truthy_str key then [new_key now ttl (next_id d + 3) (next_id d) (pc_project_id p)
          (or_empty key) h (new_public_id ulid)] else [])"
    "next_id d < next_id d'"
proof -
  obtain dmn where dmn: "after_first (CHR ''@'') (mb_address (ac_mailbox a)) = Some dmn"
    using assms by (auto simp: store_message_def Let_def split: option.splits)
  show thesis
    using assms dmn
    by (intro that [of dmn])
      (auto simp: store_message_def Let_def truthy_str_def or_empty_def message_status_value_def
         split: option.splits if_splits)
qed

lemma ingest_messageE:
  assumes "ingest_message sha256 now ulid rival ttl d p rq key = Inr (r, d')"
  obtains
    (replayed) a where "check_request p rq = Inr a" "check_suppressions d (ac_recipients a) = Inr ()"
      "truthy_str key" "replay_if_seen d (pc_project_id p) (or_empty key) (request_hash sha256 rq) = Inr (Some r)"
      "d' = d"
  | (stored) a where "check_request p rq = Inr a" "check_suppressions d (ac_recipients a) = Inr ()"
      "truthy_str key \<Longrightarrow>
         replay_if_seen d (pc_project_id p) (or_empty key) (request_hash sha256 rq) = Inr None"
      "store_message now ulid rival ttl d p rq a key (request_hash sha256 rq) = Inr (r, d')"
proof -
  from assms obtain a where a: "check_request p rq = Inr a"
    by (auto simp: ingest_message_def bind_result_eq_Inr)
  from assms a have c: "check_suppressions d (ac_recipients a) = Inr ()"
    by (auto simp: ingest_message_def bind_result_eq_Inr)
  define replay where "replay = (if truthy_str key
     then replay_if_seen d (pc_project_id p) (or_empty key) (request_hash sha256 rq) else Inr None)"
  have run: "bind_result replay (\<lambda>replay. case replay of Some r \<Rightarrow> Inr (r, d)
      | None \<Rightarrow> store_message now ulid rival ttl d p rq a key (request_hash sha256 rq)) = Inr (r, d')"
    using assms a c by (simp add: ingest_message_def replay_def)
  then obtain x where x: "replay = Inr x" by (cases replay) auto
  show thesis
  proof (cases x)
    case None
    with run x a c show thesis by (intro stored [of a]) (simp_all add: replay_def)
  next
    case (Some q)
    with run x have "q = r" "d' = d" by simp_all
    moreover from x Some have "truthy_str key" by (auto simp: replay_def split: if_splits)
    ultimately show thesis using x Some a c by (intro replayed [of a]) (simp_all add: replay_def)
  qed
qed

lemma replay_Some_replayed:
  assumes "replay_if_seen d pid key h = Inr (Some r)"
  shows "ir_replayed r"
proof -
  from assms obtain k where "scalar_one_or_none (filter (\<lambda>k. (ik_project_id k, ik_key k) = (pid, key))
      (idempotency_keys d)) = Inr (Some k)"
    by (auto simp: replay_if_seen_def bind_result_eq_Inr split: option.splits)
  with assms show ?thesis
    by (auto simp: replay_if_seen_def bind_result_eq_Inr split: option.splits if_splits)
qed

lemma replay_after_store:
  assumes "idempotency_ok d" "replay_if_seen d (pc_project_id p) k h' = Inr None"
    and "idempotency_keys d' = idempotency_keys d @ [new_key now ttl i m (pc_project_id p) k h public_id]"
  shows "replay_if_seen d' (pc_project_id p) k h'' =
    (if h'' = h then Inr (Some \<lparr>ir_public_id = public_id, ir_status = ''queued'', ir_replayed = True\<rparr>)
     else Inl (key_reused k))"
proof -
  from assms(1,2) have none: "find (\<lambda>q. (ik_project_id q, ik_key q) = (pc_project_id p, k)) (idempotency_keys d) = None"
    by (auto simp: replay_if_seen_cases bind_result_eq_Inr split: option.splits if_splits)
  then have "(pc_project_id p, k) \<notin> (\<lambda>q. (ik_project_id q, ik_key q)) ` set (idempotency_keys d)"
    by (auto simp: find_None_ball)
  with assms(1,3) have "idempotency_ok d'"
    by (auto simp: idempotency_ok_def unique_on_append new_key_def)
  moreover have "find (\<lambda>q. (ik_project_id q, ik_key q) = (pc_project_id p, k)) (idempotency_keys d')
      = Some (new_key now ttl i m (pc_project_id p) k h public_id)"
    using none assms(3) by (simp add: find_append new_key_def)
  ultimately show ?thesis
    by (simp add: replay_if_seen_cases new_key_def json_get_def dict_get_def json_str_def
        message_status_value_def)
qed

section \<open>A concrete acceptance\<close>

definition ex_request :: "string \<Rightarrow> send_request" where
  "ex_request recipient = \<lparr>rq_from = ''no@a.io'', rq_to = [recipient], rq_subject = None,
     rq_html = None, rq_text = Some ''t'', rq_cc = None, rq_bcc = None, rq_reply_to = None,
     rq_headers = None, rq_tags = None\<rparr>"

definition ex_accepted :: "string \<Rightarrow> accepted" where
  "ex_accepted recipient = \<lparr>ac_from_name = None, ac_mailbox = ex_mailbox, ac_to = [recipient],
     ac_cc = [], ac_bcc = [], ac_size = 2070\<rparr>"

lemma ex_check: "check_request ex_principal (ex_request ''u@b.io'') = Inr (ex_accepted ''u@b.io'')"
proof -
  have "authorize_sender ex_principal ''no@a.io'' = Inr (None, ex_mailbox)"
    "normalise_recipients [''u@b.io''] ''to'' = Inr [''u@b.io'']"
    "estimated_size_bytes (ex_request ''u@b.io'') = 2070" by code_simp+
  then show ?thesis
    by (simp add: check_request_def ex_request_def or_list_def normalise_recipients_def
        ac_total_def max_recipients_def max_message_bytes_def truthy_str_def ex_accepted_def)
qed

lemma ex_ingest:
  "ingest_message sha256 5 ''U'' None 24 ex_db ex_principal (ex_request ''u@b.io'') (Some ''k'') =
    Inr (\<lparr>ir_public_id = ''email_U'', ir_status = ''queued'', ir_replayed = False\<rparr>,
      ex_db\<lparr>messages := [ex_message, new_message 5 ''email_U'' 7 ex_principal (ex_request ''u@b.io'') (ex_accepted ''u@b.io'')],
       events := [accepted_event 5 8 7 ex_principal (ex_accepted ''u@b.io''), queued_event 5 9 7 ''email_U'' ''a.io''],
       idempotency_keys := [new_key 5 24 10 7 1 ''k'' (request_hash sha256 (ex_request ''u@b.io'')) ''email_U''],
       next_id := 11\<rparr>)"
proof -
  have "check_suppressions ex_db [''u@b.io''] = Inr ()" by code_simp
  moreover have "after_first (CHR ''@'') ''no@a.io'' = Some ''a.io''" by code_simp
  ultimately show ?thesis
    by (simp add: ingest_message_def ex_check ex_accepted_def ac_recipients_def replay_if_seen_def
        truthy_str_def or_empty_def scalar_one_or_none_def store_message_def Let_def new_public_id_def
        public_id_prefix_def message_status_value_def)
qed

section \<open>Properties\<close>





text \<open>
  C6 A key is bound to its body: reusing it with a body whose canonical form differs is refused
  with 422 and stores nothing, provided the hash tells the two canonical texts apart.
\<close>

theorem ingest_key_bound_to_body:
  assumes "ingest_message sha256 now ulid rival ttl d p rq (Some k) = Inr (r, d')"
    and "idempotency_ok d" "k \<noteq> []" "\<not> ir_replayed r"
    and "check_request p rq' = Inr a'" "check_suppressions d (ac_recipients a') = Inr ()"
    and "sort_keys (request_payload rq') \<noteq> sort_keys (request_payload rq)"
    and "inj_on sha256 {canonical_json (request_payload rq), canonical_json (request_payload rq')}"
  shows "ingest_message sha256 later ulid' rival' ttl' d' p rq' (Some k) = Inl (key_reused k)"
  using assms(1)
proof (cases rule: ingest_messageE)
  case (replayed a)
  with assms(4) replay_Some_replayed show ?thesis by blast
next
  case (stored a)
  have key: "truthy_str (Some k)" "or_empty (Some k) = k"
    using assms(3) by (simp_all add: truthy_str_def or_empty_def)
  from stored(4) key have w: "suppressions d' = suppressions d"
    "idempotency_keys d' = idempotency_keys d @ [new_key now ttl (next_id d + 3) (next_id d)
       (pc_project_id p) k (request_hash sha256 rq) (new_public_id ulid)]"
    by (auto elim!: store_messageE)
  from stored(3) key have "replay_if_seen d (pc_project_id p) k (request_hash sha256 rq) = Inr None"
    by simp
  note again = replay_after_store [OF assms(2) this w(2)]
  have "canonical_json (request_payload rq') \<noteq> canonical_json (request_payload rq)"
    using assms(7) by (simp add: canonical_json_inj textual_request_payload)
  with assms(8) have "request_hash sha256 rq' \<noteq> request_hash sha256 rq"
    by (auto simp: request_hash_def canonical_request_hash_def)
  moreover have "check_suppressions d' (ac_recipients a') = Inr ()"
    using assms(6) w(1) by (simp add: check_suppressions_Inr_iff suppressed_set_def)
  ultimately show ?thesis using assms(5) key again by (simp add: ingest_message_def)
qed

theorem ingest_key_bound_to_body_witness:
  "\<exists>d'. ingest_message (\<lambda>s. s) 6 ''V'' None 24 d' ex_principal ((ex_request ''u@b.io'')\<lparr>rq_subject := Some ''x''\<rparr>)
     (Some ''k'') = Inl (key_reused ''k'')"
proof -
  let ?rq = "(ex_request ''u@b.io'')\<lparr>rq_subject := Some ''x''\<rparr>"
  have check: "check_request ex_principal ?rq = Inr ((ex_accepted ''u@b.io'')\<lparr>ac_size := 2071\<rparr>)"
  proof -
    have "authorize_sender ex_principal ''no@a.io'' = Inr (None, ex_mailbox)"
      "normalise_recipients [''u@b.io''] ''to'' = Inr [''u@b.io'']"
      "estimated_size_bytes ?rq = 2071" by code_simp+
    then show ?thesis
      by (simp add: check_request_def ex_request_def or_list_def normalise_recipients_def
          ac_total_def max_recipients_def max_message_bytes_def truthy_str_def ex_accepted_def)
  qed
  have quiet: "check_suppressions ex_db [''u@b.io''] = Inr ()" by code_simp
  have differ: "sort_keys (request_payload ?rq) \<noteq> sort_keys (request_payload (ex_request ''u@b.io''))"
    by code_simp
  show ?thesis
    by (intro exI, rule ingest_key_bound_to_body [OF ex_ingest _ _ _ check _ differ])
       (use quiet in \<open>simp_all add: idempotency_ok_def unique_on_def ac_recipients_def ex_accepted_def\<close>)
qed

text \<open>
  The fingerprint does not depend on the order of the keys: two requests that differ only in the
  order of their headers and tags have the same hash.
\<close>

theorem request_hash_key_order:
  assumes "rq_headers rq = Some hs" "mset hs = mset hs'" "distinct (map fst hs)"
    and "rq_tags rq = Some ts" "mset ts = mset ts'" "distinct (map fst ts)"
  shows "request_hash sha256 (rq\<lparr>rq_headers := Some hs', rq_tags := Some ts'\<rparr>) = request_hash sha256 rq"
proof -
  have "sort_keys (json_mapping kvs) = sort_keys (json_mapping kvs')"
    if "mset kvs = mset kvs'" "distinct (map fst kvs)" for kvs kvs' :: "(string \<times> string) list"
  proof -
    let ?f = "\<lambda>(k, v). (k, JStr v)"
    have "sort_key fst (map ?f kvs) = sort_key fst (map ?f kvs')"
      using that by (intro sort_key_fst_perm) (simp_all add: case_prod_unfold comp_def)
    then show ?thesis by (simp add: json_mapping_def case_prod_unfold comp_def)
  qed
  then have "sort_keys (json_mapping hs') = sort_keys (json_mapping hs)"
    "sort_keys (json_mapping ts') = sort_keys (json_mapping ts)"
    using assms by metis+
  with assms(1,4) show ?thesis
    by (simp add: request_hash_def canonical_request_hash_def canonical_json_def request_payload_def
        dumped_def)
qed

theorem request_hash_key_order_witness:
  "request_hash (\<lambda>s. s) ((ex_request ''u@b.io'')\<lparr>rq_headers := Some [(''b'', ''2''), (''a'', ''1'')], rq_tags := Some []\<rparr>)
   = request_hash (\<lambda>s. s) ((ex_request ''u@b.io'')\<lparr>rq_headers := Some [(''a'', ''1''), (''b'', ''2'')], rq_tags := Some []\<rparr>)"
  using request_hash_key_order [of "(ex_request ''u@b.io'')\<lparr>rq_headers := Some [(''a'', ''1''), (''b'', ''2'')], rq_tags := Some []\<rparr>"
      "[(''a'', ''1''), (''b'', ''2'')]" "[(''b'', ''2''), (''a'', ''1'')]" "[]" "[]" "\<lambda>s. s"]
  by simp

section \<open>A suppressed address that is mailed\<close>

text \<open>
  The suppression lookup normalises the already normalised recipients a second time, and the
  normaliser is not idempotent: an address that ends in white space inside its local part is
  stored in one form, looked up in another, and the request to it is accepted.
\<close>

definition odd_address :: string where
  "odd_address = [CHR ''a'', CHR 9, CHR 28] @ ''@x.y''"

lemma suppressed_address_accepted:
  "is_suppressed (ex_db\<lparr>suppressions := [ex_suppression ([CHR ''a'', CHR 9] @ ''@x.y'')]\<rparr>) odd_address = Inr True"
  "normalise_recipients [odd_address] ''to'' = Inr [[CHR ''a'', CHR 9] @ ''@x.y'']"
  "check_suppressions (ex_db\<lparr>suppressions := [ex_suppression ([CHR ''a'', CHR 9] @ ''@x.y'')]\<rparr>)
     [[CHR ''a'', CHR 9] @ ''@x.y''] = Inr ()"
  by code_simp+

end
