(* ===== verification/Worker.thy ===== *)
theory Worker
  imports Claim_Queue Ratelimit Classify Suppressions Delivery Ingest Py_Time
begin

text \<open>
  The delivery worker (emaild/worker.py): the queue primitives, one delivery as its two
  transactions around the SMTP conversation, the outcome handling, heartbeat, maintenance and the
  batch loop.  The clock readings, the jitter, the adapter's answer, rows locked by other workers
  and a rival suppression are inputs.
\<close>

section \<open>Constants and backoff\<close>

definition stale_claim_after :: time where "stale_claim_after = minutes 15"
definition batch_size :: int where "batch_size = 10"
definition max_attempts :: nat where "max_attempts = 8"

definition backoff_seconds :: "int list" where
  "backoff_seconds = [30, 120, 600, 1800, 7200, 21600, 43200, 86400]"

definition backoff_base :: "nat \<Rightarrow> int" where
  "backoff_base attempt =
     (if 0 < attempt then backoff_seconds ! (min attempt (length backoff_seconds) - 1)
      else backoff_seconds ! 0)"

definition backoff_delay :: "rat \<Rightarrow> nat \<Rightarrow> time" where
  "backoff_delay jitter attempt =
     round_half_even (of_int (backoff_base attempt) * jitter * 1000000)"

section \<open>Queue primitives\<close>

definition claimable :: "time \<Rightarrow> message_row \<Rightarrow> bool" where
  "claimable now m = (ms_status m \<in> {Queued, Temporarily_Failed} \<and>
     (case ms_next_attempt_at m of None \<Rightarrow> False | Some t \<Rightarrow> t \<le> now))"

definition claim_order :: "message_row \<Rightarrow> time" where
  "claim_order m = (case ms_next_attempt_at m of None \<Rightarrow> 0 | Some t \<Rightarrow> t)"

definition mark_claimed :: "time \<Rightarrow> string \<Rightarrow> message_row \<Rightarrow> message_row" where
  "mark_claimed now worker_id m =
     m\<lparr>ms_status := Sending, ms_claimed_by := Some worker_id, ms_claimed_at := Some now\<rparr>"

definition claim_messages ::
    "time \<Rightarrow> nat list \<Rightarrow> db \<Rightarrow> string \<Rightarrow> int \<Rightarrow> message_row list \<times> db" where
  "claim_messages now locked d worker_id limit =
     (let ids = pick_ids ms_id claim_order (claimable now) locked limit (messages d)
      in if ids = [] then ([], d)
         else (let t = mark_picked ms_id ids (mark_claimed now worker_id) (messages d)
               in (filter (\<lambda>m. ms_id m \<in> set ids) t, d\<lparr>messages := t\<rparr>)))"

definition release_claim :: "db \<Rightarrow> nat \<Rightarrow> db" where
  "release_claim d message_id =
     d\<lparr>messages := update_where (\<lambda>m. ms_id m = message_id \<and> ms_status m = Sending)
          (\<lambda>m. m\<lparr>ms_status := Queued, ms_claimed_by := None, ms_claimed_at := None\<rparr>) (messages d)\<rparr>"

definition stale :: "time \<Rightarrow> message_row \<Rightarrow> bool" where
  "stale cutoff m = (ms_status m = Sending \<and>
     (case ms_claimed_at m of None \<Rightarrow> False | Some t \<Rightarrow> t < cutoff))"

definition reap_stale_claims :: "time \<Rightarrow> db \<Rightarrow> time \<Rightarrow> nat \<times> db" where
  "reap_stale_claims now d older_than =
     (let cutoff = now - older_than
      in (count_where (stale cutoff) (messages d),
          d\<lparr>messages := update_where (stale cutoff)
              (\<lambda>m. m\<lparr>ms_status := Temporarily_Failed, ms_claimed_by := None, ms_claimed_at := None,
                     ms_next_attempt_at := Some now\<rparr>) (messages d)\<rparr>))"

text \<open>\<open>_emit\<close>: the next sequence number of the message's timeline.\<close>

definition sequences_of :: "nat \<Rightarrow> db \<Rightarrow> nat list" where
  "sequences_of message_id d = map ev_sequence (filter (\<lambda>e. ev_message_id e = message_id) (events d))"

definition emit :: "time \<Rightarrow> nat \<Rightarrow> string \<Rightarrow> json option \<Rightarrow> db \<Rightarrow> db" where
  "emit now message_id event_type detail d =
     d\<lparr>events := events d @
         [\<lparr>ev_id = next_id d, ev_message_id = message_id,
           ev_sequence = fold max (sequences_of message_id d) 0 + 1, ev_event_type = event_type,
           ev_detail = detail, ev_occurred_at = now\<rparr>],
       next_id := Suc (next_id d)\<rparr>"

section \<open>The worker\<close>

text \<open>\<open>wk_cipher\<close> decrypts a stored password, if the worker has a key at all.\<close>

record worker =
  wk_id :: string
  wk_version :: string
  wk_margin :: rat
  wk_retention_hours :: int
  wk_override :: bool
  wk_cipher :: "(string \<Rightarrow> string result) option"
  wk_adapters :: "nat list"
  wk_processed :: nat

definition msg_no_cipher :: string where
  "msg_no_cipher = ''worker requires EMAILD_MAILBOX_ENCRYPTION_KEY to send''"

text \<open>\<open>_adapter_for\<close>: the adapter of a mailbox is made once and kept.\<close>

definition adapter_for :: "worker \<Rightarrow> mailbox_row \<Rightarrow> worker result" where
  "adapter_for w mailbox =
     (if wk_override w then Inr w
      else if mb_id mailbox \<in> set (wk_adapters w) then Inr w
      else (case wk_cipher w of
              None \<Rightarrow> Inl (Runtime_Error msg_no_cipher)
            | Some decrypt \<Rightarrow>
                bind_result (decrypt (mb_password_encrypted mailbox)) (\<lambda>_.
                  Inr (w\<lparr>wk_adapters := wk_adapters w @ [mb_id mailbox]\<rparr>))))"

section \<open>Outcomes\<close>

definition fail_permanently ::
    "time \<Rightarrow> nat \<Rightarrow> int option \<Rightarrow> string \<Rightarrow> bool \<Rightarrow> db \<Rightarrow> db" where
  "fail_permanently now message_id code reason needs_review d =
     emit now message_id ''delivery.failed''
       (Some (JObj [(''reason'', JStr reason), (''code'', json_of_int_option code)]))
       (update_message message_id
          (\<lambda>m. m\<lparr>ms_status := Permanently_Rejected, ms_completed_at := Some now,
                 ms_failure_code := code, ms_provider_response := Some (take 500 reason),
                 ms_needs_review := needs_review, ms_claimed_by := None, ms_claimed_at := None\<rparr>) d)"

definition refused_detail :: "delivery_result \<Rightarrow> json" where
  "refused_detail r =
     JObj (map (\<lambda>(a, c, t). (a, JStr (take 120 (str_of_int c @ '' '' @ t)))) (dr_refused r))"

definition suppress_candidates :: "message_row \<Rightarrow> delivery_result \<Rightarrow> (string \<times> int option \<times> string option) list" where
  "suppress_candidates m r =
     (let candidates = map (\<lambda>(a, c, t). (a, Some c, Some t)) (dr_refused r);
          recipients = ms_to_addresses m @ or_list (ms_cc_addresses m)
      in if candidates = [] \<and> \<not> dr_success r
         then (if length recipients = 1 \<and> or_list (ms_bcc_addresses m) = []
               then [(recipients ! 0, dr_code r, dr_response r)] else candidates)
         else candidates)"

fun suppress_each ::
    "time \<Rightarrow> suppression_row option \<Rightarrow> db \<Rightarrow> message_row \<Rightarrow>
     (string \<times> int option \<times> string option) list \<Rightarrow> db \<Rightarrow> db" where
  "suppress_each now rival d0 m [] d = d"
| "suppress_each now rival d0 m ((address, code, t) # rest) d =
     (if \<not> should_suppress code t (vd_failure_class (classify code t))
      then suppress_each now rival d0 m rest d
      else (case add_suppression now rival d0 d address Bounce (Some (suppression_reason code t))
                   (Some (ms_project_id m)) of
              Inl _ \<Rightarrow> suppress_each now rival d0 m rest d
            | Inr (_, created, d') \<Rightarrow>
                suppress_each now rival d0 m rest
                  (if created
                   then emit now (ms_id m) ''recipient.suppressed''
                          (Some (JObj [(''address'', JStr address), (''code'', json_of_int_option code),
                             (''response'', JStr (take 160 (or_empty t)))])) d'
                   else d')))"

definition suppress_dead_recipients ::
    "time \<Rightarrow> suppression_row option \<Rightarrow> db \<Rightarrow> message_row \<Rightarrow> delivery_result \<Rightarrow> db \<Rightarrow> db" where
  "suppress_dead_recipients now rival d0 m r d =
     suppress_each now rival d0 m (suppress_candidates m r) d"

definition failure_detail :: "nat \<Rightarrow> delivery_result \<Rightarrow> verdict \<Rightarrow> (string \<times> json) list" where
  "failure_detail attempt r v =
     [(''attempt'', JInt (int attempt)), (''code'', json_of_int_option (dr_code r)),
      (''response'', JStr (take 200 (or_empty (dr_response r)))),
      (''class'', JStr (failure_class_value (vd_failure_class v))),
      (''retryable'', JBool (vd_retryable v))]
     @ (if truthy_str (vd_note v) then [(''note'', JStr (or_empty (vd_note v)))] else [])
     @ (if dr_refused r \<noteq> [] then [(''refused'', refused_detail r)] else [])"

definition note_gave_up :: string where
  "note_gave_up = ''gave up after '' @ str_of_nat max_attempts @ '' attempts''"

definition record_failure :: "delivery_result \<Rightarrow> verdict \<Rightarrow> message_row \<Rightarrow> message_row" where
  "record_failure r v m =
     m\<lparr>ms_failure_class := Some (vd_failure_class v), ms_failure_code := dr_code r,
       ms_provider_response := Some (take 500 (or_empty (dr_response r))),
       ms_claimed_by := None, ms_claimed_at := None,
       ms_needs_review := (if vd_needs_review v then True else ms_needs_review m)\<rparr>"

definition apply_failure ::
    "time \<Rightarrow> rat \<Rightarrow> nat \<Rightarrow> delivery_result \<Rightarrow> verdict \<Rightarrow> nat \<Rightarrow> db \<Rightarrow> db" where
  "apply_failure now jitter message_id r v attempt d =
     (let detail = failure_detail attempt r v;
          d = update_message message_id (record_failure r v) d
      in if vd_retryable v \<and> attempt < max_attempts
         then (let delay = backoff_delay jitter attempt
               in emit now message_id ''delivery.deferred''
                    (Some (JObj (detail @ [(''retry_in_seconds'', JInt (py_trunc (of_int delay / 1000000)))])))
                    (update_message message_id
                       (\<lambda>m. m\<lparr>ms_status := Temporarily_Failed, ms_next_attempt_at := Some (now + delay)\<rparr>) d))
         else emit now message_id ''delivery.failed''
                (Some (JObj (if vd_retryable v then dict_put ''note'' (JStr note_gave_up) detail else detail)))
                (update_message message_id
                   (\<lambda>m. m\<lparr>ms_status := Permanently_Rejected, ms_completed_at := Some now,
                          ms_needs_review := (if vd_retryable v then True else ms_needs_review m)\<rparr>) d))"

definition accepted_detail :: "delivery_result \<Rightarrow> (string \<times> json) list" where
  "accepted_detail r =
     [(''code'', json_of_int_option (dr_code r)),
      (''response'', JStr (take 200 (or_empty (dr_response r)))),
      (''accepted'', JInt (int (length (dr_accepted r))))]
     @ (if partial r then [(''refused'', refused_detail r)] else [])"

definition apply_success :: "time \<Rightarrow> nat \<Rightarrow> delivery_result \<Rightarrow> db \<Rightarrow> db" where
  "apply_success now message_id r d =
     (let detail = Some (JObj (accepted_detail r));
          d = update_message message_id
            (\<lambda>m. m\<lparr>ms_status := Accepted_By_Provider, ms_completed_at := Some now,
                   ms_provider_response := Some (take 500 (or_empty (dr_response r))),
                   ms_failure_class := None, ms_failure_code := None, ms_claimed_by := None,
                   ms_claimed_at := None\<rparr>) d;
          d = (if partial r then emit now message_id ''delivery.partial'' detail d else d)
      in emit now message_id ''provider.accepted'' detail d)"

definition record_outcome ::
    "time \<Rightarrow> rat \<Rightarrow> suppression_row option \<Rightarrow> db \<Rightarrow> message_row \<Rightarrow> delivery_result \<Rightarrow> nat \<Rightarrow> db \<Rightarrow> db" where
  "record_outcome now jitter rival d0 m r attempt d =
     suppress_dead_recipients now rival d0 m r
       (if dr_success r then apply_success now (ms_id m) r d
        else apply_failure now jitter (ms_id m) r (classify (dr_code r) (dr_response r)) attempt d)"

section \<open>One delivery\<close>

definition outbound_of :: "message_row \<Rightarrow> mailbox_row \<Rightarrow> outbound" where
  "outbound_of m mailbox =
     \<lparr>ob_public_id = ms_public_id m,
      ob_envelope_from = (if truthy_str (ms_return_path m) then or_empty (ms_return_path m)
                          else mb_address mailbox),
      ob_from_address = ms_from_address m, ob_from_name = ms_from_name m,
      ob_to = ms_to_addresses m, ob_cc = or_list (ms_cc_addresses m),
      ob_bcc = or_list (ms_bcc_addresses m), ob_reply_to = ms_reply_to m,
      ob_subject = ms_subject m, ob_html = ms_body_html m, ob_text = ms_body_text m,
      ob_headers = []\<rparr>"

text \<open>The first transaction ends without a send, or with a message for the wire.\<close>

datatype begun = Gone | Gated | Rejected | Attempt outbound string nat

definition gate_detail :: "budget \<Rightarrow> time \<Rightarrow> json" where
  "gate_detail b opening =
     JObj [(''used'', JInt (bg_used b)), (''our_ceiling'', JInt (bg_ceiling b)),
           (''provider_ceiling'', JInt (bg_provider_ceiling b)), (''retry_at'', JStr (isoformat opening))]"

definition hold_at_gate :: "time \<Rightarrow> nat \<Rightarrow> budget \<Rightarrow> time \<Rightarrow> db \<Rightarrow> db" where
  "hold_at_gate now message_id b opening d =
     emit now message_id ''delivery.rate_gated'' (Some (gate_detail b opening))
       (update_message message_id
          (\<lambda>m. m\<lparr>ms_status := Queued, ms_claimed_by := None, ms_claimed_at := None,
                 ms_next_attempt_at := Some opening\<rparr>) d)"

definition stamp_attempt :: "time \<Rightarrow> message_row \<Rightarrow> string \<Rightarrow> db \<Rightarrow> db" where
  "stamp_attempt now m host d =
     emit now (ms_id m) ''delivery.attempt''
       (Some (JObj [(''attempt'', JInt (int (Suc (ms_attempts m)))), (''host'', JStr host)]))
       (update_message (ms_id m)
          (\<lambda>r. r\<lparr>ms_last_attempt_at := Some now, ms_attempts := Suc (ms_attempts r)\<rparr>) d)"

definition msg_no_host :: string where
  "msg_no_host = ''no SMTP host known for domain''"

definition begin_delivery ::
    "time \<Rightarrow> worker \<Rightarrow> db \<Rightarrow> nat \<Rightarrow> (begun \<times> worker \<times> db) result" where
  "begin_delivery now w d message_id =
     (case message_of d message_id of
        None \<Rightarrow> Inr (Gone, w, d)
      | Some m \<Rightarrow>
     (case mailbox_of d (ms_mailbox_id m) of
        None \<Rightarrow> Inr (Gone, w, d)
      | Some mailbox \<Rightarrow>
     (case domain_of d (mb_domain_id mailbox) of
        None \<Rightarrow> Inr (Gone, w, d)
      | Some dmn \<Rightarrow>
          (let b = current_budget now d mailbox (wk_margin w)
           in if exhausted b
              then Inr (Gated, w, hold_at_gate now message_id b
                     (next_window_opening now d (mb_id mailbox)) d)
              else (case dm_smtp_host dmn of
                      None \<Rightarrow> Inr (Rejected, w, fail_permanently now message_id None msg_no_host True d)
                    | Some host \<Rightarrow>
                        bind_result (adapter_for w mailbox) (\<lambda>w'.
                          Inr (Attempt (outbound_of m mailbox) host (Suc (ms_attempts m)), w',
                               stamp_attempt now m host d)))))))"

text \<open>The second transaction, once the adapter has answered.\<close>

definition finish_delivery ::
    "time \<Rightarrow> rat \<Rightarrow> suppression_row option \<Rightarrow> int \<Rightarrow> db \<Rightarrow> nat \<Rightarrow> delivery_result \<Rightarrow> nat \<Rightarrow> db result" where
  "finish_delivery now jitter rival latency_ms d message_id r attempt =
     (case message_of d message_id of
        None \<Rightarrow> Inl (Lookup_Error ''no such message'')
      | Some m \<Rightarrow>
          Inr (record_outcome now jitter rival d m r attempt
            (update_message message_id (\<lambda>m. m\<lparr>ms_provider_latency_ms := Some latency_ms\<rparr>) d)))"

text \<open>What one delivery meets: the clock at its two ends, the adapter, the jitter, a rival row.\<close>

record delivery_env =
  de_begin_at :: time
  de_send :: "outbound \<Rightarrow> string \<Rightarrow> delivery_result result"
  de_latency_ms :: int
  de_end_at :: time
  de_jitter :: rat
  de_rival :: "suppression_row option"

definition deliver_one ::
    "delivery_env \<Rightarrow> worker \<Rightarrow> db \<Rightarrow> nat \<Rightarrow> exn option \<times> worker \<times> db" where
  "deliver_one e w d message_id =
     (case begin_delivery (de_begin_at e) w d message_id of
        Inl x \<Rightarrow> (Some x, w, d)
      | Inr (Attempt ob host attempt, w', d') \<Rightarrow>
          (case de_send e ob host of
             Inl x \<Rightarrow> (Some x, w', d')
           | Inr r \<Rightarrow>
               (case finish_delivery (de_end_at e) (de_jitter e) (de_rival e) (de_latency_ms e) d'
                       message_id r attempt of
                  Inl x \<Rightarrow> (Some x, w', d')
                | Inr d'' \<Rightarrow> (None, w'\<lparr>wk_processed := Suc (wk_processed w')\<rparr>, d'')))
      | Inr (_, w', d') \<Rightarrow> (None, w', d'))"

section \<open>The batch and the loop\<close>

text \<open>Per claimed message: whether shutdown has been requested by then, and its delivery.\<close>

fun deliver_all ::
    "(nat \<Rightarrow> bool \<times> delivery_env) \<Rightarrow> nat list \<Rightarrow> nat \<Rightarrow> worker \<Rightarrow> db \<Rightarrow>
     exn option \<times> nat \<times> worker \<times> db" where
  "deliver_all env [] processed w d = (None, processed, w, d)"
| "deliver_all env (i # ids) processed w d =
     (if fst (env i) then deliver_all env ids processed w (release_claim d i)
      else (case deliver_one (snd (env i)) w d i of
              (Some x, w', d') \<Rightarrow> (Some x, processed, w', d')
            | (None, w', d') \<Rightarrow> deliver_all env ids (Suc processed) w' d'))"

definition process_batch ::
    "time \<Rightarrow> nat list \<Rightarrow> (nat \<Rightarrow> bool \<times> delivery_env) \<Rightarrow> worker \<Rightarrow> db \<Rightarrow>
     exn option \<times> nat \<times> worker \<times> db" where
  "process_batch now locked env w d =
     (case claim_messages now locked d (wk_id w) batch_size of
        (claimed, d') \<Rightarrow>
          if claimed = [] then (None, 0, w, d')
          else deliver_all env (map ms_id claimed) 0 w d')"

text \<open>The upsert of the liveness row; a failed one is logged and changes nothing.\<close>

definition heartbeat :: "bool \<Rightarrow> time \<Rightarrow> worker \<Rightarrow> db \<Rightarrow> db" where
  "heartbeat fails now w d =
     (if fails then d
      else if \<exists>h \<in> set (worker_heartbeats d). hb_worker_id h = wk_id w
        then d\<lparr>worker_heartbeats := update_where (\<lambda>h. hb_worker_id h = wk_id w)
               (\<lambda>h. h\<lparr>hb_last_seen_at := now, hb_messages_processed := wk_processed w,
                      hb_version := Some (wk_version w)\<rparr>) (worker_heartbeats d)\<rparr>
      else d\<lparr>worker_heartbeats := worker_heartbeats d @
               [\<lparr>hb_id = next_id d, hb_worker_id = wk_id w, hb_version = Some (wk_version w),
                 hb_last_seen_at = now, hb_messages_processed = wk_processed w\<rparr>],
             next_id := Suc (next_id d)\<rparr>)"

definition maintenance :: "time \<Rightarrow> worker \<Rightarrow> db \<Rightarrow> db" where
  "maintenance now w d =
     snd (purge_expired_bodies now (snd (reap_stale_claims now d stale_claim_after)) (wk_retention_hours w))"

text \<open>
  One turn of the main loop.  An exception is logged and the loop goes on; the third component says
  whether the worker waits before the next turn.
\<close>

record turn_env =
  tu_now :: time
  tu_beat_fails :: bool
  tu_locked :: "nat list"
  tu_delivery :: "nat \<Rightarrow> bool \<times> delivery_env"

definition loop_turn :: "turn_env \<Rightarrow> time \<Rightarrow> worker \<Rightarrow> db \<Rightarrow> time \<times> bool \<times> worker \<times> db" where
  "loop_turn t last_maintenance w d =
     (let due = minutes 5 < tu_now t - last_maintenance;
          d1 = (if due then maintenance (tu_now t) w d else d);
          checked = (if due then tu_now t else last_maintenance);
          d2 = heartbeat (tu_beat_fails t) (tu_now t) w d1
      in case process_batch (tu_now t) (tu_locked t) (tu_delivery t) w d2 of
           (failed, processed, w', d') \<Rightarrow> (checked, failed \<noteq> None \<or> processed = 0, w', d'))"

text \<open>The turns up to the one before which shutdown is seen.\<close>

fun worker_loop :: "turn_env list \<Rightarrow> time \<Rightarrow> worker \<Rightarrow> db \<Rightarrow> worker \<times> db" where
  "worker_loop [] last_maintenance w d = (w, d)"
| "worker_loop (t # ts) last_maintenance w d =
     (case loop_turn t last_maintenance w d of
        (checked, _, w', d') \<Rightarrow> worker_loop ts checked w' d')"

end
