(* ===== verification/Queue_Safety.thy ===== *)
theory Queue_Safety
  imports Worker
begin

text \<open>
  What the delivery queue guarantees.  Frame lemmas say which tables an operation touches; the
  relation \<open>queue_step\<close> lets every operation run at any time, in any order and by any number of
  workers, and the invariants hold along all its runs.
\<close>

section \<open>Frames\<close>

lemma emit_frame [simp]:
  "messages (emit now i ty dt d) = messages d" "mailboxes (emit now i ty dt d) = mailboxes d"
  "domains (emit now i ty dt d) = domains d" "suppressions (emit now i ty dt d) = suppressions d"
  "idempotency_keys (emit now i ty dt d) = idempotency_keys d"
  "next_id (emit now i ty dt d) = Suc (next_id d)"
  by (simp_all add: emit_def)

lemma messages_update_message [simp]:
  "messages (update_message i f d) = update_where (\<lambda>m. ms_id m = i) f (messages d)"
  by (simp add: update_message_def)

lemma update_where_compose:
  assumes "\<And>r. P r \<Longrightarrow> P (f r)"
  shows "update_where P g (update_where P f t) = update_where P (g \<circ> f) t"
  using assms by (induction t) auto

lemma add_suppression_frame:
  assumes "add_suppression now rival d0 d a src reason p = Inr (r, created, d')"
  shows "messages d' \<in> {messages d, messages d0}" and "rival = None \<Longrightarrow> messages d' = messages d"
    and "created \<Longrightarrow> messages d' = messages d" and "mailboxes d' \<in> {mailboxes d, mailboxes d0}"
    and "events d' \<in> {events d, events d0}"
    and "next_id d \<le> next_id d' \<or> next_id d' = next_id d0"
  using assms by (auto elim!: add_suppression_cases)

lemma suppress_each_messages:
  "messages (suppress_each now rival d0 m cs d) \<in> {messages d, messages d0}"
proof (induction cs arbitrary: d)
  case Nil
  then show ?case by simp
next
  case (Cons c cs)
  obtain a code t where c: "c = (a, code, t)" by (cases c)
  show ?case
  proof (cases "should_suppress code t (vd_failure_class (classify code t))")
    case False
    with Cons c show ?thesis by simp
  next
    case True
    show ?thesis
    proof (cases "add_suppression now rival d0 d a Bounce (Some (suppression_reason code t)) (Some (ms_project_id m))")
      case (Inl e)
      with True Cons c show ?thesis by simp
    next
      case (Inr x)
      obtain r created d' where x: "x = (r, created, d')" by (cases x)
      from add_suppression_frame(1) [OF Inr [unfolded x]]
      have "messages d' \<in> {messages d, messages d0}" .
      with Cons.IH [of d'] Cons.IH [of "emit now (ms_id m) ''recipient.suppressed''
          (Some (JObj [(''address'', JStr a), (''code'', json_of_int_option code),
             (''response'', JStr (take 160 (or_empty t)))])) d'"]
      show ?thesis using True Inr x c by auto
    qed
  qed
qed

lemma suppress_each_no_rival:
  "messages (suppress_each now None d0 m cs d) = messages d"
proof (induction cs arbitrary: d)
  case Nil
  then show ?case by simp
next
  case (Cons c cs)
  obtain a code t where c: "c = (a, code, t)" by (cases c)
  show ?case
  proof (cases "add_suppression now None d0 d a Bounce (Some (suppression_reason code t)) (Some (ms_project_id m))")
    case (Inl e)
    with Cons c show ?thesis by simp
  next
    case (Inr x)
    obtain r created d' where x: "x = (r, created, d')" by (cases x)
    from add_suppression_frame(2) [OF Inr [unfolded x]] have "messages d' = messages d" by simp
    with Cons Inr x c show ?thesis by simp
  qed
qed

section \<open>What an outcome does to the message\<close>

definition succeeded_row :: "time \<Rightarrow> int \<Rightarrow> delivery_result \<Rightarrow> message_row \<Rightarrow> message_row" where
  "succeeded_row now latency r m =
     m\<lparr>ms_provider_latency_ms := Some latency, ms_status := Accepted_By_Provider,
       ms_completed_at := Some now,
       ms_provider_response := Some (take 500 (or_empty (dr_response r))),
       ms_failure_class := None, ms_failure_code := None, ms_claimed_by := None,
       ms_claimed_at := None\<rparr>"

definition deferred_row :: "time \<Rightarrow> time \<Rightarrow> int \<Rightarrow> delivery_result \<Rightarrow> verdict \<Rightarrow> message_row \<Rightarrow> message_row" where
  "deferred_row now delay latency r v m =
     (record_failure r v (m\<lparr>ms_provider_latency_ms := Some latency\<rparr>))
       \<lparr>ms_status := Temporarily_Failed, ms_next_attempt_at := Some (now + delay)\<rparr>"

definition rejected_row :: "time \<Rightarrow> int \<Rightarrow> delivery_result \<Rightarrow> verdict \<Rightarrow> message_row \<Rightarrow> message_row" where
  "rejected_row now latency r v m =
     (let m = record_failure r v (m\<lparr>ms_provider_latency_ms := Some latency\<rparr>)
      in m\<lparr>ms_status := Permanently_Rejected, ms_completed_at := Some now,
           ms_needs_review := (if vd_retryable v then True else ms_needs_review m)\<rparr>)"

definition outcome_row ::
    "time \<Rightarrow> rat \<Rightarrow> int \<Rightarrow> delivery_result \<Rightarrow> nat \<Rightarrow> message_row \<Rightarrow> message_row" where
  "outcome_row now jitter latency r attempt m =
     (if dr_success r then succeeded_row now latency r m
      else (let v = classify (dr_code r) (dr_response r)
            in if vd_retryable v \<and> attempt < max_attempts
               then deferred_row now (backoff_delay jitter attempt) latency r v m
               else rejected_row now latency r v m))"

lemma apply_success_messages:
  "messages (apply_success now i r d) = update_where (\<lambda>m. ms_id m = i)
     (\<lambda>m. m\<lparr>ms_status := Accepted_By_Provider, ms_completed_at := Some now,
            ms_provider_response := Some (take 500 (or_empty (dr_response r))),
            ms_failure_class := None, ms_failure_code := None, ms_claimed_by := None,
            ms_claimed_at := None\<rparr>) (messages d)"
  by (simp add: apply_success_def Let_def)

lemma apply_failure_messages:
  "messages (apply_failure now jitter i r v attempt d) =
     (if vd_retryable v \<and> attempt < max_attempts
      then update_where (\<lambda>m. ms_id m = i)
             (\<lambda>m. m\<lparr>ms_status := Temporarily_Failed, ms_next_attempt_at := Some (now + backoff_delay jitter attempt)\<rparr>)
             (update_where (\<lambda>m. ms_id m = i) (record_failure r v) (messages d))
      else update_where (\<lambda>m. ms_id m = i)
             (\<lambda>m. m\<lparr>ms_status := Permanently_Rejected, ms_completed_at := Some now,
                    ms_needs_review := (if vd_retryable v then True else ms_needs_review m)\<rparr>)
             (update_where (\<lambda>m. ms_id m = i) (record_failure r v) (messages d)))"
  by (simp add: apply_failure_def Let_def)

lemma record_failure_id [simp]: "ms_id (record_failure r v m) = ms_id m"
  by (simp add: record_failure_def)

lemma outcome_messages:
  "messages (if dr_success r then apply_success now i r (update_message i (\<lambda>m. m\<lparr>ms_provider_latency_ms := Some l\<rparr>) d)
     else apply_failure now jitter i r (classify (dr_code r) (dr_response r)) attempt
            (update_message i (\<lambda>m. m\<lparr>ms_provider_latency_ms := Some l\<rparr>) d))
   = update_where (\<lambda>m. ms_id m = i) (outcome_row now jitter l r attempt) (messages d)"
proof (cases "dr_success r")
  case True
  then show ?thesis
    by (simp add: apply_success_messages update_where_compose comp_def outcome_row_def [abs_def]
        succeeded_row_def [abs_def])
next
  case False
  then show ?thesis
    by (cases "vd_retryable (classify (dr_code r) (dr_response r)) \<and> attempt < max_attempts")
       (auto simp: apply_failure_messages update_where_compose comp_def outcome_row_def [abs_def]
         deferred_row_def [abs_def] rejected_row_def [abs_def] Let_def)
qed

lemma finish_delivery_messages:
  assumes "finish_delivery now jitter rival l d i r attempt = Inr d'"
  shows "messages d' \<in> {messages d, update_where (\<lambda>m. ms_id m = i) (outcome_row now jitter l r attempt) (messages d)}"
    and "rival = None \<Longrightarrow>
      messages d' = update_where (\<lambda>m. ms_id m = i) (outcome_row now jitter l r attempt) (messages d)"
proof -
  from assms obtain m where m: "message_of d i = Some m" "d' = record_outcome now jitter rival d m r attempt
      (update_message i (\<lambda>m. m\<lparr>ms_provider_latency_ms := Some l\<rparr>) d)"
    by (auto simp: finish_delivery_def split: option.splits)
  from m(1) have i: "ms_id m = i" using message_of_SomeD by blast
  let ?d = "if dr_success r then apply_success now i r (update_message i (\<lambda>m. m\<lparr>ms_provider_latency_ms := Some l\<rparr>) d)
     else apply_failure now jitter i r (classify (dr_code r) (dr_response r)) attempt
            (update_message i (\<lambda>m. m\<lparr>ms_provider_latency_ms := Some l\<rparr>) d)"
  have d': "d' = suppress_each now rival d m (suppress_candidates m r) ?d"
    using m(2) i by (simp add: record_outcome_def suppress_dead_recipients_def)
  show "messages d' \<in> {messages d, update_where (\<lambda>m. ms_id m = i) (outcome_row now jitter l r attempt) (messages d)}"
    using suppress_each_messages [of now rival d m "suppress_candidates m r" ?d]
    unfolding d' outcome_messages by blast
  show "messages d' = update_where (\<lambda>m. ms_id m = i) (outcome_row now jitter l r attempt) (messages d)"
    if "rival = None"
    unfolding d' that suppress_each_no_rival outcome_messages ..
qed

section \<open>What the first transaction does\<close>

definition stamped :: "time \<Rightarrow> message_row \<Rightarrow> message_row" where
  "stamped now r = r\<lparr>ms_last_attempt_at := Some now, ms_attempts := Suc (ms_attempts r)\<rparr>"

definition held_row :: "time \<Rightarrow> message_row \<Rightarrow> message_row" where
  "held_row opening m = m\<lparr>ms_status := Queued, ms_claimed_by := None, ms_claimed_at := None,
     ms_next_attempt_at := Some opening\<rparr>"

definition unroutable_row :: "time \<Rightarrow> message_row \<Rightarrow> message_row" where
  "unroutable_row now m = m\<lparr>ms_status := Permanently_Rejected, ms_completed_at := Some now,
     ms_failure_code := None, ms_provider_response := Some (take 500 msg_no_host),
     ms_needs_review := True, ms_claimed_by := None, ms_claimed_at := None\<rparr>"

lemma begin_deliveryE:
  assumes "begin_delivery now w d i = Inr (b, w', d')"
  obtains
    (gone) "b = Gone" "d' = d" "w' = w"
  | (gated) m mailbox where "b = Gated" "message_of d i = Some m"
      "mailbox_of d (ms_mailbox_id m) = Some mailbox"
      "exhausted (current_budget now d mailbox (wk_margin w))"
      "messages d' = update_where (\<lambda>m. ms_id m = i)
         (held_row (next_window_opening now d (mb_id mailbox))) (messages d)"
  | (rejected) "b = Rejected"
      "messages d' = update_where (\<lambda>m. ms_id m = i) (unroutable_row now) (messages d)"
  | (attempt) m mailbox host where "b = Attempt (outbound_of m mailbox) host (Suc (ms_attempts m))"
      "message_of d i = Some m" "mailbox_of d (ms_mailbox_id m) = Some mailbox"
      "\<not> exhausted (current_budget now d mailbox (wk_margin w))"
      "messages d' = update_where (\<lambda>m. ms_id m = i) (stamped now) (messages d)"
      "d' = stamp_attempt now m host d"
proof (cases "message_of d i")
  case None
  with assms show thesis by (intro gone) (simp_all add: begin_delivery_def)
next
  case m: (Some m)
  then have i: "ms_id m = i" using message_of_SomeD by blast
  show thesis
  proof (cases "mailbox_of d (ms_mailbox_id m)")
    case None
    with assms m show thesis by (intro gone) (simp_all add: begin_delivery_def)
  next
    case mb: (Some mailbox)
    show thesis
    proof (cases "domain_of d (mb_domain_id mailbox)")
      case None
      with assms m mb show thesis by (intro gone) (simp_all add: begin_delivery_def)
    next
      case dmn: (Some dmn)
      show thesis
      proof (cases "exhausted (current_budget now d mailbox (wk_margin w))")
        case True
        with assms m mb dmn show thesis
          by (intro gated) (auto simp: begin_delivery_def Let_def hold_at_gate_def held_row_def [abs_def])
      next
        case False
        show thesis
        proof (cases "dm_smtp_host dmn")
          case None
          with False assms m mb dmn show thesis
            by (intro rejected) (auto simp: begin_delivery_def Let_def fail_permanently_def
                unroutable_row_def [abs_def])
        next
          case (Some host)
          with False assms m mb dmn i show thesis
            by (intro attempt [of m mailbox host])
               (auto simp: begin_delivery_def Let_def bind_result_eq_Inr stamp_attempt_def
                 stamped_def [abs_def])
        qed
      qed
    qed
  qed
qed

section \<open>The state of one message\<close>

text \<open>
  A message being sent carries its claim, any other carries none; every message has a time at which
  it is next due; a message with a final outcome has its completion time.
\<close>

definition message_ok :: "message_row \<Rightarrow> bool" where
  "message_ok m \<longleftrightarrow>
     (ms_status m = Sending \<longleftrightarrow> ms_claimed_at m \<noteq> None) \<and>
     (ms_claimed_at m \<noteq> None \<longleftrightarrow> ms_claimed_by m \<noteq> None) \<and>
     ms_next_attempt_at m \<noteq> None \<and>
     (ms_status m \<in> {Accepted_By_Provider, Permanently_Rejected} \<longrightarrow> ms_completed_at m \<noteq> None)"

definition queue_ok :: "db \<Rightarrow> bool" where
  "queue_ok d \<longleftrightarrow> unique_on ms_id (messages d) \<and> ids_below ms_id (next_id d) (messages d) \<and>
     list_all message_ok (messages d)"

text \<open>What no operation of the queue changes.\<close>

definition identity_of :: "message_row \<Rightarrow> nat \<times> string \<times> nat \<times> nat \<times> string list" where
  "identity_of m = (ms_id m, ms_public_id m, ms_project_id m, ms_mailbox_id m, ms_to_addresses m)"

lemma row_frames [simp]:
  "identity_of (stamped now m) = identity_of m" "identity_of (held_row t m) = identity_of m"
  "identity_of (unroutable_row now m) = identity_of m"
  "identity_of (outcome_row now j l r n m) = identity_of m"
  "identity_of (mark_claimed now w m) = identity_of m" "identity_of (purge_body now m) = identity_of m"
  by (simp_all add: identity_of_def stamped_def held_row_def unroutable_row_def outcome_row_def Let_def
      succeeded_row_def deferred_row_def rejected_row_def record_failure_def mark_claimed_def
      purge_body_def)

lemma row_ids [simp]:
  "ms_id (stamped now m) = ms_id m" "ms_id (held_row t m) = ms_id m"
  "ms_id (unroutable_row now m) = ms_id m" "ms_id (outcome_row now j l r n m) = ms_id m"
  "ms_id (mark_claimed now w m) = ms_id m" "ms_id (purge_body now m) = ms_id m"
  using row_frames by (simp_all add: identity_of_def)

lemma row_ok:
  "message_ok m \<Longrightarrow> message_ok (stamped now m)" "message_ok (held_row t m)"
  "message_ok m \<Longrightarrow> message_ok (unroutable_row now m)"
  "message_ok m \<Longrightarrow> message_ok (outcome_row now j l r n m)"
  "message_ok m \<Longrightarrow> message_ok (mark_claimed now w m)"
  "message_ok m \<Longrightarrow> message_ok (purge_body now m)"
  by (simp_all add: message_ok_def stamped_def held_row_def unroutable_row_def outcome_row_def Let_def
      succeeded_row_def deferred_row_def rejected_row_def record_failure_def mark_claimed_def
      purge_body_def)

lemma queue_ok_update:
  assumes "queue_ok d" "messages d' = update_where P f (messages d)" "next_id d \<le> next_id d'"
    and "\<And>m. P m \<Longrightarrow> ms_id (f m) = ms_id m" "\<And>m. P m \<Longrightarrow> message_ok m \<Longrightarrow> message_ok (f m)"
  shows "queue_ok d'"
  unfolding queue_ok_def
proof (intro conjI)
  show "unique_on ms_id (messages d')"
    using assms(1,2,4) by (simp add: queue_ok_def unique_on_update_where)
  show "ids_below ms_id (next_id d') (messages d')"
    using assms(1-4) ids_below_mono by (auto simp: queue_ok_def ids_below_update)
  show "list_all message_ok (messages d')"
    using assms(1,2,5) by (auto simp: queue_ok_def list_all_iff set_update_where)
qed

section \<open>Every interleaving\<close>

text \<open>
  The system: the clock, the database, the ids workers have claimed and not yet begun, and the
  deliveries on the wire with their attempt number.  With \<open>timely\<close>, the reaper never finds a claim
  that a worker still holds: every worker finishes or releases a claim within the fifteen minutes.  All workers run with the same
  safety \<open>margin\<close>.
\<close>

record sys =
  sy_now :: time
  sy_db :: db
  sy_held :: "nat list"
  sy_flight :: "(nat \<times> nat) list"

inductive queue_step :: "bool \<Rightarrow> rat \<Rightarrow> sys \<Rightarrow> sys \<Rightarrow> bool" for timely :: bool and margin :: rat where
  tick: "sy_now s \<le> t \<Longrightarrow> queue_step timely margin s (s\<lparr>sy_now := t\<rparr>)"
| ingest: "ingest_message sha256 (sy_now s) ulid rival ttl (sy_db s) p rq key = Inr (r, d') \<Longrightarrow>
    queue_step timely margin s (s\<lparr>sy_db := d'\<rparr>)"
| claim: "claim_messages (sy_now s) locked (sy_db s) w limit = (ms, d') \<Longrightarrow>
    queue_step timely margin s (s\<lparr>sy_db := d', sy_held := sy_held s @ map ms_id ms\<rparr>)"
| release: "i \<in> set (sy_held s) \<Longrightarrow>
    queue_step timely margin s (s\<lparr>sy_db := release_claim (sy_db s) i, sy_held := removeAll i (sy_held s)\<rparr>)"
| start: "i \<in> set (sy_held s) \<Longrightarrow> wk_margin w = margin \<Longrightarrow> begin_delivery (sy_now s) w (sy_db s) i = Inr (b, w', d') \<Longrightarrow>
    queue_step timely margin s (s\<lparr>sy_db := d', sy_held := removeAll i (sy_held s),
      sy_flight := (case b of Attempt _ _ n \<Rightarrow> [(i, n)] | _ \<Rightarrow> []) @ sy_flight s\<rparr>)"
| finish: "(i, n) \<in> set (sy_flight s) \<Longrightarrow>
    finish_delivery (sy_now s) j rival l (sy_db s) i r n = Inr d' \<Longrightarrow>
    queue_step timely margin s (s\<lparr>sy_db := d', sy_flight := removeAll (i, n) (sy_flight s)\<rparr>)"
| crash: "set held \<subseteq> set (sy_held s) \<Longrightarrow> set flight \<subseteq> set (sy_flight s) \<Longrightarrow>
    distinct held \<Longrightarrow> distinct flight \<Longrightarrow>
    queue_step timely margin s (s\<lparr>sy_held := held, sy_flight := flight\<rparr>)"
| reap: "(timely \<Longrightarrow> \<forall>m \<in> set (messages (sy_db s)). stale (sy_now s - stale_claim_after) m \<longrightarrow>
      ms_id m \<notin> set (sy_held s) \<union> fst ` set (sy_flight s)) \<Longrightarrow>
    queue_step timely margin s (s\<lparr>sy_db := snd (reap_stale_claims (sy_now s) (sy_db s) stale_claim_after)\<rparr>)"
| purge: "queue_step timely margin s (s\<lparr>sy_db := snd (purge_expired_bodies (sy_now s) (sy_db s) retention)\<rparr>)"
| other: "messages d' = messages (sy_db s) \<Longrightarrow> mailboxes d' = mailboxes (sy_db s) \<Longrightarrow>
    events d' = events (sy_db s) \<Longrightarrow> next_id (sy_db s) \<le> next_id d' \<Longrightarrow>
    queue_step timely margin s (s\<lparr>sy_db := d'\<rparr>)"

lemma claim_messages_eq:
  assumes "claim_messages now locked d w limit = (ms, d')"
  defines "ids \<equiv> pick_ids ms_id claim_order (claimable now) locked limit (messages d)"
  shows "messages d' = mark_picked ms_id ids (mark_claimed now w) (messages d)"
    and "set (map ms_id ms) = set ids" and "d' = d\<lparr>messages := messages d'\<rparr>"
    and "ms = filter (\<lambda>m. ms_id m \<in> set ids) (messages d')"
proof -
  have none: "mark_picked ms_id [] f t = t" for f and t :: "message_row table"
    by (simp add: mark_picked_def update_where_none)
  have run: "(if ids = [] then ([], d)
      else (filter (\<lambda>m. ms_id m \<in> set ids) (mark_picked ms_id ids (mark_claimed now w) (messages d)),
        d\<lparr>messages := mark_picked ms_id ids (mark_claimed now w) (messages d)\<rparr>)) = (ms, d')"
    using assms(1) unfolding claim_messages_def ids_def Let_def .
  show eq: "messages d' = mark_picked ms_id ids (mark_claimed now w) (messages d)"
    using run none by (auto split: if_splits)
  show ms: "ms = filter (\<lambda>m. ms_id m \<in> set ids) (messages d')"
    using run by (auto split: if_splits)
  show "d' = d\<lparr>messages := messages d'\<rparr>"
    using run by (auto split: if_splits)
  have keys: "ms_id ` set (messages d') = ms_id ` set (messages d)"
  proof -
    have "map ms_id (messages d') = map ms_id (messages d)"
      unfolding eq mark_picked_def by (rule map_update_where) simp
    then show ?thesis by (metis list.set_map)
  qed
  have "set ids \<subseteq> ms_id ` set (messages d)"
    unfolding ids_def by (rule subset_trans [OF set_pick_ids]) auto
  then show "set (map ms_id ms) = set ids" unfolding ms using keys by auto
qed

lemma suppress_each_next_id:
  "next_id d0 \<le> next_id d \<Longrightarrow> next_id d0 \<le> next_id (suppress_each now rival d0 m cs d)"
proof (induction cs arbitrary: d)
  case Nil
  then show ?case by simp
next
  case (Cons c cs)
  obtain a code t where c: "c = (a, code, t)" by (cases c)
  show ?case
  proof (cases "add_suppression now rival d0 d a Bounce (Some (suppression_reason code t)) (Some (ms_project_id m))")
    case (Inl e)
    with Cons c show ?thesis by simp
  next
    case (Inr x)
    obtain r created d' where x: "x = (r, created, d')" by (cases x)
    from add_suppression_frame(6) [OF Inr [unfolded x]] Cons.prems have "next_id d0 \<le> next_id d'" by auto
    with Cons Inr x c show ?thesis by simp
  qed
qed

lemma next_id_update_message [simp]: "next_id (update_message i f d) = next_id d"
  by simp

lemma finish_next_id:
  assumes "finish_delivery now j rival l d i r n = Inr d'"
  shows "next_id d \<le> next_id d'"
  using assms
  by (auto simp: finish_delivery_def record_outcome_def suppress_dead_recipients_def apply_success_def
      apply_failure_def Let_def intro!: suppress_each_next_id split: option.splits)

lemma begin_next_id:
  assumes "begin_delivery now w d i = Inr (b, w', d')"
  shows "next_id d \<le> next_id d'"
  using assms
  by (auto simp: begin_delivery_def bind_result_eq_Inr Let_def hold_at_gate_def fail_permanently_def
      stamp_attempt_def split: option.splits if_splits)

lemma ingest_messages:
  assumes "ingest_message sha256 now ulid rival ttl d p rq key = Inr (r, d')"
  shows "d' = d \<or> (\<exists>a. messages d' = messages d @ [new_message now (new_public_id ulid) (next_id d) p rq a]
      \<and> next_id d < next_id d')"
  using assms by (cases rule: ingest_messageE) (auto elim!: store_messageE)

definition harmless :: "(message_row \<Rightarrow> bool) \<Rightarrow> (message_row \<Rightarrow> message_row) \<Rightarrow> bool" where
  "harmless P f \<longleftrightarrow> (\<forall>m. P m \<longrightarrow> identity_of (f m) = identity_of m \<and>
     ms_last_attempt_at (f m) = ms_last_attempt_at m \<and> (message_ok m \<longrightarrow> message_ok (f m)))"

lemma row_attempts:
  "ms_last_attempt_at (held_row t m) = ms_last_attempt_at m"
  "ms_last_attempt_at (unroutable_row now m) = ms_last_attempt_at m"
  "ms_last_attempt_at (outcome_row now j l r n m) = ms_last_attempt_at m"
  "ms_last_attempt_at (mark_claimed now w m) = ms_last_attempt_at m"
  "ms_last_attempt_at (purge_body now m) = ms_last_attempt_at m"
  by (simp_all add: held_row_def unroutable_row_def outcome_row_def Let_def succeeded_row_def
      deferred_row_def rejected_row_def record_failure_def mark_claimed_def purge_body_def)

lemma harmless_id: "harmless P (\<lambda>m. m)"
  by (simp add: harmless_def)

lemma harmless_intros:
  "harmless P (held_row t)" "harmless P (unroutable_row now)"
  "harmless P (outcome_row now j l r n)" "harmless P (mark_claimed now w)" "harmless P (purge_body now)"
  by (simp_all add: harmless_def row_ok row_attempts)

lemma harmless_release:
  "harmless P (\<lambda>m. m\<lparr>ms_status := Queued, ms_claimed_by := None, ms_claimed_at := None\<rparr>)"
  "harmless P (\<lambda>m. m\<lparr>ms_status := Temporarily_Failed, ms_claimed_by := None, ms_claimed_at := None,
     ms_next_attempt_at := Some now\<rparr>)"
  by (simp_all add: harmless_def message_ok_def identity_of_def)

lemma update_where_id: "update_where P (\<lambda>m. m) t = t"
  by (induction t) auto

lemma queue_step_messages:
  assumes "queue_step timely margin s s'"
  obtains
    (updated) P f where "messages (sy_db s') = update_where P f (messages (sy_db s))" "harmless P f"
      "next_id (sy_db s) \<le> next_id (sy_db s')"
  | (appended) now public_id p rq a where
      "messages (sy_db s') = messages (sy_db s) @ [new_message now public_id (next_id (sy_db s)) p rq a]"
      "next_id (sy_db s) < next_id (sy_db s')"
  | (attempted) k m mailbox where
      "messages (sy_db s') = update_where (\<lambda>m. ms_id m = k) (stamped (sy_now s)) (messages (sy_db s))"
      "next_id (sy_db s) \<le> next_id (sy_db s')" "message_of (sy_db s) k = Some m"
      "mailbox_of (sy_db s) (ms_mailbox_id m) = Some mailbox"
      "\<not> exhausted (current_budget (sy_now s) (sy_db s) mailbox margin)" "sy_now s' = sy_now s"
  using assms
proof cases
  case (tick t)
  then show thesis using updated [of "\<lambda>_. False" "\<lambda>m. m"] by (simp add: update_where_id harmless_id)
next
  case (ingest sha256 ulid rival ttl p rq key r d')
  from ingest_messages [OF ingest(2)] show thesis
  proof
    assume "d' = sy_db s"
    with ingest(1) show thesis
      using updated [of "\<lambda>_. False" "\<lambda>m. m"] by (simp add: update_where_id harmless_id)
  next
    assume "\<exists>a. messages d' = messages (sy_db s) @ [new_message (sy_now s) (new_public_id ulid) (next_id (sy_db s)) p rq a]
      \<and> next_id (sy_db s) < next_id d'"
    with ingest(1) appended show thesis by auto
  qed
next
  case (claim locked w limit ms d')
  note eq = claim_messages_eq [OF claim(2)]
  have "next_id d' = next_id (sy_db s)" by (subst eq(3)) simp
  with claim(1) eq(1) show thesis
    by (intro updated) (auto simp: mark_picked_def harmless_intros)
next
  case (release i)
  then show thesis by (intro updated) (auto simp: release_claim_def harmless_release)
next
  case (start i w b w' d')
  have "next_id (sy_db s) \<le> next_id d'" using start(4) by (rule begin_next_id)
  from start(4) show thesis
  proof (cases rule: begin_deliveryE)
    case gone
    with start(1) show thesis
      using updated [of "\<lambda>_. False" "\<lambda>m. m"] by (simp add: update_where_id harmless_id)
  next
    case (attempt m mailbox host)
    with start(1,3) \<open>next_id (sy_db s) \<le> next_id d'\<close> show thesis
      by (intro attempted [of i m mailbox]) simp_all
  qed (use start(1) \<open>next_id (sy_db s) \<le> next_id d'\<close> updated harmless_intros in auto)
next
  case (finish i n j rival l r d')
  have n: "next_id (sy_db s) \<le> next_id d'" using finish(3) by (rule finish_next_id)
  from finish_delivery_messages(1) [OF finish(3)]
  have "\<exists>f. harmless (\<lambda>m. ms_id m = i) f \<and> messages d' = update_where (\<lambda>m. ms_id m = i) f (messages (sy_db s))"
    using harmless_intros(3) harmless_id update_where_id by (metis insertE singletonD)
  with finish(1) n updated show thesis by auto
next
  case (crash held flight)
  then show thesis using updated [of "\<lambda>_. False" "\<lambda>m. m"] by (simp add: update_where_id harmless_id)
next
  case reap
  then show thesis by (intro updated) (auto simp: reap_stale_claims_def Let_def harmless_release)
next
  case (purge retention)
  then show thesis
    by (intro updated) (auto simp: purge_expired_bodies_def Let_def harmless_intros)
next
  case (other d')
  then show thesis using updated [of "\<lambda>_. False" "\<lambda>m. m"] by (simp add: update_where_id harmless_id)
qed

lemma new_message_sel [simp]:
  "ms_id (new_message now pid i p rq a) = i" "ms_status (new_message now pid i p rq a) = Queued"
  "message_ok (new_message now pid i p rq a)"
  "ms_last_attempt_at (new_message now pid i p rq a) = None"
  by (simp_all add: new_message_def message_ok_def)

lemma queue_ok_step:
  assumes "queue_step timely margin s s'" "queue_ok (sy_db s)"
  shows "queue_ok (sy_db s')"
  using assms(1)
proof (cases rule: queue_step_messages)
  case (updated P f)
  show ?thesis
    by (rule queue_ok_update [OF assms(2) updated(1,3)])
       (use updated(2) in \<open>auto simp: harmless_def identity_of_def\<close>)
next
  case (attempted k m mailbox)
  show ?thesis by (rule queue_ok_update [OF assms(2) attempted(1,2)]) (simp_all add: row_ok)
next
  case (appended now public_id p rq a)
  moreover from assms(2) have "ids_below ms_id (next_id (sy_db s')) (messages (sy_db s))"
    using appended(2)
      ids_below_mono [of ms_id "next_id (sy_db s)" "messages (sy_db s)" "next_id (sy_db s')"]
    by (simp add: queue_ok_def)
  ultimately show ?thesis
    using assms(2) ids_below_fresh [of ms_id "next_id (sy_db s)" "messages (sy_db s)"]
    by (auto simp: queue_ok_def unique_on_append ids_below_append)
qed

lemma identities_step:
  assumes "queue_step timely margin s s'"
  shows "set (map identity_of (messages (sy_db s))) \<subseteq> set (map identity_of (messages (sy_db s')))"
  using assms
proof (cases rule: queue_step_messages)
  case (updated P f)
  then have "map identity_of (messages (sy_db s')) = map identity_of (messages (sy_db s))"
    by (simp add: map_update_where harmless_def)
  then show ?thesis by simp
next
  case (attempted k m mailbox)
  then have "map identity_of (messages (sy_db s')) = map identity_of (messages (sy_db s))"
    by (simp add: map_update_where)
  then show ?thesis by simp
next
  case (appended now public_id p rq a)
  then show ?thesis by auto
qed

section \<open>Properties: nothing is lost, nothing is handed out twice\<close>

text \<open>
  C1 No message is ever lost: whatever the workers, the reaper, the retention job and the API do and
  in whichever order, crashes included, every message keeps its row with its id, project, sender
  and recipients, a message that is being sent carries the claim the reaper looks for, and every
  other unfinished message has the time at which it is next due.
\<close>

theorem no_message_lost:
  assumes "(queue_step timely margin)\<^sup>*\<^sup>* s s'" "queue_ok (sy_db s)"
  shows "queue_ok (sy_db s') \<and>
    set (map identity_of (messages (sy_db s))) \<subseteq> set (map identity_of (messages (sy_db s')))"
  using assms(1)
proof (induction rule: rtranclp_induct)
  case base
  with assms(2) show ?case by simp
next
  case (step s1 s2)
  with queue_ok_step [OF step(2)] identities_step [OF step(2)] show ?case by blast
qed

definition ex_sys :: sys where
  "ex_sys = \<lparr>sy_now = 0, sy_db = ex_db, sy_held = [], sy_flight = []\<rparr>"

lemma ex_sys_sel [simp]:
  "sy_now ex_sys = 0" "sy_db ex_sys = ex_db" "sy_held ex_sys = []" "sy_flight ex_sys = []"
  by (simp_all add: ex_sys_def)

lemma ex_queue_ok: "queue_ok ex_db"
  by (simp add: queue_ok_def unique_on_def message_ok_def)

definition ex_claimed :: db where
  "ex_claimed = ex_db\<lparr>messages := [mark_claimed 0 ''w'' ex_message]\<rparr>"

lemma ex_claim_run:
  "claim_messages 0 [] ex_db ''w'' 10 = ([mark_claimed 0 ''w'' ex_message], ex_claimed)"
  by (simp add: claim_messages_def pick_ids_def mark_picked_def claimable_def Let_def ex_claimed_def)

lemma ex_claim: "queue_step timely margin ex_sys (ex_sys\<lparr>sy_db := ex_claimed, sy_held := [6]\<rparr>)"
  using queue_step.claim [where s = ex_sys and locked = "[]" and w = "''w''" and limit = 10, simplified, OF ex_claim_run]
  by simp

theorem no_message_lost_witness:
  "queue_ok ex_claimed \<and> set (map identity_of (messages ex_db)) \<subseteq> set (map identity_of (messages ex_claimed))"
  using no_message_lost [OF r_into_rtranclp [of "queue_step True 1", OF ex_claim]] ex_queue_ok by simp

text \<open>
  C7 Every unfinished message becomes available again: once its claim, if any, is older than the
  fifteen minutes and its next attempt is due, the reaper followed by a claim with room for the
  due messages hands it out, unless another worker has its row locked at that instant.
\<close>

theorem unfinished_message_comes_back:
  assumes "queue_ok d" "m \<in> set (messages d)" "\<not> terminal (ms_status m)"
    and "\<And>t. ms_claimed_at m = Some t \<Longrightarrow> t < now - stale_claim_after"
    and "\<And>t. ms_next_attempt_at m = Some t \<Longrightarrow> t \<le> now"
    and "d' = snd (reap_stale_claims now d stale_claim_after)"
    and "ms_id m \<notin> set locked" "int (count_where (claimable now) (messages d')) \<le> limit"
  shows "ms_id m \<in> set (map ms_id (fst (claim_messages now locked d' w limit)))"
proof -
  let ?f = "\<lambda>m. m\<lparr>ms_status := Temporarily_Failed, ms_claimed_by := None, ms_claimed_at := None,
                     ms_next_attempt_at := Some now\<rparr>"
  let ?cutoff = "now - stale_claim_after"
  have d': "messages d' = update_where (stale ?cutoff) ?f (messages d)"
    using assms(6) by (simp add: reap_stale_claims_def Let_def)
  define m' where "m' = (if stale ?cutoff m then ?f m else m)"
  have m': "m' \<in> set (messages d')" "ms_id m' = ms_id m"
    using assms(2) by (auto simp: d' set_update_where m'_def)
  have ok: "message_ok m" using assms(1,2) by (auto simp: queue_ok_def list_all_iff)
  have "claimable now m'"
  proof (cases "ms_status m = Sending")
    case True
    with ok assms(4) have "stale ?cutoff m" by (auto simp: message_ok_def stale_def)
    then show ?thesis by (simp add: m'_def claimable_def)
  next
    case False
    then have "m' = m" by (simp add: m'_def stale_def)
    moreover have "ms_status m \<in> {Queued, Temporarily_Failed}"
      using False assms(3) by (cases "ms_status m") (simp_all add: terminal_statuses_def)
    moreover have "\<exists>t \<le> now. ms_next_attempt_at m = Some t"
      using ok assms(5) by (auto simp: message_ok_def)
    ultimately show ?thesis by (auto simp: claimable_def)
  qed
  moreover have "count_where (claimable now) (messages d') \<le> nat limit" using assms(8) by simp
  ultimately have "ms_id m \<in> set (pick_ids ms_id claim_order (claimable now) locked limit (messages d'))"
    using pick_ids_all [of "claimable now" "messages d'" limit m' ms_id locked] m' assms(7) by simp
  moreover obtain ms d'' where run: "claim_messages now locked d' w limit = (ms, d'')" by fastforce
  ultimately show ?thesis using claim_messages_eq(2) [OF run] by simp
qed

theorem unfinished_message_comes_back_witness:
  "6 \<in> set (map ms_id (fst (claim_messages (minutes 16) [] (snd (reap_stale_claims (minutes 16) ex_claimed stale_claim_after)) ''v'' 10)))"
proof -
  have "mark_claimed 0 ''w'' ex_message \<in> set (messages ex_claimed)" by (simp add: ex_claimed_def)
  moreover have "queue_ok ex_claimed"
    using ex_queue_ok by (simp add: queue_ok_def ex_claimed_def unique_on_def row_ok)
  moreover have "int (count_where (claimable (minutes 16)) (messages (snd (reap_stale_claims (minutes 16) ex_claimed stale_claim_after)))) \<le> 10"
    by (simp add: reap_stale_claims_def ex_claimed_def Let_def)
  ultimately show ?thesis
    using unfinished_message_comes_back [of ex_claimed "mark_claimed 0 ''w'' ex_message" "minutes 16"
        "snd (reap_stale_claims (minutes 16) ex_claimed stale_claim_after)" "[]" 10 "''v''"]
    by (simp add: mark_claimed_def terminal_statuses_def minutes_def seconds_def stale_claim_after_def)
qed

interpretation message_claims: claim_queue ms_id claim_order claimable mark_claimed
  by unfold_locales (simp_all add: mark_claimed_def claimable_def)

text \<open>
  Claims are exclusive: a message one worker has claimed is handed to no other worker by any
  later claim, whatever rows are locked and however much later, as long as nothing but claims has
  run in between; and a claim leaves every message it does not hand out as it was.
\<close>

theorem claims_are_exclusive:
  assumes "claim_messages now locked d w limit = (ms, d1)"
    and "claim_messages later locked' d1 w' limit' = (ms', d2)" "unique_on ms_id (messages d)"
  shows "set (map ms_id ms) \<inter> set (map ms_id ms') = {} \<and>
    (\<forall>m \<in> set (messages d). ms_id m \<notin> set (map ms_id ms) \<longrightarrow> m \<in> set (messages d1)) \<and>
    length ms \<le> nat limit"
proof (intro conjI)
  note one = claim_messages_eq [OF assms(1)] and two = claim_messages_eq [OF assms(2)]
  show "set (map ms_id ms) \<inter> set (map ms_id ms') = {}"
    using message_claims.exclusive [of later locked' limit' _ now w "messages d"]
    unfolding one(2) two(2) one(1) by blast
  show "\<forall>m \<in> set (messages d). ms_id m \<notin> set (map ms_id ms) \<longrightarrow> m \<in> set (messages d1)"
    using message_claims.others_untouched unfolding one(2) one(1) by blast
  have "unique_on ms_id (messages d1)"
    unfolding one(1) message_claims.mark_unique by (rule assms(3))
  then have "distinct (map ms_id ms)"
    unfolding one(4) unique_on_def by (rule distinct_map_filter)
  then have "length ms = card (set (map ms_id ms))" by (metis distinct_card length_map)
  also have "\<dots> \<le> nat limit" unfolding one(2) using card_length length_pick_ids le_trans by blast
  finally show "length ms \<le> nat limit" .
qed

theorem claims_are_exclusive_witness:
  "set [6::nat] \<inter> set (map ms_id (fst (claim_messages 99 [] ex_claimed ''v'' 10))) = {}"
proof -
  obtain ms' d2 where "claim_messages 99 [] ex_claimed ''v'' 10 = (ms', d2)" by fastforce
  with claims_are_exclusive [OF ex_claim_run this] show ?thesis by (simp add: unique_on_def)
qed

end
