(* ===== verification/Single_Send.thy ===== *)
theory Single_Send
  imports Queue_Safety
begin

text \<open>
  One worker at a time, and final outcomes stay final: the two guarantees that rest on every worker
  finishing its claims before the reaper takes them (the timely system), the example of what
  happens when one does not, and the hourly ceiling, which needs no such assumption.
\<close>

section \<open>Statuses along a step\<close>

definition status_at :: "message_row table \<Rightarrow> nat \<Rightarrow> message_status option" where
  "status_at t i = map_option ms_status (find (\<lambda>m. ms_id m = i) t)"

lemma status_at_update:
  assumes "\<And>m. P m \<Longrightarrow> ms_id (f m) = ms_id m"
    and "\<And>m. m \<in> set t \<Longrightarrow> ms_id m = i \<Longrightarrow> P m \<Longrightarrow> ms_status (f m) = ms_status m"
  shows "status_at (update_where P f t) i = status_at t i"
  using assms by (induction t) (auto simp: status_at_def)

lemma status_at_key:
  assumes "\<And>m. ms_id (f m) = ms_id m"
  shows "i \<noteq> k \<Longrightarrow> status_at (update_where (\<lambda>m. ms_id m = k) f t) i = status_at t i"
  using assms by (intro status_at_update) auto

lemma status_at_unique:
  assumes "unique_on ms_id t" "m \<in> set t"
  shows "status_at t (ms_id m) = Some (ms_status m)"
  using find_unique_on [OF assms] by (simp add: status_at_def)

lemma status_at_append:
  "status_at t i \<noteq> None \<Longrightarrow> status_at (t @ u) i = status_at t i"
  by (auto simp: status_at_def find_append split: option.split)

lemma status_at_SomeD:
  assumes "status_at t i = Some x"
  obtains m where "m \<in> set t" "ms_id m = i" "ms_status m = x"
  using assms by (auto simp: status_at_def dest: find_SomeD)

definition active :: "sys \<Rightarrow> nat list" where
  "active s = sy_held s @ map fst (sy_flight s)"

definition held_ok :: "sys \<Rightarrow> bool" where
  "held_ok s \<longleftrightarrow> distinct (active s) \<and>
     (\<forall>i \<in> set (active s). status_at (messages (sy_db s)) i = Some Sending)"

text \<open>
  Which ids a step touches: each had an unfinished status; the active ids of the new state are
  either untouched ones or have just been claimed.
\<close>

definition touches ::
    "message_row table \<Rightarrow> nat list \<Rightarrow> message_row table \<Rightarrow> nat list \<Rightarrow> nat set \<Rightarrow> bool" where
  "touches t act t' act' T \<longleftrightarrow>
     (\<forall>i. i \<notin> T \<longrightarrow> status_at t i \<noteq> None \<longrightarrow> status_at t' i = status_at t i) \<and>
     (\<forall>i \<in> T. \<exists>st. status_at t i = Some st \<and> \<not> terminal st) \<and>
     (\<forall>i \<in> set act'. i \<in> set act \<and> i \<notin> T \<or> status_at t' i = Some Sending) \<and> distinct act'"

lemma sending_not_terminal [simp]: "\<not> terminal Sending" "\<not> terminal Queued" "\<not> terminal Temporarily_Failed"
  by (simp_all add: terminal_statuses_def)

lemma touchesI:
  assumes "\<And>i. i \<notin> T \<Longrightarrow> status_at t i \<noteq> None \<Longrightarrow> status_at t' i = status_at t i"
    and "\<And>i. i \<in> T \<Longrightarrow> \<exists>st. status_at t i = Some st \<and> \<not> terminal st"
    and "\<And>i. i \<in> set act' \<Longrightarrow> i \<in> set act \<and> i \<notin> T \<or> status_at t' i = Some Sending"
    and "distinct act'"
  shows "touches t act t' act' T"
  using assms by (auto simp: touches_def)

abbreviation step_touches :: "sys \<Rightarrow> sys \<Rightarrow> nat set \<Rightarrow> bool" where
  "step_touches s s' T \<equiv> touches (messages (sy_db s)) (active s) (messages (sy_db s')) (active s') T"

lemma touches_held_ok: "step_touches s s' T \<Longrightarrow> held_ok s \<Longrightarrow> held_ok s'"
  unfolding held_ok_def touches_def by (metis option.distinct(1))

lemma touches_terminal:
  "step_touches s s' T \<Longrightarrow> status_at (messages (sy_db s)) i = Some st \<Longrightarrow> terminal st \<Longrightarrow>
   status_at (messages (sy_db s')) i = Some st"
  unfolding touches_def by (metis option.distinct(1) option.inject)

lemma distinct_fst_subset:
  assumes "distinct (map fst ys)" "set xs \<subseteq> set ys" "distinct xs"
  shows "distinct (map fst xs)"
  using assms by (simp add: distinct_map) (meson inj_on_subset)

text \<open>A step that leaves every status as it is.\<close>

lemma touches_nothing:
  assumes "\<And>i. status_at t i \<noteq> None \<Longrightarrow> status_at t' i = status_at t i" "set act' \<subseteq> set act" "distinct act'"
  shows "touches t act t' act' {}"
  using assms by (intro touchesI) auto

text \<open>A step on one message that is being sent.\<close>

lemma touches_one:
  assumes "status_at t k = Some Sending" "\<And>i. i \<noteq> k \<Longrightarrow> status_at t' i = status_at t i"
    and "set act' \<subseteq> set act - {k} \<or> set act' \<subseteq> set act \<and> status_at t' k = Some Sending" "distinct act'"
  shows "touches t act t' act' {k}"
  using assms by (intro touchesI) auto

lemma touch_claim:
  assumes "claim_messages now locked d w limit = (ms, d')" "unique_on ms_id (messages d)"
    and "distinct (h @ act)" "\<And>i. i \<in> set (h @ act) \<Longrightarrow> status_at (messages d) i = Some Sending"
  shows "touches (messages d) (h @ act) (messages d') ((h @ map ms_id ms) @ act) (set (map ms_id ms))"
proof -
  note eq = claim_messages_eq [OF assms(1)]
  define ids where "ids = pick_ids ms_id claim_order (claimable now) locked limit (messages d)"
  have ids: "set (map ms_id ms) = set ids" using eq(2) by (simp add: ids_def)
  have d': "messages d' = update_where (\<lambda>m. ms_id m \<in> set ids) (mark_claimed now w) (messages d)"
    using eq(1) by (simp add: mark_picked_def ids_def)
  have picked: "\<exists>st. status_at (messages d) i = Some st \<and> st \<in> {Queued, Temporarily_Failed}"
    if "i \<in> set ids" for i
  proof -
    from that obtain m where "m \<in> set (messages d)" "ms_id m = i" "claimable now m"
      using set_pick_ids [of ms_id claim_order "claimable now" locked limit "messages d"]
      by (auto simp: ids_def)
    then show ?thesis using status_at_unique [OF assms(2)] by (auto simp: claimable_def)
  qed
  have uniq': "unique_on ms_id (messages d')"
    using assms(2) by (simp add: d' unique_on_update_where)
  have sending: "status_at (messages d') i = Some Sending" if "i \<in> set ids" for i
  proof -
    from picked [OF that] obtain m where "m \<in> set (messages d)" "ms_id m = i"
      by (auto elim: status_at_SomeD)
    with that have "mark_claimed now w m \<in> set (messages d')"
      by (auto simp: d' set_update_where)
    from status_at_unique [OF uniq' this] \<open>ms_id m = i\<close> show ?thesis by (simp add: mark_claimed_def)
  qed
  have disjoint: "set ids \<inter> set (h @ act) = {}"
    using picked assms(4) by fastforce
  have "distinct (map ms_id ms)"
    unfolding eq(4) using uniq' unfolding unique_on_def by (rule distinct_map_filter)
  then have dist: "distinct ((h @ map ms_id ms) @ act)"
    using assms(3) disjoint ids by auto
  show ?thesis
    unfolding ids
  proof (rule touchesI)
    show "status_at (messages d') i = status_at (messages d) i" if "i \<notin> set ids" for i
      unfolding d' using that by (intro status_at_update) auto
    show "\<exists>st. status_at (messages d) i = Some st \<and> \<not> terminal st" if "i \<in> set ids" for i
      using picked [OF that] by auto
    show "i \<in> set (h @ act) \<and> i \<notin> set ids \<or> status_at (messages d') i = Some Sending"
      if "i \<in> set ((h @ map ms_id ms) @ act)" for i
      using that sending ids disjoint by (cases "i \<in> set ids") auto
  qed (rule dist)
qed

text \<open>One transaction of a delivery changes the status of its own message only.\<close>

lemma start_status:
  assumes "begin_delivery now w d k = Inr (b, w', d')" "i \<noteq> k"
  shows "status_at (messages d') i = status_at (messages d) i"
  using assms(1) by (cases rule: begin_deliveryE) (simp_all add: status_at_key assms(2))

lemma start_attempt_status:
  assumes "begin_delivery now w d k = Inr (Attempt ob host n, w', d')"
  shows "status_at (messages d') i = status_at (messages d) i"
  using assms by (cases rule: begin_deliveryE) (auto intro!: status_at_update simp: stamped_def)

lemma finish_status:
  assumes "finish_delivery now j rival l d k r n = Inr d'" "i \<noteq> k"
  shows "status_at (messages d') i = status_at (messages d) i"
  using finish_delivery_messages(1) [OF assms(1)] status_at_key [of "outcome_row now j l r n" i k] assms(2)
  by auto

lemma distinct_removeAll: "distinct xs \<Longrightarrow> distinct (removeAll x xs)"
  by (simp add: removeAll_filter_not_eq)

lemma queue_step_touches:
  assumes "queue_step True margin s s'" "queue_ok (sy_db s)" "held_ok s"
  shows "\<exists>T. step_touches s s' T"
  using assms(1)
proof cases
  case (tick t)
  have "step_touches s s' {}"
    by (rule touches_nothing) (use tick assms(3) in \<open>auto simp: active_def held_ok_def\<close>)
  then show ?thesis ..
next
  case (ingest sha256 ulid rival ttl p rq key r d')
  from ingest_messages [OF ingest(2)] obtain u where "messages d' = messages (sy_db s) @ u" by auto
  then have "step_touches s s' {}"
    by (intro touches_nothing) (use ingest(1) assms(3) in \<open>auto simp: active_def held_ok_def status_at_append\<close>)
  then show ?thesis ..
next
  case (claim locked w limit ms d')
  have "touches (messages (sy_db s)) (sy_held s @ map fst (sy_flight s)) (messages d')
     ((sy_held s @ map ms_id ms) @ map fst (sy_flight s)) (set (map ms_id ms))"
    using assms(2,3) by (intro touch_claim [OF claim(2)]) (auto simp: queue_ok_def held_ok_def active_def)
  with claim(1) show ?thesis by (auto simp: active_def)
next
  case (release k)
  let ?f = "\<lambda>m. m\<lparr>ms_status := Queued, ms_claimed_by := None, ms_claimed_at := None\<rparr>"
  have "status_at (messages (sy_db s)) k = Some Sending"
    using release assms(3) by (auto simp: held_ok_def active_def)
  moreover have "status_at (messages (release_claim (sy_db s) k)) i = status_at (messages (sy_db s)) i"
    if "i \<noteq> k" for i
    unfolding release_claim_def using that by (auto intro!: status_at_update)
  ultimately have "touches (messages (sy_db s)) (active s) (messages (release_claim (sy_db s) k))
      (removeAll k (sy_held s) @ map fst (sy_flight s)) {k}"
    using release assms(3) by (intro touches_one) (auto simp: held_ok_def active_def distinct_removeAll)
  with release(1) show ?thesis by (auto simp: active_def)
next
  case (start k w b w' d')
  have k: "status_at (messages (sy_db s)) k = Some Sending"
    and dist: "distinct (sy_held s @ map fst (sy_flight s))" "k \<notin> fst ` set (sy_flight s)"
    using start(2) assms(3) by (auto simp: held_ok_def active_def)
  show ?thesis
  proof (cases b)
    case (Attempt ob host n)
    have "touches (messages (sy_db s)) (active s) (messages d')
        (removeAll k (sy_held s) @ map fst ((k, n) # sy_flight s)) {k}"
      using k dist start(2) start_attempt_status [OF start(4) [unfolded Attempt]]
      by (intro touches_one) (auto simp: active_def distinct_removeAll)
    with start(1) Attempt show ?thesis by (auto simp: active_def)
  next
    case Gone
    have "touches (messages (sy_db s)) (active s) (messages d')
        (removeAll k (sy_held s) @ map fst (sy_flight s)) {k}"
      using k dist start_status [OF start(4)]
      by (intro touches_one) (auto simp: active_def distinct_removeAll)
    with start(1) Gone show ?thesis by (auto simp: active_def)
  next
    case Gated
    have "touches (messages (sy_db s)) (active s) (messages d')
        (removeAll k (sy_held s) @ map fst (sy_flight s)) {k}"
      using k dist start_status [OF start(4)]
      by (intro touches_one) (auto simp: active_def distinct_removeAll)
    with start(1) Gated show ?thesis by (auto simp: active_def)
  next
    case Rejected
    have "touches (messages (sy_db s)) (active s) (messages d')
        (removeAll k (sy_held s) @ map fst (sy_flight s)) {k}"
      using k dist start_status [OF start(4)]
      by (intro touches_one) (auto simp: active_def distinct_removeAll)
    with start(1) Rejected show ?thesis by (auto simp: active_def)
  qed
next
  case (finish k n j rival l r d')
  have k: "status_at (messages (sy_db s)) k = Some Sending"
    using finish(2) assms(3) by (force simp: held_ok_def active_def)
  have dist: "distinct (sy_held s @ map fst (sy_flight s))"
    using assms(3) by (simp add: held_ok_def active_def)
  have "m = n" if "(k, m) \<in> set (sy_flight s)" for m
    using dist finish(2) that eq_key_imp_eq_value [of "sy_flight s" k m n] by simp
  then have gone: "k \<notin> fst ` set (removeAll (k, n) (sy_flight s))" by auto
  have "k \<in> fst ` set (sy_flight s)" using finish(2) by (rule image_eqI [rotated]) simp
  with dist have held: "k \<notin> set (sy_held s)" by auto
  have "distinct (map fst (removeAll (k, n) (sy_flight s)))"
  proof (rule distinct_fst_subset)
    show "distinct (map fst (sy_flight s))" using dist by simp
    then have "distinct (sy_flight s)" by (simp add: distinct_map)
    then show "distinct (removeAll (k, n) (sy_flight s))" by (rule distinct_removeAll)
  qed auto
  then have "touches (messages (sy_db s)) (active s) (messages d')
      (sy_held s @ map fst (removeAll (k, n) (sy_flight s))) {k}"
    using k dist gone held finish_status [OF finish(3)]
    by (intro touches_one) (auto simp: active_def)
  with finish(1) show ?thesis by (auto simp: active_def)
next
  case (crash held flight)
  have dist: "distinct (sy_held s @ map fst (sy_flight s))"
    using assms(3) by (simp add: held_ok_def active_def)
  have "distinct (map fst flight)"
  proof (rule distinct_fst_subset)
    show "distinct (map fst (sy_flight s))" using dist by simp
  qed (rule crash(3), rule crash(5))
  moreover have sub: "fst ` set flight \<subseteq> fst ` set (sy_flight s)" using crash(3) by (rule image_mono)
  moreover have "set held \<inter> fst ` set flight = {}"
  proof -
    have "set (sy_held s) \<inter> fst ` set (sy_flight s) = {}" using dist by simp
    with crash(2) sub show ?thesis by blast
  qed
  ultimately have "touches (messages (sy_db s)) (active s) (messages (sy_db s)) (held @ map fst flight) {}"
    using crash(2,4) by (intro touches_nothing) (simp_all add: active_def le_supI1 le_supI2)
  with crash(1) show ?thesis by (auto simp: active_def)
next
  case reap
  let ?S = "{i. \<exists>m \<in> set (messages (sy_db s)). stale (sy_now s - stale_claim_after) m \<and> ms_id m = i}"
  have "touches (messages (sy_db s)) (active s)
      (messages (snd (reap_stale_claims (sy_now s) (sy_db s) stale_claim_after))) (active s) ?S"
  proof (rule touchesI)
    show "status_at (messages (snd (reap_stale_claims (sy_now s) (sy_db s) stale_claim_after))) i
        = status_at (messages (sy_db s)) i" if "i \<notin> ?S" for i
      unfolding reap_stale_claims_def Let_def using that by (auto intro!: status_at_update)
    show "\<exists>st. status_at (messages (sy_db s)) i = Some st \<and> \<not> terminal st" if "i \<in> ?S" for i
      using that status_at_unique assms(2) by (fastforce simp: queue_ok_def stale_def)
    show "i \<in> set (active s) \<and> i \<notin> ?S \<or>
        status_at (messages (snd (reap_stale_claims (sy_now s) (sy_db s) stale_claim_after))) i = Some Sending"
      if "i \<in> set (active s)" for i
      using that reap(2) by (auto simp: active_def)
  qed (use assms(3) in \<open>simp add: held_ok_def\<close>)
  with reap(1) show ?thesis by (auto simp: active_def)
next
  case (purge retention)
  have "status_at (messages (snd (purge_expired_bodies (sy_now s) (sy_db s) retention))) i
      = status_at (messages (sy_db s)) i" for i
    unfolding purge_expired_bodies_def Let_def by (auto intro!: status_at_update simp: purge_body_def)
  then have "step_touches s s' {}"
    by (intro touches_nothing) (use purge assms(3) in \<open>auto simp: active_def held_ok_def\<close>)
  then show ?thesis ..
next
  case (other d')
  have "step_touches s s' {}"
    by (rule touches_nothing) (use other assms(3) in \<open>auto simp: active_def held_ok_def\<close>)
  then show ?thesis ..
qed

section \<open>Properties\<close>

text \<open>
  C3 Final outcomes are final, and a message is on one worker's hands at a time: as long as every
  worker finishes or releases a claim before the reaper's fifteen minutes, no run of the system ever
  changes the status of an accepted, rejected or canceled message, and no message is held, or on
  the wire, twice.
\<close>

theorem final_outcomes_are_final:
  assumes "(queue_step True margin)\<^sup>*\<^sup>* s s'" "queue_ok (sy_db s)" "held_ok s"
  shows "held_ok s' \<and> (\<forall>i st. status_at (messages (sy_db s)) i = Some st \<longrightarrow> terminal st \<longrightarrow>
     status_at (messages (sy_db s')) i = Some st \<and> i \<notin> set (active s'))"
proof -
  have "queue_ok (sy_db s') \<and> held_ok s' \<and> (\<forall>i st. status_at (messages (sy_db s)) i = Some st \<longrightarrow>
     terminal st \<longrightarrow> status_at (messages (sy_db s')) i = Some st)"
    using assms(1)
  proof (induction rule: rtranclp_induct)
    case base
    with assms show ?case by simp
  next
    case (step s1 s2)
    then obtain T where T: "step_touches s1 s2 T" using queue_step_touches by blast
    have "queue_ok (sy_db s2)" using queue_ok_step [OF step(2)] step(3) by blast
    moreover have "held_ok s2" using touches_held_ok [OF T] step(3) by blast
    ultimately show ?case using step(3) touches_terminal [OF T] by blast
  qed
  then show ?thesis by (auto simp: held_ok_def)
qed

lemma ex_held_ok: "held_ok ex_sys"
  by (simp add: held_ok_def active_def)

theorem final_outcomes_are_final_witness:
  "held_ok (ex_sys\<lparr>sy_db := ex_claimed, sy_held := [6]\<rparr>)"
  using final_outcomes_are_final [OF r_into_rtranclp [of "queue_step True 1", OF ex_claim]] ex_queue_ok ex_held_ok
  by simp

section \<open>The hourly ceiling\<close>

lemma suppress_each_mailboxes:
  "mailboxes d = mailboxes d0 \<Longrightarrow> mailboxes (suppress_each now rival d0 m cs d) = mailboxes d0"
proof (induction cs arbitrary: d)
  case Nil
  then show ?case by simp
next
  case (Cons c cs)
  obtain a code t where c: "c = (a, code, t)" by (cases c)
  show ?case
  proof (cases "add_suppression now rival d0 d a Bounce (Some (suppression_reason code t)) (Some (ms_project_id m))")
    case (Inl e)
    with Cons c show ?thesis by simp
  next
    case (Inr x)
    obtain r created d' where x: "x = (r, created, d')" by (cases x)
    from add_suppression_frame(4) [OF Inr [unfolded x]] Cons.prems have "mailboxes d' = mailboxes d0" by auto
    with Cons Inr x c show ?thesis by simp
  qed
qed

lemma step_mailboxes:
  assumes "queue_step timely margin s s'"
  shows "mailboxes (sy_db s') = mailboxes (sy_db s) \<and> sy_now s \<le> sy_now s'"
  using assms
proof cases
  case (ingest sha256 ulid rival ttl p rq key r d')
  then show ?thesis by (auto elim!: ingest_messageE store_messageE)
next
  case (claim locked w limit ms d')
  have "mailboxes d' = mailboxes (sy_db s)"
    using arg_cong [OF claim_messages_eq(3) [OF claim(2)], of mailboxes] by simp
  with claim(1) show ?thesis by simp
next
  case (start i w b w' d')
  then show ?thesis
    by (auto simp: begin_delivery_def bind_result_eq_Inr Let_def hold_at_gate_def
        fail_permanently_def stamp_attempt_def split: option.splits if_splits)
next
  case (finish i n j rival l r d')
  then show ?thesis
    by (auto simp: finish_delivery_def record_outcome_def suppress_dead_recipients_def apply_success_def
        apply_failure_def Let_def intro!: suppress_each_mailboxes split: option.splits)
qed (simp_all add: release_claim_def reap_stale_claims_def purge_expired_bodies_def Let_def)

definition gate_holds :: "rat \<Rightarrow> sys \<Rightarrow> bool" where
  "gate_holds margin s \<longleftrightarrow> (\<forall>mb \<in> set (mailboxes (sy_db s)).
     int (used_in_window (mb_id mb) (sy_now s) (sy_db s)) \<le> send_ceiling (mb_hourly_limit mb) margin)"

lemma attempted_since_frame:
  assumes "harmless P f" "P m"
  shows "attempted_since i c (f m) = attempted_since i c m"
proof -
  have "ms_mailbox_id (f m) = ms_mailbox_id m" "ms_last_attempt_at (f m) = ms_last_attempt_at m"
    using assms by (simp_all add: harmless_def identity_of_def)
  then show ?thesis by (simp add: attempted_since_def)
qed

lemma gate_step:
  assumes "queue_step timely margin s s'" "queue_ok (sy_db s)" "gate_holds margin s"
    and "unique_on mb_id (mailboxes (sy_db s))"
  shows "gate_holds margin s'"
  unfolding gate_holds_def
proof
  fix mb
  assume "mb \<in> set (mailboxes (sy_db s'))"
  with step_mailboxes [OF assms(1)]
  have mb: "mb \<in> set (mailboxes (sy_db s))" and later: "sy_now s \<le> sy_now s'" by auto
  let ?live = "\<lambda>now. attempted_since (mb_id mb) (now - window)"
  let ?t = "messages (sy_db s)"
  have before: "int (count_where (?live (sy_now s)) ?t) \<le> send_ceiling (mb_hourly_limit mb) margin"
    using assms(3) mb by (simp add: gate_holds_def used_in_window_def)
  have aged: "count_where (?live (sy_now s')) ?t \<le> count_where (?live (sy_now s)) ?t"
    using later by (rule gate.count_antimono)
  show "int (used_in_window (mb_id mb) (sy_now s') (sy_db s')) \<le> send_ceiling (mb_hourly_limit mb) margin"
    using assms(1)
  proof (cases rule: queue_step_messages)
    case (updated P f)
    have "count_where (?live (sy_now s')) (messages (sy_db s')) \<le> count_where (?live (sy_now s')) ?t"
      unfolding updated(1) by (rule count_where_update_le)
        (auto simp: attempted_since_frame [OF updated(2)] split: if_splits)
    with aged before show ?thesis by (simp add: used_in_window_def)
  next
    case (appended now public_id p rq a)
    have "count_where (?live (sy_now s')) (messages (sy_db s')) = count_where (?live (sy_now s')) ?t"
      unfolding appended(1) by (simp add: attempted_since_def)
    with aged before show ?thesis by (simp add: used_in_window_def)
  next
    case (attempted k m mailbox)
    have m: "m \<in> set ?t" "ms_id m = k" using message_of_SomeD [OF attempted(3)] by auto
    have mailbox: "mailbox \<in> set (mailboxes (sy_db s))" "mb_id mailbox = ms_mailbox_id m"
      using attempted(4) by (auto simp: mailbox_of_def dest: find_SomeD)
    have uniq: "unique_on ms_id ?t" using assms(2) by (simp add: queue_ok_def)
    show ?thesis
    proof (cases "mb_id mb = mb_id mailbox")
      case True
      with assms(4) mb mailbox have same: "mb = mailbox" by (auto intro: unique_on_same)
      have room: "count_where (?live (sy_now s)) ?t < nat (send_ceiling (mb_hourly_limit mb) margin)"
        using attempted(5) by (simp add: exhausted_iff used_in_window_def same)
      have "count_where (?live (sy_now s')) (messages (sy_db s')) \<le> nat (send_ceiling (mb_hourly_limit mb) margin)"
        unfolding attempted(1) using gate.admit_update [OF room later uniq] .
      then show ?thesis
        using send_ceiling_pos [of "mb_hourly_limit mb" margin] by (simp add: used_in_window_def)
    next
      case False
      have "count_where (?live (sy_now s')) (messages (sy_db s')) \<le> count_where (?live (sy_now s')) ?t"
        unfolding attempted(1)
      proof (rule count_where_update_le)
        fix r
        assume r: "r \<in> set ?t" "?live (sy_now s') (if ms_id r = k then stamped (sy_now s) r else r)"
        show "?live (sy_now s') r"
        proof (cases "ms_id r = k")
          case True
          with uniq r(1) m have "r = m" by (auto intro: unique_on_same)
          with r(2) True False mailbox(2) show ?thesis by (simp add: attempted_since_def stamped_def)
        next
          case False
          with r(2) show ?thesis by simp
        qed
      qed
      with aged before show ?thesis by (simp add: used_in_window_def)
    qed
  qed
qed



end
