(* ===== verification/Outcomes.thy ===== *)
theory Outcomes
  imports Single_Send
begin

text \<open>
  What an answer of the provider leads to: classification, the automatic suppression, retry and its
  backoff, the message's timeline, and the gate's opening time; with the runs in which the worker
  does less than its comments promise.
\<close>

section \<open>Classification\<close>

text \<open>
  No message is given up on wording nobody has listed: a verdict is final only if the provider
  answered with a code and one of the listed non-retryable rules matches it (or the code is a
  success); in particular a transport failure is always retried, and an answer of 500 or more that
  no rule recognises is retried and flagged for a human.
\<close>

theorem final_only_on_listed_wording:
  "(\<not> vd_retryable (classify code response) \<longrightarrow>
      (\<exists>c. code = Some c \<and> (200 \<le> c \<and> c < 300 \<or>
         (\<exists>r \<in> set (observed_rules @ [recipient_rule, policy_rule, size_rule]).
            rule_applies c (py_strip (or_empty response)) r)))) \<and>
   (\<forall>c. code = Some c \<longrightarrow> 500 \<le> c \<longrightarrow> (\<forall>r \<in> set rules. \<not> rule_applies c (py_strip (or_empty response)) r) \<longrightarrow>
      vd_retryable (classify code response) \<and> vd_needs_review (classify code response))"
proof (intro conjI impI allI)
  assume final: "\<not> vd_retryable (classify code response)"
  then obtain c where c: "code = Some c"
    by (cases code) (simp_all add: classify_def)
  show "\<exists>c. code = Some c \<and> (200 \<le> c \<and> c < 300 \<or>
         (\<exists>r \<in> set (observed_rules @ [recipient_rule, policy_rule, size_rule]).
            rule_applies c (py_strip (or_empty response)) r))"
  proof (cases "first_rule rules c (py_strip (or_empty response))")
    case None
    with final c have "\<not> vd_retryable (default_verdict c)" by (simp add: classify_def)
    then have "200 \<le> c \<and> c < 300" by (simp add: default_verdict_def split: if_splits)
    with c show ?thesis by blast
  next
    case (Some v)
    with final c have "\<not> vd_retryable v" by (simp add: classify_def)
    moreover from first_rule_in [OF Some] obtain r where r: "r \<in> set rules"
      "rule_applies c (py_strip (or_empty response)) r" "v = snd (snd r)" by blast
    ultimately have "r \<in> set (observed_rules @ [recipient_rule, policy_rule, size_rule])"
      using rules_not_retryable [of r] by simp
    with c r show ?thesis by blast
  qed
next
  fix c
  assume "code = Some c" "500 \<le> c" "\<forall>r \<in> set rules. \<not> rule_applies c (py_strip (or_empty response)) r"
  then show "vd_retryable (classify code response)" "vd_needs_review (classify code response)"
    by (simp_all add: classify_def first_rule_None [THEN iffD2] default_verdict_def)
qed

theorem final_only_on_listed_wording_witness:
  "vd_retryable (classify (Some 554) (Some ''weird'')) \<and> vd_needs_review (classify (Some 554) (Some ''weird''))"
proof -
  have "list_all (\<lambda>r. \<not> rule_applies 554 (py_strip (or_empty (Some ''weird''))) r) rules" by code_simp
  then have "\<forall>r \<in> set rules. \<not> rule_applies 554 (py_strip (or_empty (Some ''weird''))) r"
    by (simp add: list_all_iff)
  moreover have "(500 :: int) \<le> 554" by simp
  ultimately show ?thesis using final_only_on_listed_wording [of "Some 554" "Some ''weird''"] by blast
qed

text \<open>
  A temporary answer with the wording of a dead mailbox is final all the same: the rules without a
  code are tried before the default of the 4xx codes.
\<close>

lemma temporary_answer_is_final:
  "\<not> vd_retryable (classify (Some 450) (Some ''4.2.1 mailbox unavailable''))"
  by code_simp



section \<open>Backoff\<close>

lemma backoff_base_mem: "backoff_base attempt \<in> set backoff_seconds"
proof -
  have l: "length backoff_seconds = 8" by (simp add: backoff_seconds_def)
  have "min attempt 8 - 1 < length backoff_seconds" "0 < length backoff_seconds" by (simp_all add: l)
  from this [THEN nth_mem] show ?thesis unfolding backoff_base_def l by simp
qed

lemma backoff_base_bounds: "30 \<le> backoff_base attempt \<and> backoff_base attempt \<le> 86400"
  using backoff_base_mem [of attempt] by (auto simp: backoff_seconds_def)

lemma backoff_delay_bounds:
  assumes "4 / 5 \<le> jitter" "jitter \<le> 6 / 5"
  shows "seconds (backoff_base attempt) * 4 \<le> backoff_delay jitter attempt * 5"
    and "backoff_delay jitter attempt * 5 \<le> seconds (backoff_base attempt) * 6"
proof -
  define b where "b = backoff_base attempt"
  have "\<exists>k. b * 1000000 = 5 * k" by (intro exI [of _ "b * 200000"]) simp
  then obtain k where k: "b * 1000000 = 5 * k" by blast
  have b: "0 \<le> b" using backoff_base_bounds [of attempt] by (simp add: b_def)
  have eq: "of_int b * jitter * 1000000 = of_int (5 * k) * jitter"
    using arg_cong [OF k, of "of_int :: int \<Rightarrow> rat"] by simp
  have k0: "0 \<le> (of_int k :: rat)" using b k by simp
  have "of_int (4 * k) \<le> of_int (5 * k) * jitter"
    using mult_left_mono [OF assms(1), of "of_int (5 * k)"] k0 by simp
  then have "4 * k \<le> backoff_delay jitter attempt"
    unfolding backoff_delay_def b_def [symmetric] eq by (rule round_half_even_lower)
  moreover have "of_int (5 * k) * jitter \<le> of_int (6 * k)"
    using mult_left_mono [OF assms(2), of "of_int (5 * k)"] k0 by simp
  then have "backoff_delay jitter attempt \<le> 6 * k"
    unfolding backoff_delay_def b_def [symmetric] eq by (rule round_half_even_upper)
  ultimately show "seconds (backoff_base attempt) * 4 \<le> backoff_delay jitter attempt * 5"
    and "backoff_delay jitter attempt * 5 \<le> seconds (backoff_base attempt) * 6"
    using k by (simp_all add: seconds_def b_def)
qed



section \<open>What an answer does to a message\<close>

lemma message_of_finish:
  assumes "finish_delivery now jitter None l d i r attempt = Inr d'" "message_of d i = Some m"
  shows "message_of d' i = Some (outcome_row now jitter l r attempt m)"
proof -
  have "ms_id m = i" using message_of_SomeD [OF assms(2)] by simp
  moreover have "messages d' = update_where (\<lambda>m. ms_id m = i) (outcome_row now jitter l r attempt) (messages d)"
    using finish_delivery_messages(2) [OF assms(1)] by simp
  ultimately show ?thesis
    using assms(2) by (simp add: message_of_def find_update_where)
qed

text \<open>
  Every answer is acted on as announced: an accepted message ends accepted, a retryable failure
  with attempts left waits for its backoff, and everything else ends rejected (flagged for a human
  when it was only the attempts that ran out); in each case the claim is gone, the latency and the
  provider's words are recorded, and other messages are untouched.
\<close>

theorem outcome_of_a_delivery:
  assumes "finish_delivery now jitter None l d i r attempt = Inr d'" "message_of d i = Some m"
    and "4 / 5 \<le> jitter" "jitter \<le> 6 / 5"
  shows "\<exists>m'. message_of d' i = Some m' \<and> ms_claimed_at m' = None \<and> ms_claimed_by m' = None \<and>
    ms_provider_latency_ms m' = Some l \<and>
    ms_provider_response m' = Some (take 500 (or_empty (dr_response r))) \<and>
    (let v = classify (dr_code r) (dr_response r) in
       if dr_success r then ms_status m' = Accepted_By_Provider \<and> ms_completed_at m' = Some now
       else if vd_retryable v \<and> attempt < 8
         then ms_status m' = Temporarily_Failed \<and> (\<exists>t. ms_next_attempt_at m' = Some t \<and>
                seconds (backoff_base attempt) * 4 \<le> (t - now) * 5 \<and>
                (t - now) * 5 \<le> seconds (backoff_base attempt) * 6)
       else ms_status m' = Permanently_Rejected \<and> ms_completed_at m' = Some now \<and>
         (vd_retryable v \<longrightarrow> ms_needs_review m')) \<and>
    (\<forall>j. j \<noteq> i \<longrightarrow> message_of d' j = message_of d j)"
proof -
  have others: "message_of d' j = message_of d j" if "j \<noteq> i" for j
  proof -
    have "messages d' = update_where (\<lambda>m. ms_id m = i) (outcome_row now jitter l r attempt) (messages d)"
      using finish_delivery_messages(2) [OF assms(1)] by simp
    moreover have "ms_id q = j \<Longrightarrow> ms_id q \<noteq> i" for q :: message_row using that by simp
    ultimately show ?thesis
      unfolding message_of_def
      by (subst \<open>messages d' = _\<close>, subst find_update_where)
         (auto simp: option.map_ident_strong dest: find_SomeD(2) intro!: option.map_ident_strong)
  qed
  show ?thesis
    using message_of_finish [OF assms(1,2)] others backoff_delay_bounds [OF assms(3,4), of attempt]
    by (intro exI [of _ "outcome_row now jitter l r attempt m"])
       (simp add: outcome_row_def Let_def succeeded_row_def deferred_row_def rejected_row_def
         record_failure_def max_attempts_def)
qed

definition ex_answer :: delivery_result where
  "ex_answer = \<lparr>dr_success = True, dr_code = Some 250, dr_response = Some ''ok'', dr_refused = [],
     dr_accepted = [''u@b.io'']\<rparr>"

lemma ex_finish_runs: "\<exists>d'. finish_delivery 9 1 rival 12 ex_claimed 6 ex_answer 1 = Inr d'"
  by (simp add: finish_delivery_def message_of_def ex_claimed_def)

theorem outcome_of_a_delivery_witness:
  "\<exists>d' m'. finish_delivery 9 1 None 12 ex_claimed 6 ex_answer 1 = Inr d' \<and>
     message_of d' 6 = Some m' \<and> ms_status m' = Accepted_By_Provider"
proof -
  obtain d' where run: "finish_delivery 9 1 None 12 ex_claimed 6 ex_answer 1 = Inr d'"
    using ex_finish_runs by blast
  have m: "message_of ex_claimed 6 = Some (mark_claimed 0 ''w'' ex_message)"
    by (simp add: message_of_def ex_claimed_def)
  have "dr_success ex_answer" by (simp add: ex_answer_def)
  with outcome_of_a_delivery [OF run m] run show ?thesis by (auto simp: Let_def)
qed

section \<open>Where the code does less than it says\<close>

text \<open>
  A slow worker sends an accepted message again: after another worker, through the reaper, has
  delivered it, the first worker's turn comes, the first transaction asks neither for the status nor
  for the claim, and the message goes on the wire a second time; a failure then puts the accepted
  message back in the queue.
\<close>

definition ex_accepted_db :: db where
  "ex_accepted_db = ex_db\<lparr>messages := [ex_message\<lparr>ms_status := Accepted_By_Provider,
     ms_completed_at := Some 8\<rparr>]\<rparr>"

definition ex_worker :: worker where
  "ex_worker = \<lparr>wk_id = ''w'', wk_version = ''1'', wk_margin = 1, wk_retention_hours = 24,
     wk_override = True, wk_cipher = None, wk_adapters = [], wk_processed = 0\<rparr>"

lemma ex_begin:
  assumes "messages d = [m]" "ms_id m = 6" "ms_mailbox_id m = 3" "ms_last_attempt_at m = None"
    and "mailboxes d = [ex_mailbox]" "domains d = [ex_domain]"
  shows "begin_delivery now ex_worker d 6 =
    Inr (Attempt (outbound_of m ex_mailbox) ''mx.a.io'' (Suc (ms_attempts m)), ex_worker,
      stamp_attempt now m ''mx.a.io'' d)"
proof -
  have "message_of d 6 = Some m" "mailbox_of d 3 = Some ex_mailbox" "domain_of d 2 = Some ex_domain"
    using assms by (simp_all add: message_of_def mailbox_of_def domain_of_def)
  moreover have "\<not> exhausted (current_budget now d ex_mailbox 1)"
    using assms send_ceiling_pos [of 400 1]
    by (simp add: exhausted_iff used_in_window_def attempted_since_def)
  ultimately show ?thesis
    using assms by (simp add: begin_delivery_def Let_def adapter_for_def ex_worker_def)
qed

lemma accepted_message_is_sent_again:
  "\<exists>ob host w' d'. begin_delivery 9 ex_worker ex_accepted_db 6 = Inr (Attempt ob host 1, w', d') \<and>
     (\<exists>d''. finish_delivery 10 1 None 5 d' 6 (failure_result None (Some ''timeout'')) 1 = Inr d'' \<and>
        map ms_status (messages d'') = [Temporarily_Failed])"
proof -
  let ?m = "ex_message\<lparr>ms_status := Accepted_By_Provider, ms_completed_at := Some 8\<rparr>"
  let ?d = "stamp_attempt 9 ?m ''mx.a.io'' ex_accepted_db"
  have start: "begin_delivery 9 ex_worker ex_accepted_db 6 =
      Inr (Attempt (outbound_of ?m ex_mailbox) ''mx.a.io'' 1, ex_worker, ?d)"
    using ex_begin [of ex_accepted_db ?m 9] by (simp add: ex_accepted_db_def)
  have ms: "messages ?d = [stamped 9 ?m]"
    by (simp add: stamp_attempt_def ex_accepted_db_def stamped_def)
  obtain d'' where run: "finish_delivery 10 1 None 5 ?d 6 (failure_result None (Some ''timeout'')) 1 = Inr d''"
    by (simp add: finish_delivery_def message_of_def ms)
  have "messages d'' = update_where (\<lambda>m. ms_id m = 6)
      (outcome_row 10 1 5 (failure_result None (Some ''timeout'')) 1) (messages ?d)"
    using finish_delivery_messages(2) [OF run] by simp
  then have st: "map ms_status (messages d'') = [Temporarily_Failed]"
    by (simp add: ms outcome_row_def failure_result_def classify_def Let_def max_attempts_def deferred_row_def)
  show ?thesis by (intro exI conjI, rule start, rule run, rule st)
qed

text \<open>
  The gate counts messages, not attempts: two attempts of one message within the hour count once.
\<close>

lemma two_attempts_count_once:
  "used_in_window 3 (minutes 10) (stamp_attempt (minutes 10) (stamped 0 ex_message) ''mx.a.io''
     (stamp_attempt 0 ex_message ''mx.a.io'' ex_db)) = 1 \<and>
   length (filter (\<lambda>e. ev_event_type e = ''delivery.attempt'') (events
     (stamp_attempt (minutes 10) (stamped 0 ex_message) ''mx.a.io'' (stamp_attempt 0 ex_message ''mx.a.io'' ex_db)))) = 2"
  by (simp add: used_in_window_def stamp_attempt_def attempted_since_def window_def hours_def
      minutes_def seconds_def emit_def update_message_def)

section \<open>The gate opens again\<close>

text \<open>
  A mailbox held at the gate is held exactly until the time the worker writes down: until one
  second before it the count does not move, and at that time it is lower, so that a mailbox at its
  ceiling may send again; the time lies in the future.
\<close>

theorem gate_opens_when_announced:
  assumes "exhausted (current_budget now d mailbox margin)"
    and "opening = next_window_opening now d (mb_id mailbox)"
  shows "now < opening \<and>
    used_in_window (mb_id mailbox) opening d < used_in_window (mb_id mailbox) now d \<and>
    (\<forall>t. now \<le> t \<longrightarrow> t \<le> opening - seconds 1 \<longrightarrow> exhausted (current_budget t d mailbox margin)) \<and>
    (bg_used (current_budget now d mailbox margin) = bg_ceiling (current_budget now d mailbox margin) \<longrightarrow>
       \<not> exhausted (current_budget opening d mailbox margin))"
proof -
  have full: "send_ceiling (mb_hourly_limit mailbox) margin \<le> int (used_in_window (mb_id mailbox) now d)"
    using assms(1) by (simp add: exhausted_iff)
  with send_ceiling_pos [of "mb_hourly_limit mailbox" margin]
  have "0 < used_in_window (mb_id mailbox) now d" by linarith
  note drops = used_drops_at_opening [OF this, folded assms(2)]
  have "exhausted (current_budget t d mailbox margin)" if "now \<le> t" "t \<le> opening - seconds 1" for t
  proof -
    have "t < next_window_opening now d (mb_id mailbox) - seconds 1 + 1" using that(2) assms(2) by simp
    from used_constant_before_opening [OF that(1) this] full show ?thesis by (simp add: exhausted_iff)
  qed
  with drops full show ?thesis by (auto simp: exhausted_iff)
qed

definition ex_full :: db where
  "ex_full = ex_db\<lparr>messages := [ex_message\<lparr>ms_last_attempt_at := Some 5\<rparr>]\<rparr>"

theorem gate_opens_when_announced_witness:
  "10 < next_window_opening 10 ex_full 3 \<and>
   \<not> exhausted (current_budget (next_window_opening 10 ex_full 3) ex_full ex_mailbox (1 / 1000))"
proof -
  have c: "send_ceiling 400 (1 / 1000) = 1" by (simp add: send_ceiling_def py_trunc_def)
  have "used_in_window 3 10 ex_full = 1"
    by (simp add: used_in_window_def ex_full_def attempted_since_def window_def hours_def minutes_def seconds_def)
  with c have "exhausted (current_budget 10 ex_full ex_mailbox (1 / 1000))"
    "bg_used (current_budget 10 ex_full ex_mailbox (1 / 1000)) = bg_ceiling (current_budget 10 ex_full ex_mailbox (1 / 1000))"
    by (simp_all add: exhausted_iff)
  with gate_opens_when_announced [OF this(1) refl] show ?thesis by simp
qed

end
