(* ===== verification/Api.thy ===== *)
theory Api
  imports Ingest
begin

text \<open>
  The /v1 endpoints (emaild/api/v1.py) as operations of the database: identification, sending,
  reading a message with its timeline, and the suppression endpoints.  Each request runs the
  principal's lookup in one transaction and the handler in the next; a handler that raises leaves
  what the lookup committed.  GET /v1/metrics is with the metrics.
\<close>

section \<open>Requests\<close>

definition with_principal ::
    "(string \<Rightarrow> string) \<Rightarrow> time \<Rightarrow> string option \<Rightarrow> (principal \<Rightarrow> db \<Rightarrow> ('a \<times> db) result) \<Rightarrow> db \<Rightarrow>
     'a result \<times> db" where
  "with_principal sha256 now header handler d =
     (case require_principal sha256 now d header of
        Inl e \<Rightarrow> (Inl e, d)
      | Inr (p, d1) \<Rightarrow>
          (case handler p d1 of
             Inl e \<Rightarrow> (Inl e, d1)
           | Inr (x, d2) \<Rightarrow> (Inr x, d2)))"

record whoami_view =
  wa_project :: string
  wa_key_name :: string
  wa_allowed_senders :: "string list"
  wa_allowed_domains :: "string list"

definition whoami :: "principal \<Rightarrow> db \<Rightarrow> (whoami_view \<times> db) result" where
  "whoami p d = bind_result (allowed_domains p) (\<lambda>ds.
     Inr (\<lparr>wa_project = pc_project_name p, wa_key_name = pc_key_name p,
           wa_allowed_senders = allowed_addresses p, wa_allowed_domains = sorted_set ds\<rparr>, d))"

definition send_email ::
    "(string \<Rightarrow> string) \<Rightarrow> time \<Rightarrow> string \<Rightarrow> idempotency_row option \<Rightarrow> int \<Rightarrow> send_request \<Rightarrow>
     string option \<Rightarrow> principal \<Rightarrow> db \<Rightarrow> ((string \<times> string) \<times> db) result" where
  "send_email sha256 now ulid rival ttl_hours rq key p d =
     bind_result (ingest_message sha256 now ulid rival ttl_hours d p rq key) (\<lambda>(r, d').
       Inr ((ir_public_id r, ir_status r), d'))"

section \<open>Reading a message\<close>

record event_view =
  evw_type :: string
  evw_occurred_at :: string
  evw_detail :: "json option"

record message_view =
  mv_id :: string
  mv_status :: string
  mv_from_address :: string
  mv_to :: "string list"
  mv_cc :: "string list option"
  mv_bcc :: "string list option"
  mv_subject :: "string option"
  mv_created_at :: string
  mv_completed_at :: "string option"
  mv_attempts :: nat
  mv_failure_class :: "string option"
  mv_failure_code :: "int option"
  mv_provider_response :: "string option"
  mv_events :: "event_view list"

definition view_event :: "event_row \<Rightarrow> event_view" where
  "view_event e = \<lparr>evw_type = ev_event_type e, evw_occurred_at = isoformat (ev_occurred_at e),
     evw_detail = ev_detail e\<rparr>"

definition timeline :: "db \<Rightarrow> nat \<Rightarrow> event_view list" where
  "timeline d i = map view_event (sort_key ev_sequence (filter (\<lambda>e. ev_message_id e = i) (events d)))"

definition non_empty :: "'a list option \<Rightarrow> 'a list option" where
  "non_empty xs = (case xs of None \<Rightarrow> None | Some ys \<Rightarrow> if ys = [] then None else Some ys)"

definition view_message :: "db \<Rightarrow> message_row \<Rightarrow> message_view" where
  "view_message d m =
     \<lparr>mv_id = ms_public_id m, mv_status = message_status_value (ms_status m),
      mv_from_address = ms_from_address m, mv_to = ms_to_addresses m,
      mv_cc = non_empty (ms_cc_addresses m), mv_bcc = non_empty (ms_bcc_addresses m),
      mv_subject = ms_subject m, mv_created_at = isoformat (ms_created_at m),
      mv_completed_at = map_option isoformat (ms_completed_at m), mv_attempts = ms_attempts m,
      mv_failure_class = map_option failure_class_value (ms_failure_class m),
      mv_failure_code = ms_failure_code m, mv_provider_response = ms_provider_response m,
      mv_events = timeline d (ms_id m)\<rparr>"

definition message_not_found :: "string \<Rightarrow> exn" where
  "message_not_found email_id =
     Api_Error Message_Not_Found (''No message with id '' @ py_repr email_id @ ''.'') None"

definition get_email :: "string \<Rightarrow> principal \<Rightarrow> db \<Rightarrow> (message_view \<times> db) result" where
  "get_email email_id p d =
     bind_result (scalar_one_or_none (filter (\<lambda>m. ms_public_id m = email_id \<and>
                    ms_project_id m = pc_project_id p) (messages d)))
       (\<lambda>row. case row of
          None \<Rightarrow> Inl (message_not_found email_id)
        | Some m \<Rightarrow> Inr (view_message d m, d))"

section \<open>Suppressions\<close>

record suppression_view =
  sv_address :: string
  sv_source :: string
  sv_reason :: "string option"
  sv_created_at :: string

definition view_suppression :: "suppression_row \<Rightarrow> suppression_view" where
  "view_suppression s =
     \<lparr>sv_address = su_address s, sv_source = suppression_source_value (su_source s),
      sv_reason = su_reason s, sv_created_at = isoformat (su_created_at s)\<rparr>"

definition get_suppressions ::
    "int \<Rightarrow> int \<Rightarrow> principal \<Rightarrow> db \<Rightarrow> ((nat \<times> suppression_view list) \<times> db) result" where
  "get_suppressions limit offset p d =
     bind_result (list_suppressions d limit offset (Some (pc_project_id p))) (\<lambda>rows.
       Inr ((count_suppressions d (Some (pc_project_id p)), map view_suppression rows), d))"

definition create_suppression ::
    "time \<Rightarrow> suppression_row option \<Rightarrow> suppression_request \<Rightarrow> principal \<Rightarrow> db \<Rightarrow>
     (suppression_view \<times> db) result" where
  "create_suppression now rival rq p d =
     (case add_suppression now rival d d (sq_address rq) Manual
             (Some (if truthy_str (sq_reason rq) then or_empty (sq_reason rq)
                    else ''added via API by project '' @ pc_project_name p))
             (Some (pc_project_id p)) of
        Inl (Invalid_Address m) \<Rightarrow> Inl (validation_error m ''address'')
      | Inl e \<Rightarrow> Inl e
      | Inr (r, _, d') \<Rightarrow> Inr (view_suppression r, d'))"

section \<open>Isolation of projects\<close>

lemma get_email_scoped:
  assumes "messages_ok d"
  shows "get_email email_id p d =
    (case find (\<lambda>m. ms_public_id m = email_id) (messages d) of
       None \<Rightarrow> Inl (message_not_found email_id)
     | Some m \<Rightarrow> if ms_project_id m = pc_project_id p then Inr (view_message d m, d)
                else Inl (message_not_found email_id))"
proof -
  have "filter (\<lambda>m. ms_public_id m = email_id \<and> ms_project_id m = pid) t =
      (case find (\<lambda>m. ms_public_id m = email_id) t of
         None \<Rightarrow> [] | Some m \<Rightarrow> if ms_project_id m = pid then [m] else [])"
    if "unique_on ms_public_id t" for t pid
    using that
  proof (induction t)
    case Nil
    then show ?case by simp
  next
    case (Cons m t)
    have "filter (\<lambda>q. ms_public_id q = ms_public_id m \<and> ms_project_id q = pid) t = []"
      using Cons.prems by (auto simp: unique_on_def filter_empty_conv image_iff)
    with Cons show ?case by (auto simp: unique_on_def)
  qed
  from this [of "messages d" "pc_project_id p"] assms show ?thesis
    by (cases "find (\<lambda>m. ms_public_id m = email_id) (messages d)")
       (simp_all add: get_email_def messages_ok_def scalar_one_or_none_def)
qed

text \<open>
  A key never reads another project's mail, and cannot even learn which ids exist: the answer to
  the id of a foreign message is, to the letter, the answer to an id that does not exist, whatever
  else the two databases hold; its own message is answered with its row and its timeline.
\<close>

theorem get_email_never_foreign:
  assumes "messages_ok d" "messages_ok d'" "m \<in> set (messages d)"
    and "email_id \<notin> ms_public_id ` set (messages d')"
  shows "get_email (ms_public_id m) p d =
      (if ms_project_id m = pc_project_id p then Inr (view_message d m, d)
       else Inl (message_not_found (ms_public_id m)))
    \<and> get_email email_id p d' = Inl (message_not_found email_id)"
proof -
  have "find (\<lambda>q. ms_public_id q = ms_public_id m) (messages d) = Some m"
    using assms(1,3) by (intro find_unique_on) (simp_all add: messages_ok_def)
  moreover have "find (\<lambda>q. ms_public_id q = email_id) (messages d') = None"
    using assms(4) by (auto simp: find_None_ball)
  ultimately show ?thesis using assms(1,2) by (simp add: get_email_scoped)
qed

theorem get_email_never_foreign_witness:
  "get_email ''email_1'' (ex_principal\<lparr>pc_project_id := 2\<rparr>) ex_db = Inl (message_not_found ''email_1'')"
  using get_email_never_foreign [of ex_db ex_db ex_message "''email_9''" "ex_principal\<lparr>pc_project_id := 2\<rparr>"]
  by (simp add: messages_ok_def unique_on_def)

lemma list_suppressions_rows:
  assumes "list_suppressions d limit offset pid = Inr rows"
  shows "set rows \<subseteq> {s \<in> set (suppressions d). in_project pid s}" and "length rows \<le> 1000"
    and "sorted (map (\<lambda>s. - su_created_at s) rows)"
proof -
  let ?all = "sort_key (\<lambda>s. - su_created_at s) (filter (in_project pid) (suppressions d))"
  have rows: "rows = take (nat (min limit 1000)) (drop (nat offset) ?all)"
    using assms by (auto simp: list_suppressions_def Let_def split: if_splits)
  have "set rows \<subseteq> set ?all"
    unfolding rows by (meson set_drop_subset set_take_subset subset_trans)
  then show "set rows \<subseteq> {s \<in> set (suppressions d). in_project pid s}" by auto
  show "length rows \<le> 1000" unfolding rows by simp
  have "sorted (map (\<lambda>s. - su_created_at s) ?all)" by simp
  then show "sorted (map (\<lambda>s. - su_created_at s) rows)"
    unfolding rows take_map [symmetric] drop_map [symmetric]
    by (intro sorted_wrt_take sorted_wrt_drop)
qed

text \<open>
  The suppression listing shows a key only rows its own project added, newest first and at most a
  thousand, with the count of exactly those rows, and changes nothing.
\<close>

theorem suppression_listing_is_scoped:
  assumes "get_suppressions limit offset p d = Inr ((n, views), d')"
  shows "d' = d \<and> n = card {i. i < length (suppressions d) \<and>
        su_project_id (suppressions d ! i) = Some (pc_project_id p)} \<and>
    (\<exists>rows. views = map view_suppression rows \<and> length rows \<le> 1000 \<and>
       sorted (map (\<lambda>s. - su_created_at s) rows) \<and>
       list_all (\<lambda>s. s \<in> set (suppressions d) \<and> su_project_id s = Some (pc_project_id p)) rows)"
proof -
  from assms obtain rows where rows: "list_suppressions d limit offset (Some (pc_project_id p)) = Inr rows"
    "views = map view_suppression rows" "n = count_suppressions d (Some (pc_project_id p))" "d' = d"
    by (auto simp: get_suppressions_def bind_result_eq_Inr)
  from list_suppressions_rows [OF rows(1)] rows(2-) show ?thesis
    by (auto simp: list_all_iff in_project_def count_suppressions_def count_where_def length_filter_conv_card)
qed

definition ex_two_rows :: db where
  "ex_two_rows = ex_db\<lparr>suppressions := [(ex_suppression ''x@b.io'')\<lparr>su_project_id := Some 1\<rparr>,
     (ex_suppression ''y@b.io'')\<lparr>su_project_id := Some 2\<rparr>]\<rparr>"

lemma ex_listing:
  "get_suppressions 100 0 ex_principal ex_two_rows =
     Inr ((1, [view_suppression ((ex_suppression ''x@b.io'')\<lparr>su_project_id := Some 1\<rparr>)]), ex_two_rows)"
  by (simp add: get_suppressions_def list_suppressions_def count_suppressions_def in_project_def
      ex_two_rows_def Let_def)

theorem suppression_listing_is_scoped_witness:
  "\<exists>rows. [view_suppression ((ex_suppression ''x@b.io'')\<lparr>su_project_id := Some 1\<rparr>)] = map view_suppression rows
     \<and> list_all (\<lambda>s. s \<in> set (suppressions ex_two_rows) \<and> su_project_id s = Some (pc_project_id ex_principal)) rows"
  using suppression_listing_is_scoped [OF ex_listing] by (elim conjE exE) (intro exI conjI)

text \<open>
  Creating a suppression is not scoped: for an address another project has suppressed, the response
  is that project's row, with its reason and its time.
\<close>

lemma create_suppression_discloses:
  "create_suppression 5 None \<lparr>sq_address = ''y@b.io'', sq_reason = None\<rparr> ex_principal
     (ex_db\<lparr>suppressions := [(ex_suppression ''y@b.io'')\<lparr>su_project_id := Some 2, su_reason := Some ''secret''\<rparr>]\<rparr>) =
   Inr (view_suppression ((ex_suppression ''y@b.io'')\<lparr>su_project_id := Some 2, su_reason := Some ''secret''\<rparr>),
        ex_db\<lparr>suppressions := [(ex_suppression ''y@b.io'')\<lparr>su_project_id := Some 2, su_reason := Some ''secret''\<rparr>]\<rparr>)"
proof -
  have "normalise_address ''y@b.io'' = Inr ''y@b.io''" by code_simp
  then show ?thesis
    by (simp add: create_suppression_def add_suppression_def ex_suppression_def)
qed

section \<open>The list keeps its promise\<close>

text \<open>
  Suppressing takes effect for every spelling: after an address is added, every address with the
  same canonical form is suppressed and every other one is as before; removing it undoes exactly
  that, whatever case, spaces or display name it is written with.
\<close>

theorem suppression_roundtrip:
  assumes "normalise_address a = Inr n" "normalise_address b = Inr k"
    and "add_suppression now None d d a src reason pid = Inr (row, created, d1)"
    and "remove_suppression d1 b = Inr (removed, d2)"
  shows "is_suppressed d1 b = Inr (k = n \<or> k \<in> suppressed_set d) \<and>
    (created \<longleftrightarrow> n \<notin> suppressed_set d) \<and> (removed \<longleftrightarrow> k = n \<or> k \<in> suppressed_set d) \<and>
    is_suppressed d2 a = Inr (n \<noteq> k) \<and> suppressed_set d2 = insert n (suppressed_set d) - {k}"
proof -
  note add = add_suppression_adds [OF assms(3,1)] and remove = remove_suppression_removes [OF assms(4,2)]
  show ?thesis
    using assms(1,2) add remove by (auto simp: is_suppressed_iff)
qed

theorem suppression_roundtrip_witness:
  "\<exists>d1 d2. is_suppressed d1 ''Ann <U@b.io>'' = Inr True \<and> is_suppressed d2 ''u@b.io'' = Inr False"
proof -
  have n: "normalise_address ''u@b.io'' = Inr ''u@b.io''" "normalise_address ''Ann <U@b.io>'' = Inr ''u@b.io''"
    by code_simp+
  from n(1) obtain row created d1 where add: "add_suppression 0 None ex_db ex_db ''u@b.io'' Bounce None None = Inr (row, created, d1)"
    by (simp add: add_suppression_def Let_def)
  from n(2) obtain removed d2 where "remove_suppression d1 ''Ann <U@b.io>'' = Inr (removed, d2)"
    by (simp add: remove_suppression_def)
  from suppression_roundtrip [OF n add this] show ?thesis by auto
qed

section \<open>Authorization\<close>

text \<open>
  A sender is authorized only when it is: the address parsed from the request is one of the
  addresses the key is scoped to in the database, the mailbox is active, and its domain is ready;
  the key is neither revoked nor inactive and its project is active.
\<close>

theorem authorized_sender_is_scoped:
  assumes "require_principal sha256 now d header = Inr (p, d')"
    and "authorize_sender p from_value = Inr (display_name, mailbox)"
  shows "\<exists>k \<in> set (api_keys d). ak_active k \<and> ak_revoked_at k = None \<and>
      (\<exists>pr \<in> set (projects d). pr_id pr = ak_project_id k \<and> pr_active pr \<and> pc_project_id p = pr_id pr) \<and>
      (\<exists>s \<in> set (api_key_scopes d). sc_api_key_id s = ak_id k \<and> sc_mailbox_id s = mb_id mailbox) \<and>
      mailbox \<in> set (mailboxes d) \<and> mb_active mailbox \<and>
      parse_from_address from_value = Inr (display_name, mb_address mailbox) \<and>
      (\<exists>dmn \<in> set (domains d). dm_id dmn = mb_domain_id mailbox \<and> dm_status dmn = Ready)"
proof -
  from assms(1) obtain key where "resolve_principal sha256 now d key = Inr (p, d')"
    by (auto simp: require_principal_def bind_result_eq_Inr)
  then obtain k pr where k: "find (\<lambda>k. ak_key_hash k = sha256 key) (api_keys d) = Some k"
    "ak_revoked_at k = None" "ak_active k" "project_of d (ak_project_id k) = Some pr" "pr_active pr"
    "p = \<lparr>pc_api_key_id = ak_id k, pc_key_name = ak_name k, pc_project_id = pr_id pr,
          pc_project_name = pr_name pr, pc_mailboxes = scoped_mailboxes d (ak_id k)\<rparr>"
    by (elim resolve_principalE)
  from assms(2) obtain address dmn where s: "parse_from_address from_value = Inr (display_name, address)"
    "map_of (pc_mailboxes p) address = Some (mailbox, Some dmn)" "mb_active mailbox" "dm_status dmn = Ready"
    by (elim authorize_senderE)
  from map_of_SomeD [OF s(2)] k(6)
  have "(address, mailbox, Some dmn) \<in> set (scoped_mailboxes d (ak_id k))" by simp
  then have m: "mailbox \<in> set (mailboxes d)" "address = mb_address mailbox"
    "domain_of d (mb_domain_id mailbox) = Some dmn"
    "\<exists>s \<in> set (api_key_scopes d). sc_api_key_id s = ak_id k \<and> sc_mailbox_id s = mb_id mailbox"
    by (auto simp: scoped_mailboxes_iff)
  have "k \<in> set (api_keys d)" using k(1) find_SomeD(1) by metis
  moreover have "pr \<in> set (projects d)" "pr_id pr = ak_project_id k"
    using k(4) by (auto simp: project_of_def dest: find_SomeD)
  moreover have "dmn \<in> set (domains d)" "dm_id dmn = mb_domain_id mailbox"
    using m(3) by (auto simp: domain_of_def dest: find_SomeD)
  ultimately show ?thesis using k s m
    by (intro bexI [of _ k] conjI bexI [of _ pr] bexI [of _ dmn]) simp_all
qed

theorem authorized_sender_is_scoped_witness:
  "\<exists>k \<in> set (api_keys ex_db). ak_active k \<and> ak_revoked_at k = None"
proof -
  have "\<exists>d'. require_principal (\<lambda>s. s) 5 ex_db (Some ''Bearer em_live_k'') = Inr (ex_principal, d')"
  proof -
    have "extract_bearer (Some ''Bearer em_live_k'') = Inr ''em_live_k''" by code_simp
    moreover have "scoped_mailboxes ex_db 4 = [(''no@a.io'', ex_mailbox, Some ex_domain)]"
      by (simp add: scoped_mailboxes_def domain_of_def ex_scope_def)
    ultimately show ?thesis
      by (simp add: require_principal_def resolve_principal_def hash_api_key_def Let_def ex_key_def
          project_of_def ex_project_def ex_principal_def)
  qed
  then obtain d' where "require_principal (\<lambda>s. s) 5 ex_db (Some ''Bearer em_live_k'') = Inr (ex_principal, d')" ..
  moreover have "authorize_sender ex_principal ''no@a.io'' = Inr (None, ex_mailbox)" by code_simp
  ultimately show ?thesis using authorized_sender_is_scoped by blast
qed

end
