(* ===== verification/Dnscheck.thy ===== *)
theory Dnscheck
  imports Models
begin

text \<open>
  DNS verification (emaild/dnscheck.py): the five record checks, the report and what it permits.
  The resolver is the parameter \<open>dns\<close>, what a query of a name and a record type answers; the
  provider's payload is parsed JSON.  The five checks run concurrently in the source and share
  nothing; here the first one that raises, in the order of the call, is the one that is seen.
\<close>

section \<open>Answers of the resolver\<close>

text \<open>
  \<open>Nothing_There\<close> is \<open>NXDOMAIN\<close> or \<open>NoAnswer\<close>, \<open>Dns_Failure\<close> any other \<open>DNSException\<close> with its type
  name and text.  A TXT record is a list of chunks, \<open>None\<close> being a chunk that is not UTF-8; the
  exchange of an MX record is written with its final dot.
\<close>

datatype dns_record =
    Txt_Record "string option list"
  | Mx_Record nat string

datatype dns_answer =
    Nothing_There
  | Dns_Failure string string
  | Records "dns_record list"

type_synonym resolver = "string \<Rightarrow> string \<Rightarrow> dns_answer"

definition record_value :: "dns_record \<Rightarrow> string result" where
  "record_value r = (case r of
       Txt_Record parts \<Rightarrow>
         bind_result (map_result (\<lambda>p. case p of
             None \<Rightarrow> Inl (Value_Error ''invalid utf-8'') | Some s \<Rightarrow> Inr s) parts)
           (\<lambda>ps. Inr (concat ps))
     | Mx_Record pref exchange \<Rightarrow>
         Inr (str_of_nat pref @ '' '' @ rstrip_chars [CHR ''.''] exchange))"

definition resolve :: "resolver \<Rightarrow> string \<Rightarrow> string \<Rightarrow> (string list \<times> string option) result" where
  "resolve dns name rdtype = (case dns name rdtype of
       Nothing_There \<Rightarrow> Inr ([], None)
     | Dns_Failure kind m \<Rightarrow> Inr ([], Some (kind @ '': '' @ m))
     | Records rs \<Rightarrow> bind_result (map_result record_value rs) (\<lambda>vs. Inr (vs, None)))"

section \<open>Checks\<close>

datatype check_result = Pass | Fail | Missing | Errored

definition check_result_value :: "check_result \<Rightarrow> string" where
  "check_result_value r = (case r of
       Pass \<Rightarrow> ''pass'' | Fail \<Rightarrow> ''fail'' | Missing \<Rightarrow> ''missing'' | Errored \<Rightarrow> ''error'')"

record record_check =
  rc_name :: string
  rc_result :: check_result
  rc_expected :: json
  rc_found :: "string list"
  rc_detail :: "string option"

definition check_of :: "string \<Rightarrow> check_result \<Rightarrow> json \<Rightarrow> string list \<Rightarrow> string option \<Rightarrow> record_check" where
  "check_of name r expected found detail =
     \<lparr>rc_name = name, rc_result = r, rc_expected = expected, rc_found = found, rc_detail = detail\<rparr>"

definition ok :: "record_check \<Rightarrow> bool" where
  "ok c = (rc_result c = Pass)"

definition normalise_txt :: "string \<Rightarrow> string" where
  "normalise_txt s = py_strip (filter (\<lambda>c. c \<notin> {CHR 34, CHR 92, CHR '' '', CHR 9}) s)"

text \<open>\<open>v.split(None, 1)[1]\<close>: what follows the first word and the blanks after it, or \<open>IndexError\<close>.\<close>

definition second_part :: "string \<Rightarrow> string result" where
  "second_part v =
     (let rest = py_lstrip (dropWhile (\<lambda>c. \<not> py_space c) (py_lstrip v))
      in if rest = [] then Inl Index_Error else Inr rest)"

definition mx_hosts :: "string list \<Rightarrow> string list result" where
  "mx_hosts values = map_result (\<lambda>v. bind_result (second_part v) (\<lambda>h. Inr (py_lower h)))
     (filter (\<lambda>v. CHR '' '' \<in> set v) values)"

definition primary_host :: "json list \<Rightarrow> string result" where
  "primary_host expected_hosts = (case expected_hosts of
       [] \<Rightarrow> Inr []
     | h # _ \<Rightarrow> bind_result (json_text_of h ''lower'') (\<lambda>s. Inr (rstrip_chars [CHR ''.''] (py_lower s))))"

definition check_mx :: "resolver \<Rightarrow> string \<Rightarrow> json list \<Rightarrow> record_check result" where
  "check_mx dns name expected_hosts =
     bind_result (resolve dns name ''MX'') (\<lambda>(values, error).
       if truthy_str error then Inr (check_of ''mx'' Errored JNull [] error)
       else if values = [] then
         bind_result (map_result (\<lambda>h. case h of JStr s \<Rightarrow> Inr s
             | _ \<Rightarrow> Inl (Type_Error ''expected str instance'')) expected_hosts)
           (\<lambda>hs. Inr (check_of ''mx'' Missing (JStr (py_join '', '' hs)) [] None))
       else bind_result (mx_hosts values) (\<lambda>found_hosts.
         bind_result (primary_host expected_hosts) (\<lambda>primary.
           if primary \<noteq> [] \<and> primary \<in> set found_hosts
           then Inr (check_of ''mx'' Pass (JStr primary) values None)
           else Inr (check_of ''mx'' Fail (JStr primary) values (Some ''primary MX not published'')))))"

definition spf_record :: "string \<Rightarrow> bool" where
  "spf_record v = starts_with ''v=spf1'' (py_lower (py_strip v))"

definition check_spf :: "resolver \<Rightarrow> string \<Rightarrow> json \<Rightarrow> record_check result" where
  "check_spf dns name expected_value =
     bind_result (resolve dns name ''TXT'') (\<lambda>(values, error).
       if truthy_str error then Inr (check_of ''spf'' Errored JNull [] error)
       else (case filter spf_record values of
           [] \<Rightarrow> Inr (check_of ''spf'' Missing expected_value [] None)
         | published # others \<Rightarrow>
             if others \<noteq> [] then Inr (check_of ''spf'' Fail expected_value (published # others)
                 (Some ''multiple SPF records published; RFC 7208 requires exactly one''))
             else if \<not> py_in ''include:mxroute.com'' (py_lower (normalise_txt published)) then
               Inr (check_of ''spf'' Fail expected_value [published]
                 (Some ''SPF does not authorise mxroute.com''))
             else Inr (check_of ''spf'' Pass expected_value [published] None)))"

definition fqdn_of :: "string \<Rightarrow> string \<Rightarrow> string" where
  "fqdn_of label name = (if \<not> ends_with name label then label @ ''.'' @ name else label)"

definition length_note :: "string \<Rightarrow> string" where
  "length_note v = str_of_nat (length v) @ '' chars''"

definition looks_truncated :: "string \<Rightarrow> string \<Rightarrow> string \<Rightarrow> bool" where
  "looks_truncated want expected published =
     (starts_with (take 60 (normalise_txt published)) want \<and> length published < length expected)"

definition check_dkim :: "resolver \<Rightarrow> string \<Rightarrow> json \<Rightarrow> json \<Rightarrow> record_check result" where
  "check_dkim dns name selector_name expected_value =
     (if \<not> json_truthy selector_name \<or> \<not> json_truthy expected_value then
        Inr (check_of ''dkim'' Missing JNull []
          (Some ''provider has not generated a DKIM key for this domain''))
      else bind_result (json_text_of selector_name ''endswith'') (\<lambda>selector.
        let fqdn = fqdn_of selector name in
        bind_result (resolve dns fqdn ''TXT'') (\<lambda>(values, error).
          if truthy_str error then Inr (check_of ''dkim'' Errored (JStr fqdn) [] error)
          else if values = [] then Inr (check_of ''dkim'' Missing (JStr fqdn) [] None)
          else bind_result (json_text_of expected_value ''replace'') (\<lambda>expected.
            let want = normalise_txt expected in
            case find (\<lambda>v. normalise_txt v = want) values of
              Some published \<Rightarrow>
                Inr (check_of ''dkim'' Pass (JStr fqdn) [length_note published] None)
            | None \<Rightarrow>
                Inr (check_of ''dkim'' Fail (JStr fqdn) (map length_note values)
                  (Some (if list_ex (looks_truncated want expected) values
                    then ''published DKIM appears truncated (record split or quoted incorrectly)''
                    else ''published DKIM does not match the provider'' @ [CHR 39] @ ''s key'')))))))"

definition dmarc_record :: "string \<Rightarrow> bool" where
  "dmarc_record v = starts_with ''v=dmarc1'' (py_lower (py_strip v))"

definition check_dmarc :: "resolver \<Rightarrow> string \<Rightarrow> record_check result" where
  "check_dmarc dns name =
     bind_result (resolve dns (''_dmarc.'' @ name) ''TXT'') (\<lambda>(values, error).
       if truthy_str error then Inr (check_of ''dmarc'' Errored JNull [] error)
       else if filter dmarc_record values = [] then
         Inr (check_of ''dmarc'' Missing JNull []
           (Some ''MXRoute does not supply DMARC; author one (start at p=none)''))
       else Inr (check_of ''dmarc'' Pass JNull (filter dmarc_record values) None))"

definition check_ownership :: "resolver \<Rightarrow> string \<Rightarrow> json \<Rightarrow> record_check result" where
  "check_ownership dns name token_name =
     (if \<not> json_truthy token_name then
        Inr (check_of ''ownership'' Missing JNull [] (Some ''no verification token known''))
      else bind_result (json_text_of token_name ''endswith'') (\<lambda>token.
        let fqdn = fqdn_of token name in
        bind_result (resolve dns fqdn ''TXT'') (\<lambda>(values, error).
          if truthy_str error then Inr (check_of ''ownership'' Errored (JStr fqdn) [] error)
          else if list_ex (\<lambda>v. normalise_txt v = ''domain-verified'') values then
            Inr (check_of ''ownership'' Pass (JStr fqdn) [] None)
          else Inr (check_of ''ownership'' (if values = [] then Missing else Fail) (JStr fqdn)
                 values None))))"

section \<open>The report\<close>

record dns_report =
  rp_domain :: string
  rp_checks :: "(string \<times> record_check) list"

definition required_checks :: "string list" where
  "required_checks = [''mx'', ''spf'', ''dkim'']"

definition check_named :: "dns_report \<Rightarrow> string \<Rightarrow> record_check option" where
  "check_named r k = dict_get (rp_checks r) k"

definition failing :: "dns_report \<Rightarrow> string \<Rightarrow> bool" where
  "failing r k = (case check_named r k of None \<Rightarrow> False | Some c \<Rightarrow> \<not> ok c)"

definition report_can_send :: "dns_report \<Rightarrow> bool" where
  "report_can_send r = list_all (\<lambda>k. \<not> failing r k) required_checks"

definition had_lookup_errors :: "dns_report \<Rightarrow> bool" where
  "had_lookup_errors r = list_ex (\<lambda>(k, c). rc_result c = Errored) (rp_checks r)"

definition failures :: "dns_report \<Rightarrow> string list" where
  "failures r = filter (failing r) required_checks"

definition check_dict :: "record_check \<Rightarrow> json" where
  "check_dict c = JObj [(''result'', JStr (check_result_value (rc_result c))),
     (''expected'', rc_expected c), (''found'', JArr (map JStr (rc_found c))),
     (''detail'', json_of_str_option (rc_detail c))]"

definition report_to_dict :: "dns_report \<Rightarrow> json" where
  "report_to_dict r = JObj [(''can_send'', JBool (report_can_send r)),
     (''checks'', JObj (map (\<lambda>(k, c). (k, check_dict c)) (rp_checks r)))]"

definition published_hosts :: "json \<Rightarrow> json list result" where
  "published_hosts dns_info =
     bind_result (get_or dns_info ''mx_records'' (JArr [])) (\<lambda>records.
       bind_result (json_items records) (\<lambda>rs.
         bind_result (map_result (\<lambda>r. json_get r ''hostname'') rs) (\<lambda>hs.
           Inr (filter json_truthy hs))))"

definition verify_domain :: "resolver \<Rightarrow> string \<Rightarrow> json \<Rightarrow> dns_report result" where
  "verify_domain dns name dns_info =
     bind_result (published_hosts dns_info) (\<lambda>hosts.
     bind_result (bind_result (get_or dns_info ''spf'' (JObj [])) (\<lambda>s. json_get s ''value'')) (\<lambda>spf.
     bind_result (get_or dns_info ''dkim'' (JObj [])) (\<lambda>dkim.
     bind_result (get_or dns_info ''verification'' (JObj [])) (\<lambda>verification.
     bind_result (json_get dkim ''name'') (\<lambda>dkim_name.
     bind_result (json_get dkim ''value'') (\<lambda>dkim_value.
     bind_result (json_get verification ''name'') (\<lambda>token.
     bind_result (check_mx dns name hosts) (\<lambda>c1.
     bind_result (check_spf dns name spf) (\<lambda>c2.
     bind_result (check_dkim dns name dkim_name dkim_value) (\<lambda>c3.
     bind_result (check_dmarc dns name) (\<lambda>c4.
     bind_result (check_ownership dns name token) (\<lambda>c5.
       Inr \<lparr>rp_domain = name,
            rp_checks = [(''mx'', c1), (''spf'', c2), (''dkim'', c3), (''dmarc'', c4),
              (''ownership'', c5)]\<rparr>))))))))))))"

section \<open>What the checks establish\<close>

definition lookup_failed :: "resolver \<Rightarrow> string \<Rightarrow> string \<Rightarrow> bool" where
  "lookup_failed dns name rdtype =
     (case dns name rdtype of Dns_Failure kind m \<Rightarrow> True | _ \<Rightarrow> False)"

lemma resolve_error:
  "resolve dns name rdtype = Inr (values, error) \<Longrightarrow>
   truthy_str error = lookup_failed dns name rdtype"
  by (auto simp: resolve_def lookup_failed_def truthy_str_def result_simps
      split: dns_answer.splits)

lemma check_of_sel [simp]:
  "rc_name (check_of name r expected found detail) = name"
  "rc_result (check_of name r expected found detail) = r"
  "ok (check_of name r expected found detail) = (r = Pass)"
  by (simp_all add: check_of_def ok_def)

lemma check_mx_Inr:
  assumes "check_mx dns name hosts = Inr c"
  shows "rc_result c = Errored \<longleftrightarrow> lookup_failed dns name ''MX''"
    and "ok c \<Longrightarrow> \<exists>values found h hs. resolve dns name ''MX'' = Inr (values, None) \<and>
           mx_hosts values = Inr found \<and> hosts = JStr h # hs \<and>
           rstrip_chars [CHR ''.''] (py_lower h) \<in> set found"
proof -
  obtain vals error where run: "resolve dns name ''MX'' = Inr (vals, error)"
    using assms by (cases "resolve dns name ''MX''") (auto simp: check_mx_def)
  note err = resolve_error [OF run]
  show "rc_result c = Errored \<longleftrightarrow> lookup_failed dns name ''MX''"
    using assms run err
    by (cases "truthy_str error") (auto simp: check_mx_def result_simps split: if_splits)
  assume c: "ok c"
  have "\<not> truthy_str error" "vals \<noteq> []"
    using assms run c by (auto simp: check_mx_def result_simps split: if_splits)
  moreover from this(1) run have "error = None"
    by (auto simp: resolve_def truthy_str_def result_simps split: dns_answer.splits)
  ultimately obtain found primary where "mx_hosts vals = Inr found"
    "primary_host hosts = Inr primary" "primary \<noteq> []" "primary \<in> set found" "error = None"
    using assms run c by (auto simp: check_mx_def result_simps split: if_splits)
  then show "\<exists>values found h hs. resolve dns name ''MX'' = Inr (values, None) \<and>
      mx_hosts values = Inr found \<and> hosts = JStr h # hs \<and>
      rstrip_chars [CHR ''.''] (py_lower h) \<in> set found"
    using run by (auto simp: primary_host_def result_simps split: list.splits)
qed

lemma resolve_no_error:
  "resolve dns name rdtype = Inr (values, error) \<Longrightarrow> \<not> truthy_str error \<Longrightarrow> error = None"
  by (auto simp: resolve_def truthy_str_def result_simps split: dns_answer.splits)

lemma check_spf_Inr:
  assumes "check_spf dns name expected = Inr c"
  shows "rc_result c = Errored \<longleftrightarrow> lookup_failed dns name ''TXT''"
    and "ok c \<Longrightarrow> \<exists>values v. resolve dns name ''TXT'' = Inr (values, None) \<and>
           filter spf_record values = [v] \<and>
           py_in ''include:mxroute.com'' (py_lower (normalise_txt v))"
proof -
  obtain vals error where run: "resolve dns name ''TXT'' = Inr (vals, error)"
    using assms by (cases "resolve dns name ''TXT''") (auto simp: check_spf_def)
  note err = resolve_error [OF run]
  show "rc_result c = Errored \<longleftrightarrow> lookup_failed dns name ''TXT''"
    using assms run err
    by (cases "truthy_str error")
       (auto simp: check_spf_def result_simps split: if_splits list.splits)
  show "ok c \<Longrightarrow> \<exists>values v. resolve dns name ''TXT'' = Inr (values, None) \<and>
      filter spf_record values = [v] \<and>
      py_in ''include:mxroute.com'' (py_lower (normalise_txt v))"
    using assms run resolve_no_error [OF run]
    by (auto simp: check_spf_def result_simps split: if_splits list.splits)
qed

lemma check_dkim_Inr:
  assumes "check_dkim dns name selector expected = Inr c"
  shows "rc_result c = Errored \<longleftrightarrow> json_truthy expected \<and>
           (\<exists>s. s \<noteq> [] \<and> selector = JStr s \<and> lookup_failed dns (fqdn_of s name) ''TXT'')"
    and "ok c \<Longrightarrow> \<exists>s key values v. selector = JStr s \<and> expected = JStr key \<and>
           resolve dns (fqdn_of s name) ''TXT'' = Inr (values, None) \<and>
           v \<in> set values \<and> normalise_txt v = normalise_txt key"
proof -
  consider (none) "\<not> json_truthy selector \<or> \<not> json_truthy expected"
    | (some) s where "selector = JStr s" "s \<noteq> []" "json_truthy expected"
    using assms by (fastforce simp: check_dkim_def result_simps json_truthy_def split: if_splits)
  note cases = this
  show "rc_result c = Errored \<longleftrightarrow> json_truthy expected \<and>
      (\<exists>s. s \<noteq> [] \<and> selector = JStr s \<and> lookup_failed dns (fqdn_of s name) ''TXT'')"
  proof (cases rule: cases)
    case none
    then show ?thesis using assms by (auto simp: check_dkim_def json_truthy_def)
  next
    case some
    then obtain vals error where run: "resolve dns (fqdn_of s name) ''TXT'' = Inr (vals, error)"
      using assms by (cases "resolve dns (fqdn_of s name) ''TXT''")
        (auto simp: check_dkim_def json_truthy_def json_text_of_def)
    from some run show ?thesis using assms resolve_error [OF run]
      by (cases "truthy_str error")
         (auto simp: check_dkim_def json_truthy_def json_text_of_def result_simps Let_def
            split: if_splits option.splits)
  qed
  assume c: "ok c"
  show "\<exists>s key values v. selector = JStr s \<and> expected = JStr key \<and>
      resolve dns (fqdn_of s name) ''TXT'' = Inr (values, None) \<and>
      v \<in> set values \<and> normalise_txt v = normalise_txt key"
  proof (cases rule: cases)
    case none
    then show ?thesis using assms c by (auto simp: check_dkim_def)
  next
    case some
    then obtain vals error where run: "resolve dns (fqdn_of s name) ''TXT'' = Inr (vals, error)"
      using assms by (cases "resolve dns (fqdn_of s name) ''TXT''")
        (auto simp: check_dkim_def json_truthy_def json_text_of_def)
    obtain key v where "expected = JStr key" "\<not> truthy_str error"
      "find (\<lambda>v. normalise_txt v = normalise_txt key) vals = Some v"
      using assms c some run
      by (auto simp: check_dkim_def json_truthy_def json_text_of_def [of "JStr s"] result_simps
          Let_def split: if_splits option.splits)
    with some run resolve_no_error [OF run] show ?thesis by (auto dest: find_SomeD)
  qed
qed

lemma check_dmarc_Inr:
  assumes "check_dmarc dns name = Inr c"
  shows "rc_result c = Errored \<longleftrightarrow> lookup_failed dns (''_dmarc.'' @ name) ''TXT''"
proof -
  obtain vals error where run: "resolve dns (''_dmarc.'' @ name) ''TXT'' = Inr (vals, error)"
    using assms by (cases "resolve dns (''_dmarc.'' @ name) ''TXT''") (auto simp: check_dmarc_def)
  show ?thesis using assms run resolve_error [OF run]
    by (cases "truthy_str error") (auto simp: check_dmarc_def result_simps split: if_splits)
qed

lemma check_ownership_Inr:
  assumes "check_ownership dns name token = Inr c"
  shows "rc_result c = Errored \<longleftrightarrow>
           (\<exists>t. t \<noteq> [] \<and> token = JStr t \<and> lookup_failed dns (fqdn_of t name) ''TXT'')"
    and "ok c \<Longrightarrow> \<exists>t values v. token = JStr t \<and>
           resolve dns (fqdn_of t name) ''TXT'' = Inr (values, None) \<and>
           v \<in> set values \<and> normalise_txt v = ''domain-verified''"
proof -
  consider (none) "\<not> json_truthy token" | (some) t where "token = JStr t" "t \<noteq> []"
    using assms by (fastforce simp: check_ownership_def result_simps json_truthy_def split: if_splits)
  note cases = this
  show "rc_result c = Errored \<longleftrightarrow>
      (\<exists>t. t \<noteq> [] \<and> token = JStr t \<and> lookup_failed dns (fqdn_of t name) ''TXT'')"
  proof (cases rule: cases)
    case none
    then show ?thesis using assms by (auto simp: check_ownership_def json_truthy_def)
  next
    case some
    then obtain vals error where run: "resolve dns (fqdn_of t name) ''TXT'' = Inr (vals, error)"
      using assms by (cases "resolve dns (fqdn_of t name) ''TXT''")
        (auto simp: check_ownership_def json_truthy_def json_text_of_def)
    from some run show ?thesis using assms resolve_error [OF run]
      by (cases "truthy_str error")
         (auto simp: check_ownership_def json_truthy_def json_text_of_def result_simps Let_def
            split: if_splits)
  qed
  assume c: "ok c"
  show "\<exists>t values v. token = JStr t \<and>
      resolve dns (fqdn_of t name) ''TXT'' = Inr (values, None) \<and>
      v \<in> set values \<and> normalise_txt v = ''domain-verified''"
  proof (cases rule: cases)
    case none
    then show ?thesis using assms c by (auto simp: check_ownership_def)
  next
    case some
    then obtain vals error where run: "resolve dns (fqdn_of t name) ''TXT'' = Inr (vals, error)"
      using assms by (cases "resolve dns (fqdn_of t name) ''TXT''")
        (auto simp: check_ownership_def json_truthy_def json_text_of_def)
    have "\<not> truthy_str error" "list_ex (\<lambda>v. normalise_txt v = ''domain-verified'') vals"
      using assms c some run
      by (auto simp: check_ownership_def json_truthy_def json_text_of_def [of "JStr t"] result_simps
          Let_def split: if_splits)
    with some run resolve_no_error [OF run] show ?thesis by (auto simp: list_ex_iff)
  qed
qed

text \<open>The parts of a report, with the provider's fields each check was given.\<close>

lemma verify_domain_InrE:
  assumes "verify_domain dns name dns_info = Inr r"
  obtains hosts spf dkim_name dkim_value token c1 c2 c3 c4 c5 where
    "published_hosts dns_info = Inr hosts"
    "check_mx dns name hosts = Inr c1" "check_spf dns name spf = Inr c2"
    "check_dkim dns name dkim_name dkim_value = Inr c3" "check_dmarc dns name = Inr c4"
    "check_ownership dns name token = Inr c5"
    "bind_result (get_or dns_info ''spf'' (JObj [])) (\<lambda>j. json_get j ''value'') = Inr spf"
    "bind_result (get_or dns_info ''dkim'' (JObj [])) (\<lambda>j. json_get j ''name'') = Inr dkim_name"
    "bind_result (get_or dns_info ''dkim'' (JObj [])) (\<lambda>j. json_get j ''value'') = Inr dkim_value"
    "bind_result (get_or dns_info ''verification'' (JObj [])) (\<lambda>j. json_get j ''name'') = Inr token"
    "r = \<lparr>rp_domain = name, rp_checks = [(''mx'', c1), (''spf'', c2), (''dkim'', c3),
            (''dmarc'', c4), (''ownership'', c5)]\<rparr>"
  using assms unfolding verify_domain_def bind_result_eq_Inr by fastforce

lemma report_of_five:
  assumes "r = \<lparr>rp_domain = name, rp_checks = [(''mx'', c1), (''spf'', c2), (''dkim'', c3),
            (''dmarc'', c4), (''ownership'', c5)]\<rparr>"
  shows "check_named r ''ownership'' = Some c5"
    and "report_can_send r \<longleftrightarrow> ok c1 \<and> ok c2 \<and> ok c3"
    and "had_lookup_errors r \<longleftrightarrow> Errored \<in> rc_result ` {c1, c2, c3, c4, c5}"
  using assms
  by (auto simp: check_named_def dict_get_def report_can_send_def failing_def required_checks_def
      had_lookup_errors_def)

text \<open>
  A report permits sending only on live evidence: the lookups of MX, SPF and DKIM all answered,
  the provider's first mail host is among the published ones, exactly one SPF record is published
  and names the provider, and a TXT record at the DKIM name equals the provider's key up to
  quoting and blanks.
\<close>

theorem can_send_needs_evidence:
  assumes "verify_domain dns name dns_info = Inr r" "report_can_send r"
  shows "\<exists>hosts h hs mx found txt spf selector key dkim v.
     published_hosts dns_info = Inr hosts \<and> hosts = JStr h # hs \<and>
     resolve dns name ''MX'' = Inr (mx, None) \<and> mx_hosts mx = Inr found \<and>
     rstrip_chars [CHR ''.''] (py_lower h) \<in> set found \<and>
     resolve dns name ''TXT'' = Inr (txt, None) \<and> filter spf_record txt = [spf] \<and>
     py_in ''include:mxroute.com'' (py_lower (normalise_txt spf)) \<and>
     bind_result (get_or dns_info ''dkim'' (JObj [])) (\<lambda>j. json_get j ''name'') = Inr (JStr selector) \<and>
     bind_result (get_or dns_info ''dkim'' (JObj [])) (\<lambda>j. json_get j ''value'') = Inr (JStr key) \<and>
     resolve dns (fqdn_of selector name) ''TXT'' = Inr (dkim, None) \<and>
     v \<in> set dkim \<and> normalise_txt v = normalise_txt key"
proof -
  obtain hosts spf dn dv tok c1 c2 c3 c4 c5 where p: "published_hosts dns_info = Inr hosts"
    "check_mx dns name hosts = Inr c1" "check_spf dns name spf = Inr c2"
    "check_dkim dns name dn dv = Inr c3"
    "bind_result (get_or dns_info ''dkim'' (JObj [])) (\<lambda>j. json_get j ''name'') = Inr dn"
    "bind_result (get_or dns_info ''dkim'' (JObj [])) (\<lambda>j. json_get j ''value'') = Inr dv"
    and r: "r = \<lparr>rp_domain = name, rp_checks = [(''mx'', c1), (''spf'', c2), (''dkim'', c3),
            (''dmarc'', c4), (''ownership'', c5)]\<rparr>"
    using assms(1) by (rule verify_domain_InrE)
  have "ok c1" "ok c2" "ok c3" using assms(2) report_of_five(2) [OF r] by simp_all
  with check_mx_Inr(2) [OF p(2)] check_spf_Inr(2) [OF p(3)] check_dkim_Inr(2) [OF p(4)] p
  show ?thesis by (metis (no_types, lifting))
qed

text \<open>
  A lookup that failed is never taken for a missing record, nor the other way round: a check of
  the report is in error exactly when its own query failed, whatever the other queries did.
\<close>

theorem errored_iff_lookup_failed:
  assumes "verify_domain dns name dns_info = Inr r"
    and "bind_result (get_or dns_info ''dkim'' (JObj [])) (\<lambda>j. json_get j ''name'') = Inr selector"
    and "bind_result (get_or dns_info ''dkim'' (JObj [])) (\<lambda>j. json_get j ''value'') = Inr key"
    and "bind_result (get_or dns_info ''verification'' (JObj [])) (\<lambda>j. json_get j ''name'') = Inr token"
  shows "map (\<lambda>(k, c). (k, rc_result c = Errored)) (rp_checks r) =
    [(''mx'', lookup_failed dns name ''MX''), (''spf'', lookup_failed dns name ''TXT''),
     (''dkim'', json_truthy key \<and> (\<exists>s. s \<noteq> [] \<and> selector = JStr s \<and>
        lookup_failed dns (fqdn_of s name) ''TXT'')),
     (''dmarc'', lookup_failed dns (''_dmarc.'' @ name) ''TXT''),
     (''ownership'', \<exists>t. t \<noteq> [] \<and> token = JStr t \<and> lookup_failed dns (fqdn_of t name) ''TXT'')]"
proof -
  obtain hosts spf dn dv tok c1 c2 c3 c4 c5 where p: "check_mx dns name hosts = Inr c1"
    "check_spf dns name spf = Inr c2" "check_dkim dns name dn dv = Inr c3"
    "check_dmarc dns name = Inr c4" "check_ownership dns name tok = Inr c5"
    "bind_result (get_or dns_info ''dkim'' (JObj [])) (\<lambda>j. json_get j ''name'') = Inr dn"
    "bind_result (get_or dns_info ''dkim'' (JObj [])) (\<lambda>j. json_get j ''value'') = Inr dv"
    "bind_result (get_or dns_info ''verification'' (JObj [])) (\<lambda>j. json_get j ''name'') = Inr tok"
    and r: "r = \<lparr>rp_domain = name, rp_checks = [(''mx'', c1), (''spf'', c2), (''dkim'', c3),
            (''dmarc'', c4), (''ownership'', c5)]\<rparr>"
    using assms(1) by (rule verify_domain_InrE)
  have "dn = selector" "dv = key" "tok = token" using p(6-8) assms(2-4) by simp_all
  then show ?thesis
    using check_mx_Inr(1) [OF p(1)] check_spf_Inr(1) [OF p(2)] check_dkim_Inr(1) [OF p(3)]
      check_dmarc_Inr [OF p(4)] check_ownership_Inr(1) [OF p(5)]
    by (simp add: r)
qed

section \<open>Instances\<close>

definition ex_dns_info :: json where
  "ex_dns_info = JObj [(''mx_records'', JArr [JObj [(''hostname'', JStr ''mx.a.io'')]]),
     (''spf'', JObj [(''value'', JStr ''v=spf1 include:mxroute.com -all'')]),
     (''dkim'', JObj [(''name'', JStr ''x._domainkey''), (''value'', JStr ''p=k'')]),
     (''verification'', JObj [(''name'', JStr ''tok'')])]"

definition ex_dns :: resolver where
  "ex_dns name rdtype =
     (if rdtype = ''MX'' then Records [Mx_Record 10 ''MX.a.io.'']
      else if name = ''a.io'' then Records [Txt_Record [Some ''v=spf1 '', Some ''include:mxroute.com -all'']]
      else if name = ''x._domainkey.a.io'' then Records [Txt_Record [Some ''p=k'']]
      else if name = ''tok.a.io'' then Records [Txt_Record [Some ''domain-verified'']]
      else Nothing_There)"

definition ex_report :: dns_report where
  "ex_report = (case verify_domain ex_dns ''a.io'' ex_dns_info of
     Inr r \<Rightarrow> r | Inl e \<Rightarrow> \<lparr>rp_domain = [], rp_checks = []\<rparr>)"

lemma ex_verify: "verify_domain ex_dns ''a.io'' ex_dns_info = Inr ex_report"
proof -
  have "\<not> isl (verify_domain ex_dns ''a.io'' ex_dns_info)" by code_simp
  then show ?thesis by (auto simp: ex_report_def split: sum.splits)
qed

theorem can_send_needs_evidence_witness:
  "\<exists>h hs found. published_hosts ex_dns_info = Inr (JStr h # hs) \<and>
     rstrip_chars [CHR ''.''] (py_lower h) \<in> set found"
proof -
  have "report_can_send ex_report" by code_simp
  from can_send_needs_evidence [OF ex_verify this] show ?thesis by metis
qed

theorem errored_iff_lookup_failed_witness:
  "map (\<lambda>(k, c). rc_result c = Errored) (rp_checks ex_report) = [False, False, False, False, False]"
proof -
  have "bind_result (get_or ex_dns_info ''dkim'' (JObj [])) (\<lambda>j. json_get j ''name'') = Inr (JStr ''x._domainkey'')"
    "bind_result (get_or ex_dns_info ''dkim'' (JObj [])) (\<lambda>j. json_get j ''value'') = Inr (JStr ''p=k'')"
    "bind_result (get_or ex_dns_info ''verification'' (JObj [])) (\<lambda>j. json_get j ''name'') = Inr (JStr ''tok'')"
    by code_simp+
  note e = errored_iff_lookup_failed [OF ex_verify this]
  have "map (\<lambda>(k, c). rc_result c = Errored) (rp_checks ex_report) =
      map snd (map (\<lambda>(k, c). (k, rc_result c = Errored)) (rp_checks ex_report))"
    by (simp add: case_prod_unfold)
  then show ?thesis unfolding e by (simp add: lookup_failed_def ex_dns_def fqdn_of_def)
qed

text \<open>
  A domain that publishes the null MX record (\<open>0 .\<close>) has an MX value with nothing after the blank,
  and the check raises instead of failing.
\<close>

lemma null_mx_raises:
  "check_mx (\<lambda>name rdtype. Records [Mx_Record 0 ''.'']) ''a.io'' [JStr ''mx.a.io''] = Inl Index_Error"
  by code_simp

end
