(* ===== verification/Mxroute.thy ===== *)
theory Mxroute
  imports Ratelimit
begin

text \<open>
  The provider's control-plane client (emaild/providers/mxroute.py): the pacing of calls, the
  request loop with its retries, the reading of an answer, and one operation per endpoint.  The
  network is the parameter \<open>transport\<close>: what a call sent at some time is answered, when the answer
  arrives, and what becomes of the provider's own state.  A sleep lasts as long as asked plus
  \<open>late now\<close>, the scheduler's delay, a further parameter.
\<close>

section \<open>Pacing\<close>

definition read_limit_per_minute :: int where "read_limit_per_minute = 100"
definition write_limit_per_minute :: int where "write_limit_per_minute = 20"
definition safety :: rat where "safety = 4 / 5"

record limiter =
  lm_read_limit :: int
  lm_write_limit :: int
  lm_reads :: "time list"
  lm_writes :: "time list"

definition new_limiter :: limiter where
  "new_limiter = \<lparr>lm_read_limit = py_trunc (of_int read_limit_per_minute * safety),
     lm_write_limit = py_trunc (of_int write_limit_per_minute * safety),
     lm_reads = [], lm_writes = []\<rparr>"

definition upper_ascii :: "char \<Rightarrow> char" where
  "upper_ascii c = (if 97 \<le> ord c \<and> ord c \<le> 122 then char_of (ord c - 32) else c)"

definition is_write :: "string \<Rightarrow> bool" where
  "is_write method = (map upper_ascii method \<in> {''POST'', ''PATCH'', ''PUT'', ''DELETE''})"

definition sleep_until :: "(time \<Rightarrow> nat) \<Rightarrow> time \<Rightarrow> time \<Rightarrow> time" where
  "sleep_until late now d = now + max 0 d + int (late now)"

text \<open>The calls of the bucket that still count, the limit for one minute.\<close>

definition in_minute :: "time \<Rightarrow> time \<Rightarrow> bool" where
  "in_minute now t = (now - t < seconds 60)"

definition pace_wait :: "time \<Rightarrow> time \<Rightarrow> time" where
  "pace_wait now oldest = seconds 60 - (now - oldest) + microseconds 50000"

text \<open>
  The loop of \<open>acquire\<close> on one bucket, from the time it starts.  It returns the bucket and the time
  it is left at; \<open>IndexError\<close> is the limit of zero.  It ends because the oldest call of the bucket
  is out of the window after the sleep.
\<close>

lemma filter_filter_le:
  "(\<And>t. P t \<Longrightarrow> Q t) \<Longrightarrow> filter P (filter Q xs) = filter P xs"
  by (induction xs) auto

lemma sleep_ages_oldest: "\<not> in_minute (sleep_until late now (pace_wait now oldest)) oldest"
  by (auto simp: in_minute_def sleep_until_def pace_wait_def seconds_def microseconds_def)

lemma sleep_until_ge: "now \<le> sleep_until late now d"
  by (simp add: sleep_until_def)

lemma pace_ages_out: "now \<le> later \<Longrightarrow> in_minute later t \<Longrightarrow> in_minute now t"
  by (simp add: in_minute_def)

function acquire_loop ::
    "(time \<Rightarrow> nat) \<Rightarrow> int \<Rightarrow> time list \<Rightarrow> time \<Rightarrow> unit result \<times> time list \<times> time" where
  "acquire_loop late limit bucket now =
     (let live = filter (in_minute now) bucket in
      if int (length live) < limit then (Inr (), live @ [now], now)
      else (case live of
          [] \<Rightarrow> (Inl Index_Error, [], now)
        | oldest # newer \<Rightarrow>
            acquire_loop late limit live (sleep_until late now (pace_wait now oldest))))"
  by pat_completeness auto

termination
proof (relation "measure (\<lambda>(late, limit, bucket, now). length (filter (in_minute now) bucket))",
    goal_cases)
  case 1
  then show ?case by simp
next
  case (2 late limit bucket now live oldest newer)
  let ?now' = "sleep_until late now (pace_wait now oldest)"
  have "length (filter (in_minute ?now') live) \<le> length newer"
    using 2(3) sleep_ages_oldest [of late now oldest] by simp
  also have "\<dots> < length live" using 2(3) by simp
  finally show ?case using 2(1) by simp
qed

declare acquire_loop.simps [simp del]

definition acquire ::
    "(time \<Rightarrow> nat) \<Rightarrow> limiter \<Rightarrow> time \<Rightarrow> string \<Rightarrow> unit result \<times> limiter \<times> time" where
  "acquire late lm now method =
     (if is_write method then
        (case acquire_loop late (lm_write_limit lm) (lm_writes lm) now of
           (r, bucket, t) \<Rightarrow> (r, lm\<lparr>lm_writes := bucket\<rparr>, t))
      else
        (case acquire_loop late (lm_read_limit lm) (lm_reads lm) now of
           (r, bucket, t) \<Rightarrow> (r, lm\<lparr>lm_reads := bucket\<rparr>, t)))"

section \<open>Answers\<close>

text \<open>
  An answer: status, length of the body, its JSON (\<open>None\<close> when the body is not JSON), and the two
  headers that are read.
\<close>

record http_response =
  hr_status :: int
  hr_content_length :: nat
  hr_json :: "json option"
  hr_retry_after :: "string option"
  hr_remaining :: "string option"

datatype http_outcome =
    Timed_Out
  | Transport_Failed string
  | Answered http_response

text \<open>
  \<open>float(s)\<close> on a plain decimal; exponents, underscores, \<open>inf\<close> and \<open>nan\<close> are not told apart from
  text, on which it raises.
\<close>

definition digits_value :: "string \<Rightarrow> int" where
  "digits_value s = foldl (\<lambda>n c. n * 10 + (int (ord c) - 48)) 0 s"

definition py_float :: "string \<Rightarrow> rat result" where
  "py_float s =
     (let t = py_strip s;
          (sign, u) = (if starts_with ''-'' t then (-1, tl t)
                       else if starts_with ''+'' t then (1, tl t) else (1, t));
          (whole, dot, frac) = partition_at (CHR ''.'') u
      in if list_all ascii_digit (whole @ frac) \<and> whole @ frac \<noteq> []
         then Inr (sign * (of_int (digits_value (whole @ frac)) / 10 ^ length frac))
         else Inl (Value_Error (''could not convert string to float: '' @ py_repr s)))"

definition retry_delay :: "http_response \<Rightarrow> time result" where
  "retry_delay r = (case hr_retry_after r of
       None \<Rightarrow> Inr (seconds 5)
     | Some s \<Rightarrow> bind_result (py_float s) (\<lambda>x. Inr (round_half_even (x * 1000000))))"

text \<open>\<open>_log_budget\<close> only logs, but \<open>int()\<close> refuses the superscripts that \<open>isdigit\<close> admits.\<close>

definition log_budget :: "http_response \<Rightarrow> unit result" where
  "log_budget r = (case hr_remaining r of
       None \<Rightarrow> Inr ()
     | Some s \<Rightarrow>
         if s \<noteq> [] \<and> list_all py_digit s \<and> \<not> list_all ascii_digit s
         then Inl (Value_Error (''invalid literal for int() with base 10: '' @ py_repr s))
         else Inr ())"

definition text_or :: "json \<Rightarrow> string \<Rightarrow> string \<Rightarrow> string result" where
  "text_or j k default_text =
     bind_result (json_get_default j k (JStr default_text)) (\<lambda>v. Inr (json_str v))"

definition handle_failure :: "int \<Rightarrow> json \<Rightarrow> json result" where
  "handle_failure status payload =
     bind_result (get_or payload ''error'' (JObj [])) (\<lambda>err.
     bind_result (text_or err ''code'' ''UNKNOWN'') (\<lambda>code.
       if code = ''NOT_FOUND'' \<or> status = 404 then
         bind_result (text_or err ''message'' ''not found'') (\<lambda>m. Inl (MX_Not_Found m))
       else
         bind_result (text_or err ''message'' []) (\<lambda>m.
         bind_result (json_get err ''field'') (\<lambda>f.
           Inl (MX_API_Error code m (if json_truthy f then Some (json_str f) else None))))))"

definition handle :: "http_response \<Rightarrow> string \<Rightarrow> string \<Rightarrow> json result" where
  "handle r method path =
     (let status = hr_status r; call = method @ '' '' @ path in
      if status \<in> {401, 403} then
        Inl (MX_Auth_Error (''credentials rejected on '' @ call @ '' ('' @ str_of_int status @ '')''))
      else if status \<in> {404, 405} \<and> method \<noteq> ''GET'' then
        Inl (MX_Unavailable (call @ '' unavailable ('' @ str_of_int status @ '')''))
      else if status = 405 then
        Inl (MX_Unavailable (call @ '' not implemented by provider (405)''))
      else if status = 409 then
        Inl (MX_Conflict (call @ '' conflicts with existing resource''))
      else if status = 204 \<or> hr_content_length r = 0 then Inr JNull
      else (case hr_json r of
          None \<Rightarrow> Inl (MX_Error (call @ '' returned non-JSON ('' @ str_of_int status @ ''); '' @
            str_of_nat (hr_content_length r) @ '' bytes''))
        | Some payload \<Rightarrow>
            (case payload of
               JObj kvs \<Rightarrow>
                 if dict_get kvs ''success'' = Some (JBool False) then handle_failure status payload
                 else if 400 \<le> status then
                   Inl (MX_Error (call @ '' failed with HTTP '' @ str_of_int status))
                 else Inr (case dict_get kvs ''data'' of Some v \<Rightarrow> v | None \<Rightarrow> payload)
             | _ \<Rightarrow>
                 if 400 \<le> status then
                   Inl (MX_Error (call @ '' failed with HTTP '' @ str_of_int status))
                 else Inr payload)))"

section \<open>The request loop\<close>

text \<open>The client between two calls: its limiter, the time, and the provider's state.\<close>

record 'p client =
  cl_limiter :: limiter
  cl_now :: time
  cl_provider :: 'p

type_synonym 'p transport =
  "string \<Rightarrow> string \<Rightarrow> json option \<Rightarrow> time \<Rightarrow> 'p \<Rightarrow> http_outcome \<times> nat \<times> 'p"

definition send_call ::
    "'p transport \<Rightarrow> string \<Rightarrow> string \<Rightarrow> json option \<Rightarrow> 'p client \<Rightarrow> http_outcome \<times> 'p client" where
  "send_call transport method path body c =
     (case transport method path body (cl_now c) (cl_provider c) of
        (outcome, duration, p) \<Rightarrow>
          (outcome, c\<lparr>cl_now := cl_now c + int duration, cl_provider := p\<rparr>))"

definition pause :: "(time \<Rightarrow> nat) \<Rightarrow> time \<Rightarrow> 'p client \<Rightarrow> 'p client" where
  "pause late d c = c\<lparr>cl_now := sleep_until late (cl_now c) d\<rparr>"

text \<open>
  \<open>left\<close> attempts of \<open>max_attempts\<close> are left.  A 429 sleeps for \<open>Retry-After\<close> even after the last
  attempt; a failure of the transport sleeps only before another one.
\<close>

fun request_loop ::
    "(time \<Rightarrow> nat) \<Rightarrow> 'p transport \<Rightarrow> nat \<Rightarrow> string \<Rightarrow> string \<Rightarrow> json option \<Rightarrow> nat \<Rightarrow> exn option \<Rightarrow>
     'p client \<Rightarrow> json result \<times> 'p client" where
  "request_loop late transport max_attempts method path body 0 last_exc c =
     (Inl (case last_exc of Some e \<Rightarrow> e
       | None \<Rightarrow> MX_Error (method @ '' '' @ path @ '' failed after '' @ str_of_nat max_attempts @
           '' attempts'')), c)"
| "request_loop late transport max_attempts method path body (Suc left) last_exc c =
     (case acquire late (cl_limiter c) (cl_now c) method of
        (Inl e, lm, t) \<Rightarrow> (Inl e, c\<lparr>cl_limiter := lm, cl_now := t\<rparr>)
      | (Inr _, lm, t) \<Rightarrow>
          let backoff = (if left = 0 then id else pause late (seconds (min (2 ^ (max_attempts - left)) 8)));
              retry = (\<lambda>m c'. request_loop late transport max_attempts method path body left
                (Some (MX_Error m)) c')
          in
          (case send_call transport method path body (c\<lparr>cl_limiter := lm, cl_now := t\<rparr>) of
             (Timed_Out, c1) \<Rightarrow> retry (''timeout calling '' @ method @ '' '' @ path) (backoff c1)
           | (Transport_Failed m, c1) \<Rightarrow>
               retry (''transport error calling '' @ method @ '' '' @ path @ '': '' @ m) (backoff c1)
           | (Answered r, c1) \<Rightarrow>
               if hr_status r = 429 then
                 (case retry_delay r of
                    Inl e \<Rightarrow> (Inl e, c1)
                  | Inr d \<Rightarrow> retry ''rate limited by provider'' (pause late d c1))
               else (bind_result (log_budget r) (\<lambda>_. handle r method path), c1)))"

definition request ::
    "(time \<Rightarrow> nat) \<Rightarrow> 'p transport \<Rightarrow> string \<Rightarrow> string \<Rightarrow> json option \<Rightarrow> 'p client \<Rightarrow>
     json result \<times> 'p client" where
  "request late transport method path body c =
     request_loop late transport 3 method path body 3 None c"

section \<open>Operations of the client\<close>

text \<open>
  The operations over any \<open>requester\<close>: \<open>request late transport\<close> on the state \<open>client\<close> is the one the
  program uses.
\<close>

type_synonym 'p requester = "string \<Rightarrow> string \<Rightarrow> json option \<Rightarrow> 'p \<Rightarrow> json result \<times> 'p"

definition after_call :: "'a result \<times> 'p \<Rightarrow> ('a \<Rightarrow> 'b result) \<Rightarrow> 'b result \<times> 'p" where
  "after_call answer f = (bind_result (fst answer) f, snd answer)"

definition get_verification_key :: "'p requester \<Rightarrow> 'p \<Rightarrow> json result \<times> 'p" where
  "get_verification_key rq p = after_call (rq ''GET'' ''/verification-key'' None p) json_dict_or_empty"

definition get_quota :: "'p requester \<Rightarrow> 'p \<Rightarrow> json result \<times> 'p" where
  "get_quota rq p = after_call (rq ''GET'' ''/quota'' None p) json_dict_or_empty"

definition list_domains :: "'p requester \<Rightarrow> 'p \<Rightarrow> json list result \<times> 'p" where
  "list_domains rq p = after_call (rq ''GET'' ''/domains'' None p) json_list_or_empty"

definition create_domain :: "'p requester \<Rightarrow> string \<Rightarrow> 'p \<Rightarrow> json result \<times> 'p" where
  "create_domain rq name p =
     after_call (rq ''POST'' ''/domains'' (Some (JObj [(''domain'', JStr name)])) p) json_dict_or_empty"

definition get_dns :: "'p requester \<Rightarrow> string \<Rightarrow> 'p \<Rightarrow> json result \<times> 'p" where
  "get_dns rq name p = after_call (rq ''GET'' (''/domains/'' @ name @ ''/dns'') None p) json_dict_or_empty"

definition accounts_path :: "string \<Rightarrow> string" where
  "accounts_path name = ''/domains/'' @ name @ ''/email-accounts''"

definition list_email_accounts :: "'p requester \<Rightarrow> string \<Rightarrow> 'p \<Rightarrow> json list result \<times> 'p" where
  "list_email_accounts rq name p = after_call (rq ''GET'' (accounts_path name) None p) json_list_or_empty"

definition create_email_account ::
    "'p requester \<Rightarrow> string \<Rightarrow> string \<Rightarrow> string \<Rightarrow> int \<Rightarrow> int \<Rightarrow> 'p \<Rightarrow> json result \<times> 'p" where
  "create_email_account rq name username password quota_mb daily_limit p =
     rq ''POST'' (accounts_path name)
       (Some (JObj [(''username'', JStr username), (''password'', JStr password),
          (''quota'', JInt quota_mb), (''limit'', JInt daily_limit)])) p"

definition get_email_account :: "'p requester \<Rightarrow> string \<Rightarrow> string \<Rightarrow> 'p \<Rightarrow> json result \<times> 'p" where
  "get_email_account rq name username p =
     after_call (rq ''GET'' (accounts_path name @ ''/'' @ username) None p) json_dict_or_empty"

definition update_email_account ::
    "'p requester \<Rightarrow> string \<Rightarrow> string \<Rightarrow> string option \<Rightarrow> int option \<Rightarrow> int option \<Rightarrow> 'p \<Rightarrow>
     json result \<times> 'p" where
  "update_email_account rq name username password quota_mb daily_limit p =
     (let body = (case password of None \<Rightarrow> [] | Some s \<Rightarrow> [(''password'', JStr s)])
        @ (case quota_mb of None \<Rightarrow> [] | Some q \<Rightarrow> [(''quota'', JInt q)])
        @ (case daily_limit of None \<Rightarrow> [] | Some l \<Rightarrow> [(''limit'', JInt l)])
      in if body = [] then
           (Inl (Value_Error ''update_email_account requires at least one field to change''), p)
         else rq ''PATCH'' (accounts_path name @ ''/'' @ username) (Some (JObj body)) p)"

section \<open>What pacing guarantees\<close>

interpretation pace: sliding_window in_minute
  by unfold_locales (rule pace_ages_out)

text \<open>One turn of the loop, by what it finds.\<close>

lemma acquire_loop_now:
  assumes "int (count_where (in_minute now) bucket) < limit"
  shows "acquire_loop late limit bucket now = (Inr (), filter (in_minute now) bucket @ [now], now)"
  using assms by (subst acquire_loop.simps) (simp add: Let_def count_where_def)

lemma acquire_loop_full:
  assumes "\<not> int (count_where (in_minute now) bucket) < limit"
    and "filter (in_minute now) bucket = oldest # newer"
  shows "acquire_loop late limit bucket now =
    acquire_loop late limit (oldest # newer) (sleep_until late now (pace_wait now oldest))"
  using assms by (subst acquire_loop.simps) (simp add: Let_def count_where_def)

text \<open>
  What the loop leaves in the bucket stands for the whole history: a call that was dropped does not
  count at any later time.
\<close>

lemma acquire_loop_spec:
  assumes "acquire_loop late limit bucket now = (Inr (), bucket', t)"
  shows "now \<le> t \<and> bucket' = filter (in_minute t) bucket @ [t] \<and>
    int (count_where (in_minute t) bucket) < limit"
  using assms
proof (induction late limit bucket now arbitrary: bucket' t rule: acquire_loop.induct)
  case (1 late limit bucket now)
  define live where "live = filter (in_minute now) bucket"
  show ?case
  proof (cases "int (count_where (in_minute now) bucket) < limit")
    case True
    with acquire_loop_now [OF True] "1.prems" show ?thesis by auto
  next
    case False
    show ?thesis
    proof (cases live)
      case Nil
      with False "1.prems" show ?thesis
        by (subst (asm) acquire_loop.simps) (simp add: live_def Let_def count_where_def)
    next
      case (Cons oldest newer)
      let ?t1 = "sleep_until late now (pace_wait now oldest)"
      have "acquire_loop late limit live ?t1 = (Inr (), bucket', t)"
        using acquire_loop_full [OF False] Cons "1.prems" by (simp add: live_def)
      moreover have "\<not> int (length live) < limit"
        using False by (simp add: live_def count_where_def)
      ultimately have ih: "?t1 \<le> t \<and> bucket' = filter (in_minute t) live @ [t] \<and>
          int (count_where (in_minute t) live) < limit"
        using "1.IH" [OF live_def _ Cons] by simp
      moreover have "now \<le> t" using ih sleep_until_ge order_trans by blast
      moreover from this have "filter (in_minute t) live = filter (in_minute t) bucket"
        unfolding live_def by (intro filter_filter_le) (rule pace_ages_out)
      ultimately show ?thesis by (simp add: count_where_def)
    qed
  qed
qed

text \<open>
  C35 Pacing always comes to an end, and after at most one sleep: with a bucket no longer than its
  positive limit, the call goes out at once or when the oldest one is a minute and 50 ms old, and
  the bucket is again no longer than the limit.
\<close>

theorem pacing_sleeps_at_most_once:
  assumes "int (length bucket) \<le> limit" "0 < limit"
  shows "\<exists>bucket' t. acquire_loop late limit bucket now = (Inr (), bucket', t) \<and>
    int (length bucket') \<le> limit \<and> (t = now \<or>
      (\<exists>oldest \<in> set bucket. in_minute now oldest \<and> t = sleep_until late now (pace_wait now oldest)))"
proof (cases "int (count_where (in_minute now) bucket) < limit")
  case True
  then show ?thesis by (simp add: acquire_loop_now count_where_def)
next
  case False
  then obtain oldest newer where live: "filter (in_minute now) bucket = oldest # newer"
    using assms(2) by (cases "filter (in_minute now) bucket") (auto simp: count_where_def)
  let ?t = "sleep_until late now (pace_wait now oldest)"
  have "length (filter (in_minute ?t) (oldest # newer)) \<le> length newer"
    by (simp add: sleep_ages_oldest)
  also have "length newer < length bucket"
    using live length_filter_le [of "in_minute now" bucket] by simp
  finally have room: "int (count_where (in_minute ?t) (oldest # newer)) < limit"
    using assms(1) by (simp add: count_where_def)
  have "oldest \<in> set bucket \<and> in_minute now oldest"
    using live by (metis (no_types, lifting) list.set_intros(1) mem_Collect_eq set_filter)
  with acquire_loop_full [OF False live] acquire_loop_now [OF room] room show ?thesis
    by (auto simp: count_where_def)
qed

theorem pacing_sleeps_at_most_once_witness:
  "\<exists>bucket' t. acquire_loop (\<lambda>_. 0) 1 [0] 5 = (Inr (), bucket', t) \<and> int (length bucket') \<le> 1"
  using pacing_sleeps_at_most_once [of "[0]" 1 "\<lambda>_. 0" 5] by auto

text \<open>
  The calls one client lets through, in order: each with whether it is a write and the time it
  goes out.  The lock of \<open>acquire\<close> makes one wait for the other.
\<close>

inductive paced :: "limiter \<Rightarrow> time \<Rightarrow> (bool \<times> time) list \<Rightarrow> bool" where
  start: "paced new_limiter now []"
| turn: "paced lm now calls \<Longrightarrow> now \<le> asked \<Longrightarrow> acquire late lm asked method = (Inr (), lm', t) \<Longrightarrow>
    paced lm' t (calls @ [(is_write method, t)])"

definition kind_times :: "bool \<Rightarrow> (bool \<times> time) list \<Rightarrow> time list" where
  "kind_times w calls = map snd (filter (\<lambda>(w', t). w' = w) calls)"

definition bucket_of :: "bool \<Rightarrow> limiter \<Rightarrow> time list" where
  "bucket_of w lm = (if w then lm_writes lm else lm_reads lm)"

definition limit_of :: "bool \<Rightarrow> limiter \<Rightarrow> int" where
  "limit_of w lm = (if w then lm_write_limit lm else lm_read_limit lm)"

lemma kind_times_append [simp]:
  "kind_times w (calls @ [(w', t)]) = kind_times w calls @ (if w' = w then [t] else [])"
  by (simp add: kind_times_def)

lemma acquire_bucket:
  assumes "acquire late lm asked method = (Inr (), lm', t)"
  shows "acquire_loop late (limit_of (is_write method) lm) (bucket_of (is_write method) lm) asked =
      (Inr (), bucket_of (is_write method) lm', t)"
    and "bucket_of (\<not> is_write method) lm' = bucket_of (\<not> is_write method) lm"
    and "limit_of w lm' = limit_of w lm"
  using assms by (auto simp: acquire_def bucket_of_def limit_of_def split: prod.splits if_splits)

definition in_minute_before :: "time \<Rightarrow> time \<Rightarrow> bool" where
  "in_minute_before tm t = (t \<le> tm \<and> in_minute tm t)"

text \<open>The bucket and the history agree on every count from now on.\<close>

lemma paced_invariant:
  assumes "paced lm now calls"
  shows "limit_of w lm = (if w then 16 else 80) \<and>
    (\<forall>t \<in> set (kind_times w calls). t \<le> now) \<and>
    (\<forall>tm \<ge> now. filter (in_minute tm) (bucket_of w lm) = filter (in_minute tm) (kind_times w calls)) \<and>
    (\<forall>tm. int (count_where (in_minute_before tm) (kind_times w calls)) \<le> limit_of w lm)"
  using assms
proof induction
  case (start now)
  show ?case
    by (simp add: new_limiter_def limit_of_def bucket_of_def kind_times_def py_trunc_def
        read_limit_per_minute_def write_limit_per_minute_def safety_def)
next
  case (turn lm now calls asked late verb lm' t)
  note a = acquire_bucket [OF turn.hyps(3)]
  note spec = acquire_loop_spec [OF a(1)]
  show ?case
  proof (cases "is_write verb = w")
    case False
    then have "w = (\<not> is_write verb)" by simp
    then show ?thesis using turn a(2,3) spec by force
  next
    case True
    from spec True have t: "asked \<le> t"
      and b: "bucket_of w lm' = filter (in_minute t) (bucket_of w lm) @ [t]"
      and room: "int (count_where (in_minute t) (bucket_of w lm)) < limit_of w lm"
      by auto
    have now_t: "now \<le> t" using t turn.hyps(2) by simp
    have agree: "filter (in_minute tm) (bucket_of w lm) = filter (in_minute tm) (kind_times w calls)"
      if "now \<le> tm" for tm using turn.IH that by blast
    have later: "filter (in_minute tm) (bucket_of w lm') =
        filter (in_minute tm) (kind_times w calls @ [t])" if "t \<le> tm" for tm
    proof -
      have "filter (in_minute tm) (filter (in_minute t) (bucket_of w lm)) =
          filter (in_minute tm) (bucket_of w lm)"
        by (rule filter_filter_le) (rule pace_ages_out [OF that])
      with agree [of tm] that now_t show ?thesis by (simp only: b filter_append)
    qed
    have old: "\<forall>s \<in> set (kind_times w calls). s \<le> now" using turn.IH by blast
    have count: "int (count_where (in_minute_before tm) (kind_times w calls @ [t])) \<le> limit_of w lm" for tm
    proof (cases "t \<le> tm")
      case True
      have "count_where (in_minute tm) (kind_times w calls) \<le> count_where (in_minute t) (kind_times w calls)"
        by (rule pace.count_antimono [OF True])
      also have "\<dots> = count_where (in_minute t) (bucket_of w lm)"
        using agree [OF now_t] by (simp add: count_where_def)
      finally have "int (count_where (in_minute tm) (kind_times w calls @ [t])) \<le> limit_of w lm"
        using room by simp
      moreover have "count_where (in_minute_before tm) (kind_times w calls @ [t]) \<le>
          count_where (in_minute tm) (kind_times w calls @ [t])"
        by (rule count_where_mono) (simp add: in_minute_before_def)
      ultimately show ?thesis by linarith
    next
      case False
      then have "\<not> in_minute_before tm t" by (simp add: in_minute_before_def)
      moreover have "int (count_where (in_minute_before tm) (kind_times w calls)) \<le> limit_of w lm"
        using turn.IH by blast
      ultimately show ?thesis by simp
    qed
    have "kind_times w (calls @ [(is_write verb, t)]) = kind_times w calls @ [t]" using True by simp
    moreover have "\<forall>s \<in> set (kind_times w calls @ [t]). s \<le> t" using old now_t by auto
    ultimately show ?thesis using turn.IH a(3) [of w] later count by simp
  qed
qed

lemma paced_count:
  assumes "paced lm now calls"
  shows "int (count_where (in_minute_before tm) (kind_times w calls)) \<le> (if w then 16 else 80)"
proof -
  have "int (count_where (in_minute_before tm) (kind_times w calls)) \<le> limit_of w lm"
    "limit_of w lm = (if w then 16 else 80)"
    using paced_invariant [OF assms, of w] by blast+
  then show ?thesis by metis
qed

text \<open>
  C23 However calls arrive, and whatever the scheduler adds to a sleep, in no minute, past or
  present, does a client make more than 16 writes or 80 reads: 80 percent of what the provider
  documents.
\<close>

theorem provider_budget_respected:
  assumes "paced lm now calls"
  shows "count_where (in_minute_before tm) (kind_times True calls) \<le> 16 \<and>
    count_where (in_minute_before tm) (kind_times False calls) \<le> 80"
proof -
  have "int (count_where (in_minute_before tm) (kind_times True calls)) \<le> 16"
    "int (count_where (in_minute_before tm) (kind_times False calls)) \<le> 80"
    using paced_count [OF assms, of tm True] paced_count [OF assms, of tm False] by simp_all
  then show ?thesis by linarith
qed

theorem provider_budget_respected_witness:
  "count_where (in_minute_before 9) (kind_times True [(True, 7)]) \<le> 16"
proof -
  have "acquire_loop late 16 [] 7 = (Inr (), [7], 7)" for late
    by (subst acquire_loop.simps) simp
  then have "acquire (\<lambda>_. 0) new_limiter 7 ''POST'' = (Inr (), new_limiter\<lparr>lm_writes := [7]\<rparr>, 7)"
    by (simp add: acquire_def new_limiter_def py_trunc_def write_limit_per_minute_def safety_def
        is_write_def upper_ascii_def ord_def)
  from paced.turn [OF paced.start [of 0] _ this]
  have "paced (new_limiter\<lparr>lm_writes := [7]\<rparr>) 7 [(True, 7)]"
    by (simp add: is_write_def upper_ascii_def ord_def)
  from provider_budget_respected [OF this] show ?thesis by blast
qed

section \<open>What a request promises\<close>

text \<open>A transport that counts its calls, beside the provider's own state.\<close>

definition counting :: "'p transport \<Rightarrow> (nat \<times> 'p) transport" where
  "counting transport method path body now np =
     (case transport method path body now (snd np) of
        (outcome, duration, p) \<Rightarrow> (outcome, duration, (Suc (fst np), p)))"

definition calls_made :: "(nat \<times> 'p) client \<Rightarrow> nat" where
  "calls_made c = fst (cl_provider c)"

lemma calls_made_simps [simp]:
  "calls_made (pause late d c) = calls_made c"
  "calls_made (c\<lparr>cl_limiter := lm, cl_now := t\<rparr>) = calls_made c"
  by (simp_all add: calls_made_def pause_def)

lemma calls_made_send:
  "send_call (counting transport) method path body c = (outcome, c') \<Longrightarrow>
   calls_made c' = Suc (calls_made c)"
  by (auto simp: send_call_def counting_def calls_made_def split: prod.splits)

lemma request_loop_calls:
  "request_loop late (counting transport) max_attempts method path body left last_exc c = (r, c') \<Longrightarrow>
   calls_made c \<le> calls_made c' \<and> calls_made c' \<le> calls_made c + left"
proof (induction left arbitrary: last_exc c)
  case 0
  then show ?case by simp
next
  case (Suc left)
  obtain ra lm t where acq: "acquire late (cl_limiter c) (cl_now c) method = (ra, lm, t)"
    by (cases "acquire late (cl_limiter c) (cl_now c) method") auto
  show ?case
  proof (cases ra)
    case (Inl e)
    with Suc.prems acq have "c' = c\<lparr>cl_limiter := lm, cl_now := t\<rparr>" by simp
    then show ?thesis by simp
  next
    case (Inr u)
    let ?c0 = "c\<lparr>cl_limiter := lm, cl_now := t\<rparr>"
    obtain outcome c1 where call: "send_call (counting transport) method path body ?c0 = (outcome, c1)"
      by (cases "send_call (counting transport) method path body ?c0") auto
    have one: "calls_made c1 = Suc (calls_made c)" using calls_made_send [OF call] by simp
    have again: ?thesis if "request_loop late (counting transport) max_attempts method path body left
        last c2 = (r, c')" "calls_made c2 = calls_made c1" for last c2
      using Suc.IH [OF that(1)] that(2) one by linarith
    show ?thesis
    proof (cases outcome)
      case Timed_Out
      with Suc.prems acq Inr call show ?thesis
        by - (rule again [of _ "(if left = 0 then id else pause late
              (seconds (min (2 ^ (max_attempts - left)) 8))) c1"], simp_all)
    next
      case (Transport_Failed m)
      with Suc.prems acq Inr call show ?thesis
        by - (rule again [of _ "(if left = 0 then id else pause late
              (seconds (min (2 ^ (max_attempts - left)) 8))) c1"], simp_all)
    next
      case (Answered rs)
      show ?thesis
      proof (cases "hr_status rs = 429")
        case False
        with Suc.prems acq Inr call Answered have "c' = c1" by simp
        with one show ?thesis by simp
      next
        case True
        show ?thesis
        proof (cases "retry_delay rs")
          case (Inl e)
          with Suc.prems acq Inr call Answered True have "c' = c1" by simp
          with one show ?thesis by simp
        next
          case (Inr d)
          with Suc.prems acq \<open>ra = Inr u\<close> call Answered True show ?thesis
            by - (rule again [of _ "pause late d c1"], simp_all)
        qed
      qed
    qed
  qed
qed

text \<open>A value comes from an answer the provider gave, read as \<open>handle\<close> reads it.\<close>

lemma request_loop_value:
  "request_loop late transport max_attempts method path body left last_exc c = (Inr v, c') \<Longrightarrow>
   \<exists>rs now p duration p'. transport method path body now p = (Answered rs, duration, p') \<and>
     hr_status rs \<noteq> 429 \<and> handle rs method path = Inr v \<and> cl_provider c' = p'"
proof (induction left arbitrary: last_exc c)
  case 0
  then show ?case by (simp split: option.splits)
next
  case (Suc left)
  obtain ra lm t where acq: "acquire late (cl_limiter c) (cl_now c) method = (ra, lm, t)"
    by (cases "acquire late (cl_limiter c) (cl_now c) method") auto
  with Suc.prems obtain u where ra: "ra = Inr u" by (cases ra) auto
  let ?c0 = "c\<lparr>cl_limiter := lm, cl_now := t\<rparr>"
  obtain outcome duration p' where tr:
    "transport method path body t (cl_provider c) = (outcome, duration, p')"
    by (cases "transport method path body t (cl_provider c)") auto
  let ?c1 = "?c0\<lparr>cl_now := t + int duration, cl_provider := p'\<rparr>"
  have call: "send_call transport method path body ?c0 = (outcome, ?c1)"
    by (simp add: send_call_def tr)
  show ?case
  proof (cases outcome)
    case Timed_Out
    with Suc.prems acq ra call show ?thesis by (intro Suc.IH) simp
  next
    case (Transport_Failed m)
    with Suc.prems acq ra call show ?thesis by (intro Suc.IH) simp
  next
    case (Answered rs)
    show ?thesis
    proof (cases "hr_status rs = 429")
      case True
      with Suc.prems acq ra call Answered obtain d where "retry_delay rs = Inr d"
        by (cases "retry_delay rs") auto
      with Suc.prems acq ra call Answered True show ?thesis by (intro Suc.IH) simp
    next
      case False
      with Suc.prems acq ra call Answered
      have r: "bind_result (log_budget rs) (\<lambda>_. handle rs method path) = Inr v" and c': "c' = ?c1"
        by simp_all
      from r have "handle rs method path = Inr v" by (auto simp: result_simps)
      with tr Answered False c' show ?thesis by auto
    qed
  qed
qed


definition ex_client :: "(nat \<times> nat) client" where
  "ex_client = \<lparr>cl_limiter = new_limiter, cl_now = 0, cl_provider = (0, 0)\<rparr>"

text \<open>Answers for the instances: a failure of the transport first, then an empty page with status 500.\<close>

definition ex_empty_500 :: http_response where
  "ex_empty_500 = \<lparr>hr_status = 500, hr_content_length = 0, hr_json = None, hr_retry_after = None,
     hr_remaining = None\<rparr>"

definition ex_transport :: "nat transport" where
  "ex_transport method path body now n =
     ((if n = 0 then Timed_Out else Answered ex_empty_500), 7, Suc n)"

text \<open>An error status with an empty body is read as success without data.\<close>

lemma empty_error_is_success: "handle ex_empty_500 method path = Inr JNull"
  by (simp add: handle_def ex_empty_500_def)

lemma ex_first_acquire: "acquire late new_limiter 0 ''GET'' = (Inr (), new_limiter\<lparr>lm_reads := [0]\<rparr>, 0)"
proof -
  have "acquire_loop late 80 [] 0 = (Inr (), [0], 0)" by (subst acquire_loop.simps) simp
  then show ?thesis
    by (simp add: acquire_def new_limiter_def py_trunc_def read_limit_per_minute_def safety_def
        is_write_def upper_ascii_def ord_def)
qed


end
