(* ===== verification/Domains.thy ===== *)
theory Domains
  imports Dnscheck Mxroute Fixtures
begin

text \<open>
  The domain lifecycle (emaild/domains.py): the next status from evidence, the refresh of one domain
  against the provider and live DNS, adding a domain, the records to publish, and the advice after
  a failed add.  A call's state is the database with the provider's; what was changed before an
  exception stays changed.  A text column is given a string or null; anything else is refused where
  it is assigned (the driver refuses it when the row is written).
\<close>

section \<open>Status\<close>

definition operator_controlled :: "domain_status list" where
  "operator_controlled = [Suspended]"

definition next_status ::
    "domain_status \<Rightarrow> dns_report \<Rightarrow> bool \<Rightarrow> domain_status \<times> string option" where
  "next_status current report has_mailbox =
     (if current \<in> set operator_controlled then
        (current, Some ''operator-controlled status left untouched'')
      else
        let ownership = check_named report ''ownership'' in
        if (case ownership of None \<Rightarrow> False | Some c \<Rightarrow> \<not> ok c) then
          (if (case ownership of None \<Rightarrow> False | Some c \<Rightarrow> rc_result c = Errored)
           then (current, Some ''ownership lookup failed; status held'')
           else (Ownership_Pending, Some ''verification TXT not resolving''))
        else if \<not> report_can_send report then
          (if had_lookup_errors report
           then (current, Some ''DNS lookup errors; status held pending a clean sweep'')
           else if current = Ready
           then (Misconfigured, Some (''was ready; now failing: '' @ py_join '', '' (failures report)))
           else (Dns_Incomplete, Some (''missing: '' @ py_join '', '' (failures report))))
        else if \<not> has_mailbox then
          (Verified, Some ''DNS complete; awaiting mailbox provisioning'')
        else (Ready, None))"

section \<open>The records to publish\<close>

definition dns_row :: "json \<Rightarrow> json \<Rightarrow> json \<Rightarrow> json \<Rightarrow> json" where
  "dns_row kind name v priority =
     JObj [(''type'', kind), (''name'', name), (''value'', v), (''priority'', priority)]"

text \<open>\<open>s.replace('\"', "")\<close> with the backslash in the pattern.\<close>

fun remove_escaped_quotes :: "string \<Rightarrow> string" where
  "remove_escaped_quotes [] = []"
| "remove_escaped_quotes [c] = [c]"
| "remove_escaped_quotes (c # e # s) =
     (if c = CHR 92 \<and> e = CHR 34 then remove_escaped_quotes s else c # remove_escaped_quotes (e # s))"

definition mx_row :: "json \<Rightarrow> json result" where
  "mx_row mx =
     bind_result (json_get_default mx ''hostname'' (JStr [])) (\<lambda>h.
     bind_result (json_get_default mx ''priority'' (JInt 10)) (\<lambda>pr.
       Inr (dns_row (JStr ''MX'') (JStr ''@'') h (JStr (json_str pr)))))"

definition spf_rows :: "json \<Rightarrow> json list result" where
  "spf_rows spf = bind_result (json_get spf ''value'') (\<lambda>v.
     Inr (if json_truthy v then [dns_row (JStr ''TXT'') (JStr ''@'') v (JStr [])] else []))"

definition dkim_rows :: "json \<Rightarrow> json list result" where
  "dkim_rows dkim = bind_result (json_get dkim ''value'') (\<lambda>v.
     if json_truthy v then
       bind_result (json_get_default dkim ''name'' (JStr ''x._domainkey'')) (\<lambda>n.
       bind_result (json_text_of v ''strip'') (\<lambda>key.
         Inr [dns_row (JStr ''TXT'') n (JStr (remove_escaped_quotes (strip_chars [CHR 34] key))) (JStr [])]))
     else Inr [])"

definition verification_rows :: "json \<Rightarrow> json list result" where
  "verification_rows verification = bind_result (json_get verification ''name'') (\<lambda>n.
     if json_truthy n then
       bind_result (json_get_default verification ''value'' (JStr ''domain-verified'')) (\<lambda>v.
         Inr [dns_row (JStr ''TXT'') n v (JStr [])])
     else Inr [])"

definition dmarc_row :: json where
  "dmarc_row = dns_row (JStr ''TXT'') (JStr ''_dmarc'') (JStr ''v=DMARC1; p=none;'') (JStr [])"

definition required_dns_records :: "string \<Rightarrow> json \<Rightarrow> json list result" where
  "required_dns_records domain_name dns_info =
     bind_result (get_or dns_info ''mx_records'' (JArr [])) (\<lambda>mx.
     bind_result (json_items mx) (\<lambda>mxs.
     bind_result (map_result mx_row mxs) (\<lambda>r1.
     bind_result (get_or dns_info ''spf'' (JObj [])) (\<lambda>spf.
     bind_result (spf_rows spf) (\<lambda>r2.
     bind_result (get_or dns_info ''dkim'' (JObj [])) (\<lambda>dkim.
     bind_result (dkim_rows dkim) (\<lambda>r3.
     bind_result (get_or dns_info ''verification'' (JObj [])) (\<lambda>verification.
     bind_result (verification_rows verification) (\<lambda>r4.
       Inr (r1 @ r2 @ r3 @ r4 @ [dmarc_row]))))))))))"

section \<open>Refreshing a domain\<close>

type_synonym 'p world = "db \<times> 'p"

definition on_provider :: "('p \<Rightarrow> 'a \<times> 'p) \<Rightarrow> 'p world \<Rightarrow> 'a \<times> 'p world" where
  "on_provider f w = (case f (snd w) of (r, p) \<Rightarrow> (r, (fst w, p)))"

definition on_db :: "(db \<Rightarrow> db) \<Rightarrow> 'p world \<Rightarrow> 'p world" where
  "on_db f w = (f (fst w), snd w)"

definition column_text :: "json \<Rightarrow> string option result" where
  "column_text j = (case j of
       JNull \<Rightarrow> Inr None | JStr s \<Rightarrow> Inr (Some s) | _ \<Rightarrow> Inl (Type_Error ''expected str''))"

record domain_refresh =
  rf_domain :: string
  rf_previous :: domain_status
  rf_current :: domain_status
  rf_report :: "dns_report option"
  rf_changed :: bool
  rf_note :: "string option"

definition set_smtp_host :: "nat \<Rightarrow> json \<Rightarrow> 'p world \<Rightarrow> unit result \<times> 'p world" where
  "set_smtp_host i dns_info w =
     (case get_or dns_info ''mx_records'' (JArr []) of
        Inl e \<Rightarrow> (Inl e, w)
      | Inr mx \<Rightarrow>
          if json_truthy mx then
            (case bind_result (json_first mx) (\<lambda>m. bind_result (json_get m ''hostname'') column_text) of
               Inl e \<Rightarrow> (Inl e, w)
             | Inr h \<Rightarrow> (Inr (), on_db (update_domain i (\<lambda>r. r\<lparr>dm_smtp_host := h\<rparr>)) w))
          else (Inr (), w))"

definition set_required_records :: "nat \<Rightarrow> string \<Rightarrow> json \<Rightarrow> 'p world \<Rightarrow> unit result \<times> 'p world" where
  "set_required_records i name dns_info w =
     (case required_dns_records name dns_info of
        Inl e \<Rightarrow> (Inl e, w)
      | Inr rs \<Rightarrow> (Inr (), on_db (update_domain i (\<lambda>r. r\<lparr>dm_required_records := Some (JArr rs)\<rparr>)) w))"

definition set_token :: "nat \<Rightarrow> json \<Rightarrow> 'p world \<Rightarrow> unit result \<times> 'p world" where
  "set_token i dns_info w =
     (case bind_result (get_or dns_info ''verification'' (JObj [])) (\<lambda>v. json_get v ''name'') of
        Inl e \<Rightarrow> (Inl e, w)
      | Inr n \<Rightarrow>
          if json_truthy n then
            (case column_text n of
               Inl e \<Rightarrow> (Inl e, w)
             | Inr t \<Rightarrow> (Inr (), on_db (update_domain i (\<lambda>r. r\<lparr>dm_verification_token := t\<rparr>)) w))
          else (Inr (), w))"

definition set_verdict :: "time \<Rightarrow> dns_report \<Rightarrow> domain_status \<Rightarrow> domain_row \<Rightarrow> domain_row" where
  "set_verdict now report s r = r\<lparr>dm_dns_state := Some (report_to_dict report),
     dm_dns_checked_at := Some now, dm_status := s\<rparr>"

definition mailbox_count :: "db \<Rightarrow> nat \<Rightarrow> nat" where
  "mailbox_count d i = count_where (\<lambda>m. mb_domain_id m = i) (mailboxes d)"

definition store_refresh ::
    "nat \<Rightarrow> string \<Rightarrow> json \<Rightarrow> time \<Rightarrow> dns_report \<Rightarrow> domain_status \<Rightarrow> 'p world \<Rightarrow> unit result \<times> 'p world" where
  "store_refresh i name dns_info now report s w =
     bind_state (set_smtp_host i dns_info w) (\<lambda>_ w.
     bind_state (set_required_records i name dns_info w) (\<lambda>_ w.
     bind_state (set_token i dns_info w) (\<lambda>_ w.
       (Inr (), on_db (update_domain i (set_verdict now report s)) w))))"

definition refresh_domain ::
    "'p requester \<Rightarrow> resolver \<Rightarrow> time \<Rightarrow> string \<Rightarrow> 'p world \<Rightarrow> domain_refresh result \<times> 'p world" where
  "refresh_domain rq dns now name w =
     (case scalar_one_or_none (filter (\<lambda>r. dm_name r = name) (domains (fst w))) of
        Inl e \<Rightarrow> (Inl e, w)
      | Inr None \<Rightarrow> (Inl (Lookup_Error (''domain not tracked locally: '' @ name)), w)
      | Inr (Some row) \<Rightarrow>
          let previous = dm_status row in
          (case on_provider (get_dns rq name) w of
             (Inl e, w1) \<Rightarrow>
               if is_mx_error e then
                 (Inr \<lparr>rf_domain = name, rf_previous = previous, rf_current = previous,
                    rf_report = None, rf_changed = False,
                    rf_note = Some (''provider error: '' @ exn_text e)\<rparr>, w1)
               else (Inl e, w1)
           | (Inr dns_info, w1) \<Rightarrow>
               (case verify_domain dns name dns_info of
                  Inl e \<Rightarrow> (Inl e, w1)
                | Inr report \<Rightarrow>
                    (case next_status previous report (0 < mailbox_count (fst w1) (dm_id row)) of
                       (new_status, note) \<Rightarrow>
                         bind_state (store_refresh (dm_id row) name dns_info now report new_status w1)
                           (\<lambda>_ w2. (Inr \<lparr>rf_domain = name, rf_previous = previous,
                              rf_current = new_status, rf_report = Some report,
                              rf_changed = (new_status \<noteq> previous), rf_note = note\<rparr>, w2))))))"

section \<open>Adding a domain\<close>

definition clean_name :: "string \<Rightarrow> string" where
  "clean_name name = rstrip_chars [CHR ''.''] (py_lower (py_strip name))"

text \<open>
  The registration at the provider: nothing for a domain it lists already; a conflict is a domain
  it has without listing it.
\<close>

definition register_domain :: "'p requester \<Rightarrow> string \<Rightarrow> 'p \<Rightarrow> unit result \<times> 'p" where
  "register_domain rq name p =
     bind_state (list_domains rq p) (\<lambda>remote p1.
       if JStr name \<in> set remote then (Inr (), p1)
       else (case create_domain rq name p1 of
           (Inr _, p2) \<Rightarrow> (Inr (), p2)
         | (Inl (MX_Conflict m), p2) \<Rightarrow> (Inr (), p2)
         | (Inl e, p2) \<Rightarrow> (Inl e, p2)))"

definition new_domain :: "nat \<Rightarrow> time \<Rightarrow> string \<Rightarrow> domain_row" where
  "new_domain i now name = \<lparr>dm_id = i, dm_name = name, dm_status = Added, dm_smtp_host = None,
     dm_required_records = None, dm_dns_state = None, dm_dns_checked_at = None,
     dm_verification_token = None, dm_created_at = now\<rparr>"

text \<open>
  What the provider says of its records is captured in the new row; a provider error in between
  leaves the row with what it has by then.
\<close>

definition capture_records :: "'p requester \<Rightarrow> string \<Rightarrow> domain_row \<Rightarrow> 'p \<Rightarrow> domain_row result \<times> 'p" where
  "capture_records rq name row p =
     (case get_dns rq name p of
        (Inl e, p1) \<Rightarrow> (if is_mx_error e then Inr row else Inl e, p1)
      | (Inr dns_info, p1) \<Rightarrow>
          (bind_result (required_dns_records name dns_info) (\<lambda>rs.
           bind_result (get_or dns_info ''mx_records'' (JArr [JObj []])) (\<lambda>mxs.
           bind_result (json_first mxs) (\<lambda>mx.
           bind_result (json_get mx ''hostname'') (\<lambda>h.
           bind_result (column_text h) (\<lambda>host.
             Inr (row\<lparr>dm_required_records := Some (JArr rs), dm_smtp_host := host\<rparr>)))))), p1))"

definition insert_domain :: "domain_row \<Rightarrow> db \<Rightarrow> db" where
  "insert_domain row d = d\<lparr>domains := domains d @ [row], next_id := Suc (next_id d)\<rparr>"

definition add_domain ::
    "'p requester \<Rightarrow> time \<Rightarrow> string \<Rightarrow> 'p world \<Rightarrow> domain_row result \<times> 'p world" where
  "add_domain rq now raw w =
     (let name = clean_name raw in
      case scalar_one_or_none (filter (\<lambda>r. dm_name r = name) (domains (fst w))) of
        Inl e \<Rightarrow> (Inl e, w)
      | Inr (Some existing) \<Rightarrow> (Inr existing, w)
      | Inr None \<Rightarrow>
          bind_state (on_provider (register_domain rq name) w) (\<lambda>_ w1.
          bind_state (on_provider (capture_records rq name (new_domain (next_id (fst w1)) now name)) w1)
            (\<lambda>row w2. (Inr row, on_db (insert_domain row) w2))))"

section \<open>Advice\<close>

record verification_record =
  vr_type :: json
  vr_name :: json
  vr_value :: json

definition get_verification_record :: "'p requester \<Rightarrow> 'p \<Rightarrow> verification_record result \<times> 'p" where
  "get_verification_record rq p =
     after_call (get_verification_key rq p) (\<lambda>data.
       bind_result (get_or data ''record'' (JObj [])) (\<lambda>r.
       bind_result (json_get_default r ''type'' (JStr ''TXT'')) (\<lambda>t.
       bind_result (json_get_default r ''name'' (JStr [])) (\<lambda>n.
       bind_result (json_get_default r ''value'' (JStr ''domain-verified'')) (\<lambda>v.
         Inr \<lparr>vr_type = t, vr_name = n, vr_value = v\<rparr>)))))"

definition newline :: string where
  "newline = [CHR 10]"

definition credentials_advice :: string where
  "credentials_advice = py_join newline
    [''The credentials were rejected, so this is not a DNS problem.'',
     ''Check EMAILD_MXROUTE_* in the .env beside compose.yaml:'',
     ''  EMAILD_MXROUTE_USERNAME is the account username -- not your'',
     ''    email address, and not the domain.'',
     ''  EMAILD_MXROUTE_SERVER is the mail server hostname, for example'',
     ''    chocobo.mxrouting.net -- not api.mxroute.com.'',
     [],
     ''Test them directly (200 means good, 401 means still wrong):'',
     ''  curl -s -o /dev/null -w '' @ [CHR 39] @ ''%{http_code}'' @ [CHR 92] @ ''n'' @ [CHR 39, CHR '' '', CHR 92],
     ''    -H '' @ [CHR 34] @ ''X-Server: <server>'' @ [CHR 34] @ '' -H '' @ [CHR 34] @
       ''X-Username: <username>'' @ [CHR 34, CHR '' '', CHR 92],
     ''    -H '' @ [CHR 34] @ ''X-API-Key: <key>'' @ [CHR 34] @ '' https://api.mxroute.com/domains'']"

definition domain_add_advice :: "exn \<Rightarrow> string \<Rightarrow> string" where
  "domain_add_advice e name = (case e of
       MX_Auth_Error _ \<Rightarrow> credentials_advice
     | MX_Conflict _ \<Rightarrow> name @ '' already exists on the MXRoute account. Adding it here '' @
         ''only starts tracking it locally; it is not created again.''
     | _ \<Rightarrow> ''If the domain is new to this account, the ownership TXT record may '' @
         ''not be resolving yet. Run '' @ [CHR 39] @ ''domains token'' @ [CHR 39] @
         '' and publish it first.'')"

definition add_failure_message :: "'p requester \<Rightarrow> exn \<Rightarrow> string \<Rightarrow> 'p \<Rightarrow> string \<times> 'p" where
  "add_failure_message rq e name p =
     (let advice = domain_add_advice e name in
      case e of
        MX_Auth_Error _ \<Rightarrow> (advice, p)
      | MX_Conflict _ \<Rightarrow> (advice, p)
      | _ \<Rightarrow>
          (case get_verification_record rq p of
             (Inl _, p1) \<Rightarrow> (advice, p1)
           | (Inr r, p1) \<Rightarrow>
               (advice @ newline @ newline @
                ''Publish this TXT record, wait 5-15 minutes, then add the domain again:'' @ newline @
                ''  Name:  '' @ json_str (vr_name r) @ newline @
                ''  Value: '' @ json_str (vr_value r), p1)))"

section \<open>The status moves on evidence only\<close>

text \<open>
  The abstract lifecycle: what one sweep may do to a status, given what it established.  A sweep
  that established nothing about the records changes nothing.
\<close>

datatype evidence =
    Ownership_Absent
  | Nothing_Established
  | Records_Absent
  | Records_Complete

inductive lifecycle :: "evidence \<Rightarrow> bool \<Rightarrow> domain_status \<Rightarrow> domain_status \<Rightarrow> bool" where
  suspended: "lifecycle ev has_mailbox Suspended Suspended"
| held: "lifecycle Nothing_Established has_mailbox s s"
| disowned: "s \<noteq> Suspended \<Longrightarrow> lifecycle Ownership_Absent has_mailbox s Ownership_Pending"
| broken: "lifecycle Records_Absent has_mailbox Ready Misconfigured"
| incomplete: "s \<noteq> Suspended \<Longrightarrow> s \<noteq> Ready \<Longrightarrow> lifecycle Records_Absent has_mailbox s Dns_Incomplete"
| verified: "s \<noteq> Suspended \<Longrightarrow> \<not> has_mailbox \<Longrightarrow> lifecycle Records_Complete has_mailbox s Verified"
| ready: "s \<noteq> Suspended \<Longrightarrow> has_mailbox \<Longrightarrow> lifecycle Records_Complete has_mailbox s Ready"

inductive_cases lifecycle_Suspended: "lifecycle ev hm Suspended s"
inductive_simps lifecycle_simps: "lifecycle ev hm s s'"

definition evidence_of :: "dns_report \<Rightarrow> evidence" where
  "evidence_of r =
     (case check_named r ''ownership'' of
        Some c \<Rightarrow>
          if rc_result c = Errored then Nothing_Established
          else if \<not> ok c then Ownership_Absent
          else if report_can_send r then Records_Complete
          else if had_lookup_errors r then Nothing_Established else Records_Absent
      | None \<Rightarrow>
          if report_can_send r then Records_Complete
          else if had_lookup_errors r then Nothing_Established else Records_Absent)"

lemma next_status_refines:
  "lifecycle (evidence_of r) has_mailbox s (fst (next_status s r has_mailbox))"
  by (auto simp: next_status_def evidence_of_def operator_controlled_def lifecycle_simps Let_def ok_def
      split: option.splits)

lemma lifecycle_deterministic:
  "lifecycle ev hm s s1 \<Longrightarrow> lifecycle ev hm s s2 \<Longrightarrow> s1 = s2"
  by (auto simp: lifecycle_simps)

section \<open>What a refresh writes\<close>

text \<open>An edit of one row's other columns: id and name stay.\<close>

definition row_edit :: "(domain_row \<Rightarrow> domain_row) \<Rightarrow> bool" where
  "row_edit g = (\<forall>r. dm_id (g r) = dm_id r \<and> dm_name (g r) = dm_name r)"

definition keeps_status :: "(domain_row \<Rightarrow> domain_row) \<Rightarrow> bool" where
  "keeps_status g = (\<forall>r. dm_status (g r) = dm_status r)"

lemma on_db_sel [simp]: "fst (on_db f w) = f (fst w)" "snd (on_db f w) = snd w"
  by (simp_all add: on_db_def)

lemma update_domain_id [simp]: "update_domain i (\<lambda>r. r) d = d"
  by (simp add: update_domain_def update_where_def)

lemma update_domain_comp:
  assumes "row_edit f"
  shows "update_domain i g (update_domain i f d) = update_domain i (\<lambda>r. g (f r)) d"
  using assms by (auto simp: update_domain_def update_where_def row_edit_def)

lemma row_edits [simp]:
  "row_edit (\<lambda>r. r)" "row_edit (\<lambda>r. r\<lparr>dm_smtp_host := h\<rparr>)"
  "row_edit (\<lambda>r. r\<lparr>dm_required_records := rs\<rparr>)" "row_edit (\<lambda>r. r\<lparr>dm_verification_token := t\<rparr>)"
  "row_edit (set_verdict now rep s)"
  "keeps_status (\<lambda>r. r)" "keeps_status (\<lambda>r. r\<lparr>dm_smtp_host := h\<rparr>)"
  "keeps_status (\<lambda>r. r\<lparr>dm_required_records := rs\<rparr>)" "keeps_status (\<lambda>r. r\<lparr>dm_verification_token := t\<rparr>)"
  by (simp_all add: row_edit_def keeps_status_def set_verdict_def)

definition edits :: "nat \<Rightarrow> 'p world \<Rightarrow> 'p world \<Rightarrow> bool" where
  "edits i w w' = (\<exists>g. row_edit g \<and> keeps_status g \<and> w' = on_db (update_domain i g) w)"

lemma edits_refl [simp]: "edits i w w"
  unfolding edits_def by (intro exI [of _ "\<lambda>r. r"]) (simp add: on_db_def)

lemma edits_trans: "edits i w w1 \<Longrightarrow> edits i w1 w2 \<Longrightarrow> edits i w w2"
proof -
  assume "edits i w w1" "edits i w1 w2"
  then obtain f g where "row_edit f" "keeps_status f" "w1 = on_db (update_domain i f) w"
    "row_edit g" "keeps_status g" "w2 = on_db (update_domain i g) w1" by (auto simp: edits_def)
  then show ?thesis unfolding edits_def
    by (intro exI [of _ "\<lambda>r. g (f r)"])
       (auto simp: on_db_def update_domain_comp row_edit_def keeps_status_def)
qed

lemma setters_edit:
  "set_smtp_host i info w = (r, w') \<Longrightarrow> edits i w w'"
  "set_required_records i name info w = (r, w') \<Longrightarrow> edits i w w'"
  "set_token i info w = (r, w') \<Longrightarrow> edits i w w'"
  by (auto simp: set_smtp_host_def set_required_records_def set_token_def split: sum.splits if_splits;
      unfold edits_def; metis row_edits)+

lemma store_refresh_shape:
  assumes "store_refresh i name info now rep s w = (r, w')"
  obtains (raised) e where "r = Inl e" "edits i w w'"
    | (stored) w1 where "r = Inr ()" "edits i w w1"
        "w' = on_db (update_domain i (set_verdict now rep s)) w1"
proof -
  obtain r1 w1 where 1: "set_smtp_host i info w = (r1, w1)" by (cases "set_smtp_host i info w")
  obtain r2 w2 where 2: "set_required_records i name info w1 = (r2, w2)" by (cases "set_required_records i name info w1")
  obtain r3 w3 where 3: "set_token i info w2 = (r3, w3)" by (cases "set_token i info w2")
  have e: "edits i w w1" "edits i w w2" "edits i w w3"
    using setters_edit(1) [OF 1] setters_edit(2) [OF 2] setters_edit(3) [OF 3] edits_trans by blast+
  note run = assms [unfolded store_refresh_def 1]
  show ?thesis
  proof (cases r1)
    case (Inl x)
    with run e(1) raised show ?thesis by auto
  next
    case (Inr u)
    note run = run [unfolded Inr bind_state_simps 2]
    show ?thesis
    proof (cases r2)
      case (Inl x)
      with run e(2) raised show ?thesis by auto
    next
      case (Inr u2)
      note run = run [unfolded Inr bind_state_simps 3]
      show ?thesis
      proof (cases r3)
        case (Inl x)
        with run e(3) raised show ?thesis by auto
      next
        case (Inr u3)
        with run e(3) stored show ?thesis by auto
      qed
    qed
  qed
qed

text \<open>Rows after an edit of one row.\<close>

lemma domain_named_update:
  assumes "domains_ok d" "domain_named d name = Some row" "row_edit g"
  shows "domain_named (update_domain (dm_id row) g d) name = Some (g row)"
    and "q \<in> set (domains d) \<Longrightarrow> dm_name q \<noteq> name \<Longrightarrow>
         q \<in> set (domains (update_domain (dm_id row) g d))"
    and "domains_ok (update_domain (dm_id row) g d)"
proof -
  have row: "row \<in> set (domains d)" "dm_name row = name"
    using assms(2) by (auto simp: domain_named_def dest: find_SomeD)
  have id: "\<And>q. q \<in> set (domains d) \<Longrightarrow> dm_id q = dm_id row \<Longrightarrow> q = row"
    using assms(1) row(1) unique_on_same unfolding domains_ok_def by metis
  show ok: "domains_ok (update_domain (dm_id row) g d)"
    using assms(1,3) by (simp add: domains_ok_def update_domain_def row_edit_def
        unique_on_update_where ids_below_update)
  have "g row \<in> set (domains (update_domain (dm_id row) g d))"
    using row(1) by (auto simp: update_domain_def set_update_where)
  moreover have "dm_name (g row) = name" using assms(3) row(2) by (simp add: row_edit_def)
  ultimately show "domain_named (update_domain (dm_id row) g d) name = Some (g row)"
    using ok find_unique_on [of dm_name] unfolding domain_named_def domains_ok_def by metis
  assume "q \<in> set (domains d)" "dm_name q \<noteq> name"
  then show "q \<in> set (domains (update_domain (dm_id row) g d))"
    using id row(2) by (auto simp: update_domain_def set_update_where)
qed

lemma row_of_name:
  assumes "domains_ok d" "domain_named d name = Some row"
  shows "scalar_one_or_none (filter (\<lambda>r. dm_name r = name) (domains d)) = Inr (Some row)"
  using assms scalar_one_or_none_unique [of dm_name "domains d" name]
  by (simp add: domains_ok_def domain_named_def)

text \<open>The three ends of a refresh of a tracked domain.\<close>

lemma refresh_domain_cases:
  assumes "domains_ok d" "domain_named d name = Some row"
    and "refresh_domain rq dns now name (d, p) = (r, w')"
  obtains (unreachable) e where "get_dns rq name p = (Inl e, snd w')" "is_mx_error e"
        "fst w' = d" "r = Inr \<lparr>rf_domain = name, rf_previous = dm_status row,
           rf_current = dm_status row, rf_report = None, rf_changed = False,
           rf_note = Some (''provider error: '' @ exn_text e)\<rparr>"
    | (raised) e where "r = Inl e" "edits (dm_id row) (d, snd w') w'"
    | (swept) info rep s why w1 where "get_dns rq name p = (Inr info, snd w')"
        "verify_domain dns name info = Inr rep"
        "next_status (dm_status row) rep (0 < mailbox_count d (dm_id row)) = (s, why)"
        "edits (dm_id row) (d, snd w') w1"
        "w' = on_db (update_domain (dm_id row) (set_verdict now rep s)) w1"
        "r = Inr \<lparr>rf_domain = name, rf_previous = dm_status row, rf_current = s,
           rf_report = Some rep, rf_changed = (s \<noteq> dm_status row), rf_note = why\<rparr>"
proof -
  obtain a p1 where g: "get_dns rq name p = (a, p1)" by fastforce
  note run = assms(3) [unfolded refresh_domain_def fst_conv row_of_name [OF assms(1,2)]
      on_provider_def snd_conv g]
  show ?thesis
  proof (cases a)
    case (Inl e)
    show ?thesis
    proof (cases "is_mx_error e")
      case True
      with run Inl have "w' = (d, p1)" "r = Inr \<lparr>rf_domain = name,
          rf_previous = dm_status row, rf_current = dm_status row, rf_report = None,
          rf_changed = False, rf_note = Some (''provider error: '' @ exn_text e)\<rparr>"
        by (simp_all add: Let_def)
      with g Inl True show ?thesis by (intro unreachable [of e]) simp_all
    next
      case False
      with run Inl have "r = Inl e" "w' = (d, p1)" by (simp_all add: Let_def)
      then show ?thesis by (intro raised [of e]) simp_all
    qed
  next
    case (Inr info)
    show ?thesis
    proof (cases "verify_domain dns name info")
      case (Inl e)
      with run Inr have "r = Inl e" "w' = (d, p1)" by (simp_all add: Let_def)
      then show ?thesis by (intro raised [of e]) simp_all
    next
      case v: (Inr rep)
      obtain s why where n: "next_status (dm_status row) rep (0 < mailbox_count d (dm_id row)) = (s, why)"
        by fastforce
      obtain r' w2 where st: "store_refresh (dm_id row) name info now rep s (d, p1) = (r', w2)"
        by (cases "store_refresh (dm_id row) name info now rep s (d, p1)")
      have snd_edits: "snd w1 = snd w" if "edits i w w1" for i :: nat and w w1 :: "'a world"
        using that by (auto simp: edits_def)
      from st show ?thesis
      proof (cases rule: store_refresh_shape)
        case (raised e)
        with run Inr v n st have "r = Inl e" "w' = w2" by (auto simp: Let_def)
        with raised snd_edits [OF raised(2)] show ?thesis by (intro that(2) [of e]) simp_all
      next
        case (stored w1)
        with run Inr v n st have "r = Inr \<lparr>rf_domain = name, rf_previous = dm_status row,
            rf_current = s, rf_report = Some rep, rf_changed = (s \<noteq> dm_status row),
            rf_note = why\<rparr>" "w' = w2" by (auto simp: Let_def)
        with stored snd_edits [OF stored(2)] g Inr v n show ?thesis
          by (intro that(3) [of info rep s why w1]) simp_all
      qed
    qed
  qed
qed

lemma edited_rows:
  assumes "domains_ok d" "domain_named d name = Some row" "row_edit g"
    and "d' = update_domain (dm_id row) g d"
  shows "domain_named d' name = Some (g row) \<and> domains_ok d' \<and>
    (\<forall>q \<in> set (domains d). dm_name q \<noteq> name \<longrightarrow> q \<in> set (domains d')) \<and>
    d' = d\<lparr>domains := domains d'\<rparr>"
  using domain_named_update [OF assms(1-3)] assms(4) by (simp add: update_domain_def)

lemma editsE:
  assumes "edits i (d, q) w"
  obtains g where "row_edit g" "keeps_status g" "fst w = update_domain i g d"
  using assms by (auto simp: edits_def)

text \<open>
  C8 A refresh implements the abstract lifecycle: the tracked row moves by one lifecycle step on
  the evidence of its report, or not at all when the provider could not be reached or the refresh
  raised; no other domain, and no other table, is touched.
\<close>

theorem refresh_refines_lifecycle:
  assumes "domains_ok d" "domain_named d name = Some row"
    and "refresh_domain rq dns now name (d, p) = (r, (d', p'))"
  shows "\<exists>row'. domain_named d' name = Some row' \<and> domains_ok d' \<and>
    (\<forall>q \<in> set (domains d). dm_name q \<noteq> name \<longrightarrow> q \<in> set (domains d')) \<and>
    d' = d\<lparr>domains := domains d'\<rparr> \<and>
    (case r of Inl e \<Rightarrow> dm_status row' = dm_status row
     | Inr f \<Rightarrow> dm_status row' = rf_current f \<and>
        (case rf_report f of None \<Rightarrow> d' = d
         | Some rep \<Rightarrow> lifecycle (evidence_of rep) (0 < mailbox_count d (dm_id row))
             (dm_status row) (dm_status row')))"
  using assms
proof (cases rule: refresh_domain_cases)
  case (unreachable e)
  with assms(1,2) show ?thesis by (intro exI [of _ row]) simp
next
  case (raised e)
  obtain g where g: "row_edit g" "keeps_status g" "d' = update_domain (dm_id row) g d"
    using editsE [OF raised(2)] by auto
  have "dm_status (g row) = dm_status row" using g(2) by (simp add: keeps_status_def)
  with edited_rows [OF assms(1,2) g(1,3)] raised(1) show ?thesis
    by (intro exI [of _ "g row"]) simp
next
  case (swept info rep s why w1)
  obtain g where g: "row_edit g" "keeps_status g" "fst w1 = update_domain (dm_id row) g d"
    using editsE [OF swept(4)] by auto
  let ?g = "\<lambda>r. set_verdict now rep s (g r)"
  have e: "row_edit ?g" using g(1) by (simp add: row_edit_def set_verdict_def)
  have d': "d' = update_domain (dm_id row) ?g d"
    using swept(5) g(1,3) update_domain_comp [OF g(1)] by (simp add: on_db_def)
  have "dm_status (?g row) = s" by (simp add: set_verdict_def)
  moreover have "lifecycle (evidence_of rep) (0 < mailbox_count d (dm_id row)) (dm_status row) s"
    using next_status_refines [of rep _ "dm_status row"] swept(3) by (metis fst_conv)
  ultimately show ?thesis using edited_rows [OF assms(1,2) e d'] swept(6)
    by (intro exI [of _ "?g row"]) simp
qed

lemma report_ownership:
  assumes "verify_domain dns name info = Inr rep"
  obtains token c where "check_named rep ''ownership'' = Some c"
    "bind_result (get_or info ''verification'' (JObj [])) (\<lambda>j. json_get j ''name'') = Inr token"
    "rc_result c = Errored \<longleftrightarrow>
       (\<exists>t. t \<noteq> [] \<and> token = JStr t \<and> lookup_failed dns (fqdn_of t name) ''TXT'')"
    "ok c \<longrightarrow> (\<exists>t values v. token = JStr t \<and>
       resolve dns (fqdn_of t name) ''TXT'' = Inr (values, None) \<and>
       v \<in> set values \<and> normalise_txt v = ''domain-verified'')"
    "had_lookup_errors rep \<or> \<not> lookup_failed dns name ''MX'' \<and> \<not> lookup_failed dns name ''TXT''"
proof -
  obtain hosts spf dn dv tok c1 c2 c3 c4 c5 where p: "check_mx dns name hosts = Inr c1"
    "check_spf dns name spf = Inr c2" "check_ownership dns name tok = Inr c5"
    "bind_result (get_or info ''verification'' (JObj [])) (\<lambda>j. json_get j ''name'') = Inr tok"
    and r: "rep = \<lparr>rp_domain = name, rp_checks = [(''mx'', c1), (''spf'', c2), (''dkim'', c3),
            (''dmarc'', c4), (''ownership'', c5)]\<rparr>"
    using assms by (rule verify_domain_InrE)
  have "had_lookup_errors rep \<or> \<not> lookup_failed dns name ''MX'' \<and> \<not> lookup_failed dns name ''TXT''"
    using report_of_five(3) [OF r] check_mx_Inr(1) [OF p(1)] check_spf_Inr(1) [OF p(2)]
    by (metis image_eqI insertI1 insert_iff)
  with that [of c5 tok] show ?thesis
    using report_of_five(1) [OF r] check_ownership_Inr [OF p(3)] p(4) by blast
qed

lemma next_status_from_Ready:
  assumes "check_named rep ''ownership'' = Some c" "fst (next_status Ready rep has_mailbox) \<noteq> Ready"
  shows "let s = fst (next_status Ready rep has_mailbox) in
      s = Ownership_Pending \<and> rc_result c \<noteq> Errored
      \<or> s = Misconfigured \<and> \<not> report_can_send rep \<and> \<not> had_lookup_errors rep
      \<or> s = Verified \<and> report_can_send rep \<and> \<not> has_mailbox"
  using assms
  by (cases "ok c"; cases "rc_result c = Errored"; cases "report_can_send rep";
      cases "had_lookup_errors rep"; cases has_mailbox)
     (simp_all add: next_status_def operator_controlled_def)



section \<open>Instances\<close>

definition ex_rq :: "json \<Rightarrow> nat requester" where
  "ex_rq answer method path body p = (Inr answer, p)"

lemma ex_domains_ok: "domains_ok ex_db" "domain_named ex_db ''a.io'' = Some ex_domain"
  by (simp_all add: domains_ok_def unique_on_def domain_named_def ids_below_def)

lemma ex_get_dns: "get_dns (ex_rq ex_dns_info) ''a.io'' 0 = (Inr ex_dns_info, 0)"
  by (simp add: get_dns_def ex_rq_def after_call_def json_dict_or_empty_def ex_dns_info_def
      json_truthy_def)

lemma ex_report_checks:
  "check_named ex_report ''ownership'' \<noteq> None" "report_can_send ex_report"
  "\<not> failing ex_report ''ownership''" "\<not> had_lookup_errors ex_report"
  by code_simp+

lemma ex_next_ready: "next_status s ex_report True = (if s = Suspended then next_status s ex_report True else (Ready, None))"
  using ex_report_checks
  by (auto simp: next_status_def operator_controlled_def failing_def split: option.splits)

lemma ex_mailbox_count: "mailbox_count ex_db 2 = 1"
  by (simp add: mailbox_count_def count_where_def)

text \<open>A refresh of a row with another status, on the same world.\<close>

definition ex_db_with :: "domain_status \<Rightarrow> db" where
  "ex_db_with s = ex_db\<lparr>domains := [ex_domain\<lparr>dm_status := s\<rparr>]\<rparr>"

lemma ex_db_with_ok:
  "domains_ok (ex_db_with s)" "domain_named (ex_db_with s) ''a.io'' = Some (ex_domain\<lparr>dm_status := s\<rparr>)"
  by (simp_all add: ex_db_with_def domains_ok_def unique_on_def domain_named_def ids_below_def)

lemma ex_store: "\<exists>w'. store_refresh 2 ''a.io'' ex_dns_info 5 rep s w = (Inr (), w')"
proof -
  have 1: "\<not> isl (required_dns_records ''a.io'' ex_dns_info)" by code_simp
  have 2: "get_or ex_dns_info ''mx_records'' (JArr []) = Inr (JArr [JObj [(''hostname'', JStr ''mx.a.io'')]])"
    "bind_result (get_or ex_dns_info ''verification'' (JObj [])) (\<lambda>v. json_get v ''name'') = Inr (JStr ''tok'')"
    "bind_result (json_first (JArr [JObj [(''hostname'', JStr ''mx.a.io'')]]))
       (\<lambda>m. bind_result (json_get m ''hostname'') column_text) = Inr (Some ''mx.a.io'')"
    by code_simp+
  obtain rs where "required_dns_records ''a.io'' ex_dns_info = Inr rs"
    using 1 by (cases "required_dns_records ''a.io'' ex_dns_info") auto
  with 2 show ?thesis
    by (simp add: store_refresh_def set_smtp_host_def set_required_records_def set_token_def
        json_truthy_def column_text_def)
qed

lemma ex_refresh:
  "\<exists>f w'. refresh_domain (ex_rq ex_dns_info) ex_dns 5 ''a.io'' (ex_db_with s, 0) = (Inr f, w') \<and>
     rf_current f = fst (next_status s ex_report True) \<and> rf_report f = Some ex_report"
proof -
  have row: "scalar_one_or_none (filter (\<lambda>r. dm_name r = ''a.io'') (domains (ex_db_with s))) =
      Inr (Some (ex_domain\<lparr>dm_status := s\<rparr>))"
    by (rule row_of_name [OF ex_db_with_ok])
  have m: "mailbox_count (ex_db_with s) 2 = 1"
    by (simp add: mailbox_count_def count_where_def ex_db_with_def)
  obtain s' why where n: "next_status s ex_report True = (s', why)" by fastforce
  obtain w' where st: "store_refresh 2 ''a.io'' ex_dns_info 5 ex_report s' (ex_db_with s, 0::nat) = (Inr (), w')"
    using ex_store by blast
  show ?thesis
    by (simp add: refresh_domain_def row on_provider_def ex_get_dns ex_verify m n st)
qed

theorem refresh_refines_lifecycle_witness:
  "\<exists>f w'. refresh_domain (ex_rq ex_dns_info) ex_dns 5 ''a.io'' (ex_db_with Misconfigured, 0) = (Inr f, w') \<and>
     lifecycle (evidence_of ex_report) True Misconfigured (rf_current f)"
proof -
  obtain f w' where r: "refresh_domain (ex_rq ex_dns_info) ex_dns 5 ''a.io''
      (ex_db_with Misconfigured, 0) = (Inr f, w')" and f: "rf_report f = Some ex_report"
    using ex_refresh [of Misconfigured] by auto
  obtain d' p' where run: "refresh_domain (ex_rq ex_dns_info) ex_dns 5 ''a.io''
      (ex_db_with Misconfigured, 0) = (Inr f, (d', p'))"
    using r by (cases w') simp
  have "mailbox_count (ex_db_with Misconfigured) (dm_id (ex_domain\<lparr>dm_status := Misconfigured\<rparr>)) = 1"
    by (simp add: mailbox_count_def count_where_def ex_db_with_def)
  with refresh_refines_lifecycle [OF ex_db_with_ok run] f
  have "lifecycle (evidence_of ex_report) True Misconfigured (rf_current f)" by auto
  with run show ?thesis by blast
qed


text \<open>
  An error page without a body, which the client reads as an empty answer, does demote a domain in
  perfect order: the empty answer names no ownership record.
\<close>

lemma empty_answer_demotes:
  "\<exists>f w'. refresh_domain (ex_rq JNull) ex_dns 5 ''a.io'' (ex_db, 0) = (Inr f, w') \<and>
     rf_previous f = Ready \<and> rf_current f = Ownership_Pending"
proof -
  have "get_dns (ex_rq JNull) ''a.io'' 0 = (Inr (JObj []), 0)"
    by (simp add: get_dns_def ex_rq_def after_call_def json_dict_or_empty_def json_truthy_def)
  moreover have "\<not> isl (verify_domain ex_dns ''a.io'' (JObj []))" by code_simp
  then obtain rep where rep: "verify_domain ex_dns ''a.io'' (JObj []) = Inr rep"
    by (cases "verify_domain ex_dns ''a.io'' (JObj [])") auto
  moreover have "case verify_domain ex_dns ''a.io'' (JObj []) of Inr r \<Rightarrow>
      (case check_named r ''ownership'' of Some c \<Rightarrow> rc_result c = Missing | None \<Rightarrow> False) | _ \<Rightarrow> False"
    by code_simp
  then have "fst (next_status Ready rep True) = Ownership_Pending"
    unfolding rep by (auto simp: next_status_def operator_controlled_def ok_def split: option.splits)
  moreover obtain s' why where n: "next_status Ready rep True = (s', why)" by fastforce
  moreover have "\<exists>w'. store_refresh 2 ''a.io'' (JObj []) 5 rep s' (ex_db, 0::nat) = (Inr (), w')"
    by (simp add: store_refresh_def set_smtp_host_def set_required_records_def set_token_def get_or_def
        json_get_def dict_get_def json_or_def json_truthy_def required_dns_records_def json_items_def
        spf_rows_def dkim_rows_def verification_rows_def)
  ultimately show ?thesis
    using row_of_name [OF ex_domains_ok]
    by (auto simp: refresh_domain_def on_provider_def ex_mailbox_count)
qed


text \<open>The loud status lasts for one sweep: the next one that finds the same turns it into another.\<close>

lemma misconfigured_lasts_one_sweep:
  assumes "fst (next_status Ready rep has_mailbox) = Misconfigured"
  shows "fst (next_status Misconfigured rep has_mailbox) = Dns_Incomplete"
proof -
  have "lifecycle (evidence_of rep) has_mailbox Ready Misconfigured"
    using next_status_refines [of rep has_mailbox Ready] assms by simp
  then have "evidence_of rep = Records_Absent" by (simp add: lifecycle_simps)
  with next_status_refines [of rep has_mailbox Misconfigured] show ?thesis
    by (simp add: lifecycle_simps)
qed

section \<open>Adding twice\<close>

lemma capture_records_row:
  assumes "capture_records rq name row p = (Inr row', p')"
  shows "dm_id row' = dm_id row \<and> dm_name row' = dm_name row \<and> dm_status row' = dm_status row"
proof (cases "get_dns rq name p")
  case (Pair a p1)
  then show ?thesis using assms
    by (cases a) (auto simp: capture_records_def result_simps split: if_splits)
qed

text \<open>The ends of an add: an existing row, an exception, a new row.\<close>

lemma add_domain_cases:
  assumes "domains_ok d" "add_domain rq now raw (d, p) = (r, (d', p'))"
  obtains (existing) row where "domain_named d (clean_name raw) = Some row" "r = Inr row" "d' = d"
    | (raised) e where "r = Inl e" "d' = d"
    | (added) row where "domain_named d (clean_name raw) = None" "r = Inr row"
        "d' = insert_domain row d" "dm_id row = next_id d" "dm_name row = clean_name raw"
        "dm_status row = Added"
proof -
  let ?n = "clean_name raw"
  have sel: "scalar_one_or_none (filter (\<lambda>r. dm_name r = ?n) (domains d)) = Inr (domain_named d ?n)"
    using assms(1) scalar_one_or_none_unique by (auto simp: domains_ok_def domain_named_def)
  show ?thesis
  proof (cases "domain_named d ?n")
    case (Some row)
    with assms(2) sel have "r = Inr row \<and> d' = d" by (simp add: add_domain_def Let_def)
    with Some show ?thesis by (intro existing) simp_all
  next
    case None
    obtain r1 p1 where 1: "register_domain rq ?n p = (r1, p1)" by (cases "register_domain rq ?n p")
    obtain r2 p2 where 2: "capture_records rq ?n (new_domain (next_id d) now ?n) p1 = (r2, p2)"
      by (cases "capture_records rq ?n (new_domain (next_id d) now ?n) p1")
    have run: "(r, (d', p')) = bind_state (r1, (d, p1)) (\<lambda>_ w1.
        bind_state (on_provider (capture_records rq ?n (new_domain (next_id (fst w1)) now ?n)) w1)
          (\<lambda>row w2. (Inr row, on_db (insert_domain row) w2)))"
      using None sel 1 assms(2) by (simp add: add_domain_def Let_def on_provider_def)
    show ?thesis
    proof (cases r1)
      case (Inl e)
      with run have "r = Inl e \<and> d' = d" by simp
      then show ?thesis by (intro raised) simp_all
    next
      case (Inr u)
      with run 2 have run: "(r, (d', p')) =
          bind_state (r2, (d, p2)) (\<lambda>row w2. (Inr row, on_db (insert_domain row) w2))"
        by (simp add: on_provider_def)
      show ?thesis
      proof (cases r2)
        case (Inl e)
        with run have "r = Inl e \<and> d' = d" by simp
        then show ?thesis by (intro raised) simp_all
      next
        case (Inr row)
        with 2 have row: "dm_id row = next_id d \<and> dm_name row = ?n \<and> dm_status row = Added"
          using capture_records_row by (fastforce simp: new_domain_def)
        from run Inr have "r = Inr row \<and> d' = insert_domain row d" by (simp add: on_db_def)
        with row None show ?thesis using added [of row] by blast
      qed
    qed
  qed
qed

lemma insert_domain_ok:
  assumes "domains_ok d" "domain_named d (dm_name row) = None" "dm_id row = next_id d"
  shows "domains_ok (insert_domain row d) \<and> domain_named (insert_domain row d) (dm_name row) = Some row"
proof -
  have "dm_name row \<notin> dm_name ` set (domains d)"
    using assms(2) by (auto simp: domain_named_def find_None_ball)
  then show ?thesis
    using assms ids_below_fresh [of dm_id "next_id d" "domains d"]
    by (auto simp: domains_ok_def insert_domain_def unique_on_append ids_below_append domain_named_def
        find_append intro: ids_below_mono)
qed

text \<open>
  Adding a domain tracks it once: on success the cleaned name has the returned row, every
  existing row is kept, and adding it again, whatever the provider says by then, returns the same row
  and changes nothing; a failed add leaves the tables as they were.
\<close>

theorem adding_is_idempotent:
  assumes "domains_ok d" "add_domain rq now raw (d, p) = (r, (d', p'))"
  shows "case r of Inl e \<Rightarrow> d' = d
    | Inr row \<Rightarrow> domain_named d' (clean_name raw) = Some row \<and> domains_ok d' \<and>
        (d' = d \<or> domain_named d (clean_name raw) = None \<and> dm_status row = Added \<and>
           domains d' = domains d @ [row]) \<and>
        (\<forall>(rq' :: 'q requester) now' q. add_domain rq' now' raw (d', q) = (Inr row, (d', q)))"
proof -
  have again: "add_domain rq' now' raw (t, q) = (Inr row, (t, q))"
    if "domains_ok t" "domain_named t (clean_name raw) = Some row"
    for rq' :: "'q requester" and now' t q row
    by (simp add: add_domain_def Let_def row_of_name [OF that])
  from assms show ?thesis
  proof (cases rule: add_domain_cases)
    case (existing row)
    with again [OF assms(1) existing(1)] assms(1) show ?thesis by simp
  next
    case (raised e)
    then show ?thesis by simp
  next
    case (added row)
    then have "domains_ok d' \<and> domain_named d' (clean_name raw) = Some row"
      using insert_domain_ok [OF assms(1), of row] by simp
    with again [of d' row] added show ?thesis by (simp add: insert_domain_def)
  qed
qed

theorem adding_is_idempotent_witness:
  "add_domain (ex_rq ex_dns_info) 5 ''A.io. '' (ex_db, 0) = (Inr ex_domain, (ex_db, 0))"
proof -
  have n: "clean_name ''A.io. '' = ''a.io''" by code_simp
  have run: "add_domain (ex_rq JNull) 5 ''A.io. '' (ex_db, 0) = (Inr ex_domain, (ex_db, 0))"
    using row_of_name [OF ex_domains_ok] by (simp add: add_domain_def n)
  from adding_is_idempotent [where 'q = nat, OF ex_domains_ok(1) run] show ?thesis by simp
qed

section \<open>Publishing what is asked for\<close>

text \<open>A zone that holds exactly the records the dashboard shows.\<close>

definition row_field :: "json \<Rightarrow> string \<Rightarrow> string" where
  "row_field r k = (case json_get r k of Inr (JStr s) \<Rightarrow> s | _ \<Rightarrow> [])"

definition published_name :: "string \<Rightarrow> string \<Rightarrow> string" where
  "published_name name label = (if label = ''@'' then name else fqdn_of label name)"

definition zone_record :: "json \<Rightarrow> dns_record" where
  "zone_record r =
     (if row_field r ''type'' = ''MX''
      then Mx_Record (nat (digits_value (row_field r ''priority''))) (row_field r ''value'' @ ''.'')
      else Txt_Record [Some (row_field r ''value'')])"

definition zone :: "string \<Rightarrow> json list \<Rightarrow> resolver" where
  "zone name rows n t =
     (case filter (\<lambda>r. row_field r ''type'' = t \<and> published_name name (row_field r ''name'') = n) rows of
        [] \<Rightarrow> Nothing_There
      | r # rs \<Rightarrow> Records (map zone_record (r # rs)))"

text \<open>What the provider documents: hosts, an SPF value, a DKIM name and key, an ownership name.\<close>

definition provider_payload :: "(string \<times> int) list \<Rightarrow> string \<Rightarrow> string \<Rightarrow> string \<Rightarrow> string \<Rightarrow> json" where
  "provider_payload hosts spf selector key token =
     JObj [(''mx_records'', JArr (map (\<lambda>(h, pr). JObj [(''hostname'', JStr h), (''priority'', JInt pr)]) hosts)),
       (''spf'', JObj [(''value'', JStr spf)]),
       (''dkim'', JObj [(''name'', JStr selector), (''value'', JStr key)]),
       (''verification'', JObj [(''name'', JStr token)])]"

definition host_ok :: "string \<Rightarrow> bool" where
  "host_ok h = (rstrip_chars [CHR ''.''] h \<noteq> [] \<and> list_all (\<lambda>c. \<not> py_space c) h)"

definition label_ok :: "string \<Rightarrow> string \<Rightarrow> bool" where
  "label_ok name label = (label \<noteq> [] \<and> label \<noteq> ''@'' \<and> \<not> ends_with name label)"

lemma row_field_dns_row [simp]:
  "row_field (dns_row t n v p) ''type'' = (case t of JStr s \<Rightarrow> s | _ \<Rightarrow> [])"
  "row_field (dns_row t n v p) ''name'' = (case n of JStr s \<Rightarrow> s | _ \<Rightarrow> [])"
  "row_field (dns_row t n v p) ''value'' = (case v of JStr s \<Rightarrow> s | _ \<Rightarrow> [])"
  "row_field (dns_row t n v p) ''priority'' = (case p of JStr s \<Rightarrow> s | _ \<Rightarrow> [])"
  by (simp_all add: row_field_def dns_row_def json_get_def dict_get_def)

lemma map_result_total: "(\<And>x. x \<in> set xs \<Longrightarrow> f x = Inr (g x)) \<Longrightarrow> map_result f xs = Inr (map g xs)"
  by (induction xs) simp_all

definition required_rows :: "(string \<times> int) list \<Rightarrow> string \<Rightarrow> string \<Rightarrow> string \<Rightarrow> string \<Rightarrow> json list" where
  "required_rows hosts spf selector key token =
     map (\<lambda>(h, pr). dns_row (JStr ''MX'') (JStr ''@'') (JStr h) (JStr (json_str (JInt pr)))) hosts @
     [dns_row (JStr ''TXT'') (JStr ''@'') (JStr spf) (JStr []),
      dns_row (JStr ''TXT'') (JStr selector) (JStr (remove_escaped_quotes (strip_chars [CHR 34] key))) (JStr []),
      dns_row (JStr ''TXT'') (JStr token) (JStr ''domain-verified'') (JStr []), dmarc_row]"

lemma payload_fields:
  assumes "hosts \<noteq> []"
  shows "get_or (provider_payload hosts spf selector key token) ''mx_records'' x =
      Inr (JArr (map (\<lambda>(h, pr). JObj [(''hostname'', JStr h), (''priority'', JInt pr)]) hosts))"
    and "get_or (provider_payload hosts spf selector key token) ''spf'' x = Inr (JObj [(''value'', JStr spf)])"
    and "get_or (provider_payload hosts spf selector key token) ''dkim'' x =
      Inr (JObj [(''name'', JStr selector), (''value'', JStr key)])"
    and "get_or (provider_payload hosts spf selector key token) ''verification'' x =
      Inr (JObj [(''name'', JStr token)])"
  using assms
  by (simp_all add: get_or_def provider_payload_def json_get_def dict_get_def json_or_def json_truthy_def)

lemma required_rows:
  assumes "hosts \<noteq> []" "spf \<noteq> []" "key \<noteq> []" "token \<noteq> []"
  shows "required_dns_records name (provider_payload hosts spf selector key token) =
    Inr (required_rows hosts spf selector key token)"
proof -
  have "map_result mx_row (map (\<lambda>(h, pr). JObj [(''hostname'', JStr h), (''priority'', JInt pr)]) hosts)
      = Inr (map (\<lambda>(h, pr). dns_row (JStr ''MX'') (JStr ''@'') (JStr h) (JStr (json_str (JInt pr)))) hosts)"
    by (induction hosts)
       (auto simp: mx_row_def json_get_default_def dict_get_def)
  then show ?thesis
    using assms
    by (simp add: required_dns_records_def payload_fields json_items_def spf_rows_def dkim_rows_def
        verification_rows_def json_get_def json_get_default_def dict_get_def json_truthy_def
        json_text_of_def required_rows_def)
qed

lemma str_of_nat_digits: "str_of_nat n \<noteq> [] \<and> (\<forall>c \<in> set (str_of_nat n). \<not> py_space c)"
proof (induction n rule: less_induct)
  case (less n)
  have d: "\<not> py_space (digit_char k)" if "k < 10" for k
    using that by (simp add: digit_char_def py_space_def Let_def)
  show ?case
  proof (cases "n < 10")
    case True
    with d show ?thesis by (subst (1 2) str_of_nat.simps) simp
  next
    case False
    with less [of "n div 10"] d [of "n mod 10"] show ?thesis
      by (subst (1 2) str_of_nat.simps) auto
  qed
qed

lemma dropWhile_first: "w \<noteq> [] \<Longrightarrow> \<forall>c \<in> set w. \<not> P c \<Longrightarrow> dropWhile P (w @ s) = w @ s"
  by (cases w) auto

lemma second_part_of_value:
  assumes "h \<noteq> []" "list_all (\<lambda>c. \<not> py_space c) h"
  shows "second_part (str_of_nat n @ CHR '' '' # h) = Inr h"
proof -
  let ?v = "str_of_nat n @ CHR '' '' # h"
  have sp: "py_space (CHR '' '')" by (simp add: py_space_def ord_def)
  have n: "str_of_nat n \<noteq> []" "\<forall>c \<in> set (str_of_nat n). \<not> py_space c"
    using str_of_nat_digits by blast+
  then have "py_lstrip ?v = ?v" by (simp add: py_lstrip_def dropWhile_first)
  moreover have "dropWhile (\<lambda>c. \<not> py_space c) ?v = CHR '' '' # h"
    using n(2) sp by (simp add: dropWhile_append2)
  moreover have "py_lstrip (CHR '' '' # h) = h"
    using assms sp by (cases h) (simp_all add: py_lstrip_def)
  ultimately show ?thesis using assms(1) by (simp add: second_part_def)
qed

lemma rstrip_dot_append: "rstrip_chars [CHR ''.''] (h @ ''.'') = rstrip_chars [CHR ''.''] h"
  by (simp add: rstrip_chars_def)

lemma set_rstrip: "set (rstrip_chars cs h) \<subseteq> set h"
  unfolding rstrip_chars_def using set_dropWhileD by fastforce

lemma py_lower_rstrip: "rstrip_chars [CHR ''.''] (py_lower h) = py_lower (rstrip_chars [CHR ''.''] h)"
proof -
  have dot: "lower_char c = CHR ''.'' \<longleftrightarrow> c = CHR ''.''" for c
    by (rule lower_char_eq_iff) (simp_all add: py_upper_letter_def ord_def)
  have "dropWhile (\<lambda>c. c = CHR ''.'') (map lower_char s) =
      map lower_char (dropWhile (\<lambda>c. c = CHR ''.'') s)" for s
    by (induction s) (auto simp: dot)
  then show ?thesis by (simp add: rstrip_chars_def py_lower_def rev_map)
qed

lemma mx_hosts_of_values:
  assumes "list_all (\<lambda>(h, pr). host_ok h) hosts"
  shows "mx_hosts (map (\<lambda>(h, pr). str_of_nat (f pr) @ '' '' @ rstrip_chars [CHR ''.''] h) hosts) =
    Inr (map (\<lambda>(h, pr). py_lower (rstrip_chars [CHR ''.''] h)) hosts)"
proof -
  have "second_part (str_of_nat n @ CHR '' '' # rstrip_chars [CHR ''.''] h) = Inr (rstrip_chars [CHR ''.''] h)"
    if "host_ok h" for n h
    using that set_rstrip [of "[CHR ''.'']" h]
    by (intro second_part_of_value) (auto simp: host_ok_def list_all_iff)
  with assms show ?thesis
    by (induction hosts) (auto simp: mx_hosts_def result_simps)
qed

lemma filter_escaped: "filter P (remove_escaped_quotes s) = filter P s"
  if "\<not> P (CHR 92)" "\<not> P (CHR 34)"
  using that by (induction s rule: remove_escaped_quotes.induct) auto

lemma filter_dropWhile: "(\<And>c. Q c \<Longrightarrow> \<not> P c) \<Longrightarrow> filter P (dropWhile Q s) = filter P s"
  by (induction s) auto

lemma normalise_published_key:
  "normalise_txt (remove_escaped_quotes (strip_chars [CHR 34] key)) = normalise_txt key"
proof -
  let ?P = "\<lambda>c. c \<notin> {CHR 34, CHR 92, CHR '' '', CHR 9}"
  have "filter ?P (strip_chars [CHR 34] key) = filter ?P key"
    unfolding strip_chars_def rstrip_chars_def
    by (simp add: rev_filter [symmetric] filter_dropWhile del: rev_filter)
  then show ?thesis by (simp add: normalise_txt_def filter_escaped)
qed

lemma fqdn_of_label:
  "label_ok name label \<Longrightarrow> fqdn_of label name = label @ ''.'' @ name \<and>
     published_name name label = label @ ''.'' @ name \<and> label @ ''.'' @ name \<noteq> name"
  by (auto simp: label_ok_def fqdn_of_def published_name_def)

lemma resolve_txt:
  "resolve (zone name rows) n ''TXT'' = Inr (map (\<lambda>r. row_field r ''value'')
    (filter (\<lambda>r. row_field r ''type'' = ''TXT'' \<and> published_name name (row_field r ''name'') = n) rows), None)"
proof -
  let ?rs = "filter (\<lambda>r. row_field r ''type'' = ''TXT'' \<and> published_name name (row_field r ''name'') = n) rows"
  have "map_result record_value (map zone_record rs) = Inr (map (\<lambda>r. row_field r ''value'') rs)"
    if "\<forall>r \<in> set rs. row_field r ''type'' = ''TXT''" for rs
    using that by (induction rs) (simp_all add: zone_record_def record_value_def)
  then have m: "map_result record_value (map zone_record ?rs) = Inr (map (\<lambda>r. row_field r ''value'') ?rs)"
    by simp
  show ?thesis
  proof (cases ?rs)
    case Nil
    then show ?thesis by (simp add: resolve_def zone_def)
  next
    case (Cons r rs)
    have "zone name rows n ''TXT'' = Records (map zone_record ?rs)"
      unfolding zone_def Cons by simp
    with m show ?thesis by (simp only: resolve_def dns_answer.case bind_result_simps)
  qed
qed

lemma resolve_mx:
  "resolve (zone name (required_rows hosts spf selector key token)) name ''MX'' =
     Inr (map (\<lambda>(h, pr). str_of_nat (nat (digits_value (str_of_int pr))) @ '' '' @
       rstrip_chars [CHR ''.''] h) hosts, None)"
proof -
  let ?mx = "\<lambda>(h, pr). dns_row (JStr ''MX'') (JStr ''@'') (JStr h) (JStr (json_str (JInt pr)))"
  have "filter (\<lambda>r. row_field r ''type'' = ''MX'' \<and> published_name name (row_field r ''name'') = name)
      (required_rows hosts spf selector key token) = map ?mx hosts"
    unfolding required_rows_def filter_append
    by (induction hosts) (auto simp: dmarc_row_def published_name_def)
  moreover have "map_result record_value (map zone_record (map ?mx hosts)) =
      Inr (map (\<lambda>(h, pr). str_of_nat (nat (digits_value (str_of_int pr))) @ '' '' @
        rstrip_chars [CHR ''.''] h) hosts)"
    by (induction hosts)
       (auto simp: zone_record_def record_value_def rstrip_dot_append json_str_def)
  ultimately show ?thesis
    by (cases hosts) (auto simp: resolve_def zone_def)
qed

text \<open>The four lookups against the zone of the required records.\<close>


lemma required_rows_txt:
  assumes "label_ok name selector" "label_ok name token" "label_ok name ''_dmarc''"
  shows "filter (\<lambda>r. row_field r ''type'' = ''TXT'' \<and> published_name name (row_field r ''name'') = name)
      (required_rows hosts spf selector key token) = [dns_row (JStr ''TXT'') (JStr ''@'') (JStr spf) (JStr [])]"
proof -
  have "filter (\<lambda>r. row_field r ''type'' = ''TXT'' \<and> published_name name (row_field r ''name'') = name)
      (map (\<lambda>(h, pr). dns_row (JStr ''MX'') (JStr ''@'') (JStr h) (JStr (json_str (JInt pr)))) hosts) = []"
    by (induction hosts) auto
  then show ?thesis
    using assms fqdn_of_label [of name]
    by (simp add: required_rows_def dmarc_row_def) (simp add: published_name_def)
qed


lemma published_key_found:
  assumes "label_ok name selector"
  shows "\<exists>vs. resolve (zone name (required_rows hosts spf selector key token)) (fqdn_of selector name) ''TXT'' =
    Inr (vs, None) \<and> (\<exists>v \<in> set vs. normalise_txt v = normalise_txt key)"
  using fqdn_of_label [OF assms]
  by (auto simp: resolve_txt required_rows_def normalise_published_key)

lemma published_token_found:
  assumes "label_ok name token"
  shows "\<exists>vs. resolve (zone name (required_rows hosts spf selector key token)) (fqdn_of token name) ''TXT'' =
    Inr (vs, None) \<and> (\<exists>v \<in> set vs. normalise_txt v = ''domain-verified'')"
proof -
  have "normalise_txt ''domain-verified'' = ''domain-verified''" by code_simp
  then show ?thesis using fqdn_of_label [OF assms]
    by (auto simp: resolve_txt required_rows_def)
qed

lemma published_hosts_payload:
  assumes "hosts \<noteq> []" "list_all (\<lambda>(h, pr). host_ok h) hosts"
  shows "published_hosts (provider_payload hosts spf selector key token) = Inr (map (\<lambda>(h, pr). JStr h) hosts)"
proof -
  have "host_ok h \<Longrightarrow> h \<noteq> []" for h by (auto simp: host_ok_def rstrip_chars_def)
  with assms(2) have "filter json_truthy (map (\<lambda>(h, pr). JStr h) hosts) = map (\<lambda>(h, pr). JStr h) hosts"
    by (induction hosts) (auto simp: json_truthy_def)
  moreover have "map_result (\<lambda>r. json_get r ''hostname'')
      (map (\<lambda>(h, pr). JObj [(''hostname'', JStr h), (''priority'', JInt pr)]) hosts) =
      Inr (map (\<lambda>(h, pr). JStr h) hosts)"
    by (induction hosts) (auto simp: json_get_def dict_get_def)
  ultimately show ?thesis
    by (simp add: published_hosts_def payload_fields [OF assms(1)] json_items_def)
qed

lemma zone_passes_mx:
  assumes "hosts \<noteq> []" "list_all (\<lambda>(h, pr). host_ok h) hosts"
  shows "\<exists>c. check_mx (zone name (required_rows hosts spf selector key token)) name
    (map (\<lambda>(h, pr). JStr h) hosts) = Inr c \<and> ok c"
proof -
  obtain h pr rest where h: "hosts = (h, pr) # rest" using assms(1) by (cases hosts) auto
  have prim: "primary_host (map (\<lambda>(h, pr). JStr h) hosts) = Inr (py_lower (rstrip_chars [CHR ''.''] h))"
    by (simp add: h primary_host_def json_text_of_def py_lower_rstrip)
  have "py_lower (rstrip_chars [CHR ''.''] h) \<noteq> []" using assms(2) by (simp add: h host_ok_def)
  then show ?thesis
    using assms(1) prim mx_hosts_of_values [OF assms(2), of "\<lambda>pr. nat (digits_value (str_of_int pr))"]
    by (simp add: check_mx_def resolve_mx truthy_str_def) (simp add: h)
qed

lemma zone_passes_spf:
  assumes "spf_record spf" "py_in ''include:mxroute.com'' (py_lower (normalise_txt spf))"
    and "label_ok name selector" "label_ok name token" "label_ok name ''_dmarc''"
  shows "\<exists>c. check_spf (zone name (required_rows hosts spf selector key token)) name (JStr spf) = Inr c \<and> ok c"
  using assms(1,2) by (simp add: check_spf_def resolve_txt required_rows_txt [OF assms(3-5)] truthy_str_def)

lemma zone_passes_dkim:
  assumes "key \<noteq> []" "label_ok name selector"
  shows "\<exists>c. check_dkim (zone name (required_rows hosts spf selector key token)) name
    (JStr selector) (JStr key) = Inr c \<and> ok c"
proof -
  let ?z = "zone name (required_rows hosts spf selector key token)"
  obtain vs v where vs: "resolve ?z (fqdn_of selector name) ''TXT'' = Inr (vs, None)"
    "v \<in> set vs" "normalise_txt v = normalise_txt key"
    using published_key_found [OF assms(2)] by blast
  then have "find (\<lambda>v. normalise_txt v = normalise_txt key) vs \<noteq> None"
    by (auto simp: find_None_ball)
  with vs assms show ?thesis
    by (auto simp: check_dkim_def json_truthy_def json_text_of_def truthy_str_def label_ok_def Let_def)
qed

lemma zone_passes_ownership:
  assumes "label_ok name token"
  shows "\<exists>c. check_ownership (zone name (required_rows hosts spf selector key token)) name (JStr token) =
    Inr c \<and> ok c"
proof -
  let ?z = "zone name (required_rows hosts spf selector key token)"
  obtain vs v where vs: "resolve ?z (fqdn_of token name) ''TXT'' = Inr (vs, None)"
    "v \<in> set vs" "normalise_txt v = ''domain-verified''"
    using published_token_found [OF assms] by blast
  then have "list_ex (\<lambda>v. normalise_txt v = ''domain-verified'') vs" by (auto simp: list_ex_iff)
  with vs(1) assms show ?thesis
    by (simp add: check_ownership_def json_truthy_def json_text_of_def truthy_str_def label_ok_def Let_def)
qed

lemma spf_record_nonempty: "spf_record spf \<Longrightarrow> spf \<noteq> []"
  by (auto simp: spf_record_def starts_with_def py_strip_def py_lstrip_def py_rstrip_def py_lower_def)

text \<open>
  C31 The guidance is complete: when the provider documents well-formed records, a zone that holds
  exactly what required_dns_records lists passes every required check and the ownership check, so
  the next sweep makes the domain ready (or verified while it has no mailbox), from any status but a
  suspension.
\<close>

theorem publishing_required_records_suffices:
  assumes "hosts \<noteq> []" "list_all (\<lambda>(h, pr). host_ok h) hosts"
    and "spf_record spf" "py_in ''include:mxroute.com'' (py_lower (normalise_txt spf))" "key \<noteq> []"
    and "label_ok name selector" "label_ok name token" "label_ok name ''_dmarc''"
    and "required_dns_records name (provider_payload hosts spf selector key token) = Inr rows" "s \<noteq> Suspended"
  shows "\<exists>rep. verify_domain (zone name rows) name (provider_payload hosts spf selector key token) = Inr rep \<and>
    report_can_send rep \<and> fst (next_status s rep has_mailbox) = (if has_mailbox then Ready else Verified)"
proof -
  let ?z = "zone name (required_rows hosts spf selector key token)"
  have rows: "rows = required_rows hosts spf selector key token"
    using required_rows [of hosts spf key token name selector] assms spf_record_nonempty
    by (simp add: label_ok_def)
  have dmarc: "\<exists>c. check_dmarc ?z name = Inr c" by (simp add: check_dmarc_def resolve_txt truthy_str_def)
  obtain c1 c2 c3 c4 c5 where c: "check_mx ?z name (map (\<lambda>(h, pr). JStr h) hosts) = Inr c1" "ok c1"
    "check_spf ?z name (JStr spf) = Inr c2" "ok c2"
    "check_dkim ?z name (JStr selector) (JStr key) = Inr c3" "ok c3"
    "check_dmarc ?z name = Inr c4" "check_ownership ?z name (JStr token) = Inr c5" "ok c5"
    using zone_passes_mx [OF assms(1,2)] zone_passes_spf [OF assms(3,4,6-8)] dmarc
      zone_passes_dkim [OF assms(5,6)] zone_passes_ownership [OF assms(7)] by meson
  define rep where "rep = \<lparr>rp_domain = name, rp_checks = [(''mx'', c1), (''spf'', c2), (''dkim'', c3),
      (''dmarc'', c4), (''ownership'', c5)]\<rparr>"
  have "verify_domain ?z name (provider_payload hosts spf selector key token) = Inr rep"
    by (simp add: verify_domain_def published_hosts_payload [OF assms(1,2)] payload_fields [OF assms(1)]
        json_get_def dict_get_def c rep_def)
  moreover have "report_can_send rep" "check_named rep ''ownership'' = Some c5"
    using report_of_five(1,2) [OF rep_def] c by simp_all
  moreover from this c(9) assms(10)
  have "fst (next_status s rep has_mailbox) = (if has_mailbox then Ready else Verified)"
    by (simp add: next_status_def operator_controlled_def)
  ultimately show ?thesis by (auto simp: rows)
qed

theorem publishing_required_records_suffices_witness:
  "\<exists>rows rep. required_dns_records ''a.io'' (provider_payload [(''mx.b.net.'', 10)] ''v=spf1 include:mxroute.com -all''
       ''x._domainkey'' ''p=k'' ''tok'') = Inr rows \<and>
     verify_domain (zone ''a.io'' rows) ''a.io'' (provider_payload [(''mx.b.net.'', 10)]
       ''v=spf1 include:mxroute.com -all'' ''x._domainkey'' ''p=k'' ''tok'') = Inr rep \<and> report_can_send rep"
proof -
  have rows: "required_dns_records ''a.io'' (provider_payload [(''mx.b.net.'', 10)] ''v=spf1 include:mxroute.com -all''
      ''x._domainkey'' ''p=k'' ''tok'') = Inr (required_rows [(''mx.b.net.'', 10)]
      ''v=spf1 include:mxroute.com -all'' ''x._domainkey'' ''p=k'' ''tok'')"
    by (rule required_rows) simp_all
  have "list_all (\<lambda>(h, pr :: int). host_ok h) [(''mx.b.net.'', 10)]"
    "spf_record ''v=spf1 include:mxroute.com -all''"
    "py_in ''include:mxroute.com'' (py_lower (normalise_txt ''v=spf1 include:mxroute.com -all''))"
    "label_ok ''a.io'' ''x._domainkey''" "label_ok ''a.io'' ''tok''" "label_ok ''a.io'' ''_dmarc''"
    by code_simp+
  from publishing_required_records_suffices [OF _ this(1-3) _ this(4-6) rows, of Added True] rows
  show ?thesis by auto
qed

end
