(* ===== verification/Provisioning.thy ===== *)
theory Provisioning
  imports Domains
begin

text \<open>
  Sender identities (emaild/provisioning.py) and the generation of their passwords
  (emaild/crypto.py).  The random draws and the cipher are parameters; a call's state is the
  database with the provider's.
\<close>

section \<open>Passwords\<close>

definition password_length :: nat where "password_length = 32"

definition password_alphabet :: string where
  "password_alphabet = map char_of ([97 ..< 123] @ [65 ..< 91] @ [48 ..< 58 :: nat])"

definition lower_letter :: "char \<Rightarrow> bool" where "lower_letter c = (97 \<le> ord c \<and> ord c \<le> 122)"
definition upper_letter :: "char \<Rightarrow> bool" where "upper_letter c = (65 \<le> ord c \<and> ord c \<le> 90)"

definition complex_enough :: "string \<Rightarrow> bool" where
  "complex_enough c = (list_ex lower_letter c \<and> list_ex upper_letter c \<and> list_ex ascii_digit c)"

text \<open>
  One draw of the loop is a list of indices into the alphabet; \<open>None\<close>: none of these draws is
  accepted, and the loop goes on.
\<close>

definition candidate :: "nat list \<Rightarrow> string" where
  "candidate ixs = map (\<lambda>i. password_alphabet ! (i mod length password_alphabet)) (take password_length ixs)"

definition generate_mailbox_password :: "nat list list \<Rightarrow> string option" where
  "generate_mailbox_password draws = find complex_enough (map candidate draws)"

section \<open>Creating an identity\<close>

definition provider_hourly_limit :: int where "provider_hourly_limit = 400"
definition provider_daily_limit :: int where "provider_daily_limit = 9600"

definition new_mailbox ::
    "nat \<Rightarrow> time \<Rightarrow> nat \<Rightarrow> string \<Rightarrow> string \<Rightarrow> string option \<Rightarrow> mailbox_row" where
  "new_mailbox i now domain_id address sealed display_name =
     \<lparr>mb_id = i, mb_domain_id = domain_id, mb_address = address, mb_password_encrypted = sealed,
      mb_display_name = display_name, mb_hourly_limit = provider_hourly_limit,
      mb_daily_limit = provider_daily_limit, mb_active = True, mb_provisioned_at = Some now,
      mb_created_at = now\<rparr>"

definition promote :: "domain_row \<Rightarrow> domain_row" where
  "promote r = (if dm_status r = Verified then r\<lparr>dm_status := Ready\<rparr> else r)"

definition insert_mailbox :: "mailbox_row \<Rightarrow> db \<Rightarrow> db" where
  "insert_mailbox m d = d\<lparr>mailboxes := mailboxes d @ [m], next_id := Suc (next_id d)\<rparr>"

definition policy_text :: "string \<Rightarrow> string list \<Rightarrow> string" where
  "policy_text domain_name siblings =
     domain_name @ '' already has a sender identity ('' @ py_join '', '' siblings @ ''). '' @
     ''Creating additional mailboxes to increase the 400/hour budget violates '' @
     ''MXRoute'' @ [CHR 39] @ ''s acceptable-use policy and risks account termination. '' @
     ''If this is a genuinely distinct sender identity, pass '' @
     ''allow_additional_identity=True (CLI: --additional-identity).''"

text \<open>Everything that is checked before the provider is called; the domain of the address.\<close>

definition check_identity :: "string \<Rightarrow> bool \<Rightarrow> db \<Rightarrow> (string \<times> domain_row) result" where
  "check_identity address additional d =
     (if CHR ''@'' \<notin> set address then
        Inl (Provisioning_Error (''not an email address: '' @ address))
      else (case partition_at (CHR ''@'') address of (local_part, _, domain_name) \<Rightarrow>
        if local_part = [] then Inl (Provisioning_Error (''missing local part: '' @ address))
        else
          bind_result (scalar_one_or_none (filter (\<lambda>r. dm_name r = domain_name) (domains d))) (\<lambda>found.
          case found of
            None \<Rightarrow> Inl (Provisioning_Error (''domain not tracked: '' @ domain_name @ ''. Add it first.''))
          | Some row \<Rightarrow>
              if dm_status row \<in> {Added, Ownership_Pending} then
                Inl (Provisioning_Error (''domain '' @ domain_name @ '' is '' @
                  domain_status_value (dm_status row) @ ''; publish its DNS records '' @
                  ''and re-verify before provisioning a mailbox''))
              else
                bind_result (scalar_one_or_none (filter (\<lambda>m. mb_address m = address) (mailboxes d))) (\<lambda>existing.
                  if existing \<noteq> None then
                    Inl (Provisioning_Error (''mailbox already provisioned: '' @ address))
                  else
                    let siblings = filter (\<lambda>m. mb_domain_id m = dm_id row) (mailboxes d) in
                    if siblings \<noteq> [] \<and> \<not> additional then
                      Inl (Policy_Violation (policy_text domain_name (map mb_address siblings)))
                    else Inr (local_part, row)))))"

text \<open>The account at the provider: an existing one is adopted by resetting its password.\<close>

definition ensure_account ::
    "'p requester \<Rightarrow> string \<Rightarrow> string \<Rightarrow> string \<Rightarrow> int \<Rightarrow> 'p \<Rightarrow> unit result \<times> 'p" where
  "ensure_account rq domain_name local_part password quota_mb p =
     (case create_email_account rq domain_name local_part password quota_mb provider_daily_limit p of
        (Inr _, p1) \<Rightarrow> (Inr (), p1)
      | (Inl (MX_Conflict m), p1) \<Rightarrow>
          after_call (update_email_account rq domain_name local_part (Some password) None None p1) (\<lambda>_. Inr ())
      | (Inl e, p1) \<Rightarrow> (Inl e, p1))"

definition provision_mailbox ::
    "'p requester \<Rightarrow> (string \<Rightarrow> string) \<Rightarrow> time \<Rightarrow> string \<Rightarrow> string \<Rightarrow> string option \<Rightarrow> int \<Rightarrow> bool \<Rightarrow>
     'p world \<Rightarrow> (mailbox_row \<times> string) result \<times> 'p world" where
  "provision_mailbox rq encrypt now password given display_name quota_mb additional w =
     (let address = py_lower (py_strip given) in
      case check_identity address additional (fst w) of
        Inl e \<Rightarrow> (Inl e, w)
      | Inr (local_part, row) \<Rightarrow>
          bind_state (on_provider (ensure_account rq (dm_name row) local_part password quota_mb) w) (\<lambda>_ w1.
            let m = new_mailbox (next_id (fst w1)) now (dm_id row) address (encrypt password) display_name
            in (Inr (m, password), on_db (\<lambda>d. update_domain (dm_id row) promote (insert_mailbox m d)) w1)))"

section \<open>Rotation and usage\<close>

definition rotate_mailbox_password ::
    "'p requester \<Rightarrow> (string \<Rightarrow> string) \<Rightarrow> string \<Rightarrow> string \<Rightarrow> 'p world \<Rightarrow> string result \<times> 'p world" where
  "rotate_mailbox_password rq encrypt new_password address w =
     (case scalar_one_or_none (filter (\<lambda>m. mb_address m = address) (mailboxes (fst w))) of
        Inl e \<Rightarrow> (Inl e, w)
      | Inr None \<Rightarrow> (Inl (Provisioning_Error (''mailbox not tracked: '' @ address)), w)
      | Inr (Some m) \<Rightarrow>
          (case partition_at (CHR ''@'') address of (local_part, _, domain_name) \<Rightarrow>
            bind_state (on_provider (update_email_account rq domain_name local_part
                (Some new_password) None None) w) (\<lambda>_ w1.
              (Inr new_password, on_db (\<lambda>d. d\<lparr>mailboxes := update_where (\<lambda>q. mb_id q = mb_id m)
                 (\<lambda>q. q\<lparr>mb_password_encrypted := encrypt new_password\<rparr>) (mailboxes d)\<rparr>) w1))))"

text \<open>\<open>int(j)\<close> on a JSON value.\<close>

definition json_int :: "json \<Rightarrow> int result" where
  "json_int j = (case j of
       JInt i \<Rightarrow> Inr i
     | JBool b \<Rightarrow> Inr (if b then 1 else 0)
     | JStr s \<Rightarrow>
         (let t = py_strip s; (sign, u) = (if starts_with ''-'' t then (-1, tl t)
                else if starts_with ''+'' t then (1, tl t) else (1, t))
          in if u \<noteq> [] \<and> list_all ascii_digit u then Inr (sign * digits_value u)
             else Inl (Value_Error (''invalid literal for int() with base 10: '' @ py_repr s)))
     | _ \<Rightarrow> Inl (Type_Error (''int() argument must be a string, a bytes-like object or a real number'')))"

record usage_view =
  us_sent_today :: int
  us_daily_limit :: int
  us_suspended :: bool

definition provider_usage :: "'p requester \<Rightarrow> string \<Rightarrow> 'p \<Rightarrow> usage_view result \<times> 'p" where
  "provider_usage rq address p =
     (case partition_at (CHR ''@'') address of (local_part, _, domain_name) \<Rightarrow>
        after_call (get_email_account rq domain_name local_part p) (\<lambda>data.
          bind_result (bind_result (json_get_default data ''sent'' (JInt 0)) json_int) (\<lambda>sent.
          bind_result (bind_result (json_get_default data ''limit'' (JInt provider_daily_limit)) json_int) (\<lambda>l.
          bind_result (json_get_default data ''suspended'' (JBool False)) (\<lambda>s.
            Inr \<lparr>us_sent_today = sent, us_daily_limit = l, us_suspended = json_truthy s\<rparr>)))))"

section \<open>Passwords meet the provider's rule\<close>

lemma set_password_alphabet: "c \<in> set password_alphabet \<Longrightarrow> lower_letter c \<or> upper_letter c \<or> ascii_digit c"
  by (auto simp: password_alphabet_def lower_letter_def upper_letter_def ascii_digit_def)

text \<open>
  A generated password has 32 characters, all letters and digits, with a lower case letter, an
  upper case letter and a digit among them; and the loop ends with the first acceptable draw.
\<close>

theorem password_meets_rule:
  assumes "generate_mailbox_password draws = Some pw" "list_all (\<lambda>ixs. 32 \<le> length ixs) draws"
  shows "length pw = 32 \<and> list_all (\<lambda>c. lower_letter c \<or> upper_letter c \<or> ascii_digit c) pw \<and>
    list_ex lower_letter pw \<and> list_ex upper_letter pw \<and> list_ex ascii_digit pw"
proof -
  have pw: "pw \<in> set (map candidate draws)" "complex_enough pw"
    using assms(1) unfolding generate_mailbox_password_def by (rule find_SomeD)+
  then obtain ixs where ixs: "ixs \<in> set draws" "pw = candidate ixs" by auto
  have alpha: "length password_alphabet = 62" by (simp add: password_alphabet_def)
  then have "set pw \<subseteq> set password_alphabet"
    by (auto simp: ixs(2) candidate_def)
  then have "list_all (\<lambda>c. lower_letter c \<or> upper_letter c \<or> ascii_digit c) pw"
    using set_password_alphabet by (auto simp: list_all_iff)
  moreover have "length pw = 32"
    using assms(2) ixs by (auto simp: candidate_def password_length_def list_all_iff)
  ultimately show ?thesis using pw(2) by (simp add: complex_enough_def)
qed

theorem password_meets_rule_witness:
  "\<exists>pw. generate_mailbox_password [replicate 32 0, [26, 52] @ replicate 30 0] = Some pw \<and> length pw = 32"
proof -
  have "generate_mailbox_password [replicate 32 0, [26, 52] @ replicate 30 0] \<noteq> None" by code_simp
  then obtain pw where "generate_mailbox_password [replicate 32 0, [26, 52] @ replicate 30 0] = Some pw"
    by blast
  with password_meets_rule [OF this] show ?thesis by simp
qed

section \<open>What provisioning leaves behind\<close>

lemma partition_at_Cons:
  "partition_at c s = (a, b, t) \<Longrightarrow> c \<in> set s \<Longrightarrow> s = a @ c # t"
  by (auto simp: partition_at_def)
     (metis (mono_tags, lifting) append_same_eq dropWhile_eq_Nil_conv hd_dropWhile list.collapse takeWhile_dropWhile_id)

lemma check_identityE:
  assumes "check_identity address additional d = Inr (local_part, row)"
  obtains "address = local_part @ CHR ''@'' # dm_name row" "local_part \<noteq> []" "row \<in> set (domains d)"
    "dm_status row \<notin> {Added, Ownership_Pending}" "address \<notin> mb_address ` set (mailboxes d)"
    "additional \<or> mailbox_count d (dm_id row) = 0"
proof -
  obtain l b n where part: "partition_at (CHR ''@'') address = (l, b, n)"
    by (cases "partition_at (CHR ''@'') address")
  have at: "CHR ''@'' \<in> set address" "l \<noteq> []"
    using assms part by (auto simp: check_identity_def split: if_splits)
  note run = assms [unfolded check_identity_def part]
  obtain row' where r: "scalar_one_or_none (filter (\<lambda>r. dm_name r = n) (domains d)) = Inr (Some row')"
    using run at by (auto simp: result_simps split: if_splits option.splits)
  obtain e where e: "scalar_one_or_none (filter (\<lambda>m. mb_address m = address) (mailboxes d)) = Inr e"
    using run at r by (auto simp: result_simps split: if_splits)
  have all: "l = local_part" "row' = row" "dm_status row \<notin> {Added, Ownership_Pending}" "e = None"
    "filter (\<lambda>m. mb_domain_id m = dm_id row) (mailboxes d) = [] \<or> additional"
    using run at r e by (auto simp: Let_def split: if_splits)
  have "row \<in> set (domains d)" "dm_name row = n"
    using r all(2) by (auto simp: scalar_one_or_none_def split: list.splits dest: filter_eq_ConsD)
  moreover have "address \<notin> mb_address ` set (mailboxes d)"
    using e all(4) by (auto simp: scalar_one_or_none_def filter_empty_conv split: list.splits)
  ultimately show ?thesis
    using that all at partition_at_Cons [OF part at(1)]
    by (auto simp: mailbox_count_def count_where_def)
qed

lemma provision_mailboxE:
  assumes "provision_mailbox rq encrypt now pw given display_name quota additional (d, p) = (r, (d', p'))"
  obtains (failed) e where "r = Inl e" "d' = d"
    | (finished) local_part row m where "check_identity (py_lower (py_strip given)) additional d = Inr (local_part, row)"
        "ensure_account rq (dm_name row) local_part pw quota p = (Inr (), p')"
        "m = new_mailbox (next_id d) now (dm_id row) (py_lower (py_strip given)) (encrypt pw) display_name"
        "r = Inr (m, pw)" "d' = update_domain (dm_id row) promote (insert_mailbox m d)"
proof (cases "check_identity (py_lower (py_strip given)) additional d")
  case (Inl e)
  with assms have "r = Inl e \<and> d' = d" by (simp add: provision_mailbox_def Let_def)
  then show ?thesis by (intro failed) simp_all
next
  case (Inr x)
  obtain l row where x: "x = (l, row)" by (cases x)
  obtain a p1 where acc: "ensure_account rq (dm_name row) l pw quota p = (a, p1)"
    by (cases "ensure_account rq (dm_name row) l pw quota p")
  show ?thesis
  proof (cases a)
    case (Inl e)
    with assms Inr x acc have "r = Inl e \<and> d' = d"
      by (simp add: provision_mailbox_def Let_def on_provider_def) 
    then show ?thesis by (intro failed) simp_all
  next
    case u: (Inr u)
    let ?m = "new_mailbox (next_id d) now (dm_id row) (py_lower (py_strip given)) (encrypt pw) display_name"
    have "r = Inr (?m, pw) \<and> d' = update_domain (dm_id row) promote (insert_mailbox ?m d) \<and> p' = p1"
      using assms Inr x acc u by (simp add: provision_mailbox_def Let_def on_provider_def on_db_def)
    with Inr x acc u show ?thesis by (intro finished [of l row ?m]) simp_all
  qed
qed

lemma promote_edit: "row_edit promote"
  by (simp add: row_edit_def promote_def)


text \<open>What the provider documents of the two calls that set a password.\<close>

definition sets_password :: "'p requester \<Rightarrow> ('p \<Rightarrow> string \<Rightarrow> string \<Rightarrow> string option) \<Rightarrow> bool" where
  "sets_password rq knows \<longleftrightarrow>
     (\<forall>n l pw quota p v p'. create_email_account rq n l pw quota provider_daily_limit p = (Inr v, p') \<longrightarrow>
        knows p' n l = Some pw) \<and>
     (\<forall>n l pw p v p'. update_email_account rq n l (Some pw) None None p = (Inr v, p') \<longrightarrow>
        knows p' n l = Some pw)"

lemma ensure_account_sets:
  assumes "sets_password rq knows" "ensure_account rq n l pw quota p = (Inr (), p')"
  shows "knows p' n l = Some pw"
proof -
  obtain a p1 where c: "create_email_account rq n l pw quota provider_daily_limit p = (a, p1)"
    by (cases "create_email_account rq n l pw quota provider_daily_limit p")
  show ?thesis
  proof (cases a)
    case (Inr v)
    with assms c show ?thesis by (auto simp: ensure_account_def sets_password_def)
  next
    case (Inl e)
    with assms(2) c obtain m where e: "e = MX_Conflict m"
      by (cases e) (auto simp: ensure_account_def)
    obtain b p2 where u: "update_email_account rq n l (Some pw) None None p1 = (b, p2)"
      by (cases "update_email_account rq n l (Some pw) None None p1")
    with assms(2) c Inl e obtain v where "b = Inr v" "p2 = p'"
      by (cases b) (auto simp: ensure_account_def after_call_def)
    with assms(1) u show ?thesis by (auto simp: sets_password_def)
  qed
qed


section \<open>Instances\<close>

text \<open>A provider that keeps the password of every account under its path.\<close>

definition ex_store_password :: "string \<Rightarrow> string \<Rightarrow> (string \<times> string) list \<Rightarrow> (string \<times> string) list" where
  "ex_store_password k pw p = (k, pw) # filter (\<lambda>x. fst x \<noteq> k) p"

definition ex_provider :: "(string \<times> string) list requester" where
  "ex_provider method path body p =
     (case body of
        Some (JObj kvs) \<Rightarrow>
          (case dict_get kvs ''password'' of
             Some (JStr pw) \<Rightarrow>
               (Inr JNull, (case dict_get kvs ''username'' of
                  Some (JStr u) \<Rightarrow> ex_store_password (path @ ''/'' @ u) pw p
                | _ \<Rightarrow> ex_store_password path pw p))
           | _ \<Rightarrow> (Inr JNull, p))
      | _ \<Rightarrow> (Inr JNull, p))"

definition ex_knows :: "(string \<times> string) list \<Rightarrow> string \<Rightarrow> string \<Rightarrow> string option" where
  "ex_knows p n l = map_of p (accounts_path n @ ''/'' @ l)"

lemma ex_sets_password: "sets_password ex_provider ex_knows"
  by (auto simp: sets_password_def create_email_account_def update_email_account_def ex_provider_def
      ex_knows_def ex_store_password_def dict_get_def Let_def)

definition ex_empty_domain :: db where
  "ex_empty_domain = (ex_db_with Verified)\<lparr>mailboxes := []\<rparr>"

lemma ex_provision:
  "\<exists>w'. provision_mailbox ex_provider (\<lambda>s. s) 9 ''Secret1'' '' New@A.io '' None 1024 False
      (ex_empty_domain, []) = (Inr (new_mailbox 7 9 2 ''new@a.io'' ''Secret1'' None, ''Secret1''), w')"
proof -
  have n: "py_lower (py_strip '' New@A.io '') = ''new@a.io''" by code_simp
  have i: "check_identity ''new@a.io'' False ex_empty_domain = Inr (''new'', ex_domain\<lparr>dm_status := Verified\<rparr>)"
    by code_simp
  have a: "\<exists>p'. ensure_account ex_provider ''a.io'' ''new'' ''Secret1'' 1024 [] = (Inr (), p')"
    by (simp add: ensure_account_def create_email_account_def ex_provider_def dict_get_def)
  then obtain p' where "ensure_account ex_provider ''a.io'' ''new'' ''Secret1'' 1024 [] = (Inr (), p')" ..
  moreover have "next_id ex_empty_domain = 7" by (simp add: ex_empty_domain_def ex_db_with_def)
  ultimately show ?thesis by (simp add: provision_mailbox_def n i on_provider_def Let_def)
qed



text \<open>
  A rotation whose answers are lost: the provider applies every one of the three calls, each times
  out, and the failed rotation leaves the new password there and the old one here.
\<close>

definition ex_lossy :: "(string \<times> string) list transport" where
  "ex_lossy method path body now p = (Timed_Out, 1, snd (ex_provider method path body p))"

lemma request_times_out:
  assumes "\<And>now p. \<exists>t. transport method path body now p = (Timed_Out, t, f p)" "\<And>p. f (f p) = f p"
    and "int (length (lm_writes (cl_limiter c))) + 3 \<le> lm_write_limit (cl_limiter c)" "is_write method"
  shows "\<exists>e c'. request late transport method path body c = (Inl (MX_Error e), c') \<and>
    cl_provider c' = f (cl_provider c)"
proof -
  have acq: "\<exists>lm' t. acquire late lm now method = (Inr (), lm', t) \<and>
      length (lm_writes lm') \<le> Suc (length (lm_writes lm)) \<and> lm_write_limit lm' = lm_write_limit lm"
    if "int (length (lm_writes lm)) < lm_write_limit lm" for lm now
  proof -
    have "int (count_where (in_minute now) (lm_writes lm)) < lm_write_limit lm"
    proof -
      have "int (length (filter (in_minute now) (lm_writes lm))) \<le> int (length (lm_writes lm))" by simp
      with that show ?thesis unfolding count_where_def by linarith
    qed
    from acquire_loop_now [OF this] show ?thesis
      using assms(4) by (simp add: acquire_def)
  qed
  have "\<exists>e c'. request_loop late transport max_attempts method path body left last_exc c = (Inl e, c') \<and>
      (0 < left \<longrightarrow> (\<exists>m. e = MX_Error m) \<and> cl_provider c' = f (cl_provider c)) \<and>
      (left = 0 \<longrightarrow> c' = c \<and> (\<forall>m. last_exc = Some (MX_Error m) \<longrightarrow> e = MX_Error m))"
    if "int (length (lm_writes (cl_limiter c))) + int left \<le> lm_write_limit (cl_limiter c)"
    for max_attempts left last_exc c
    using that
  proof (induction left arbitrary: last_exc c)
    case 0
    then show ?case by (cases last_exc) simp_all
  next
    case (Suc left)
    obtain lm' t where a: "acquire late (cl_limiter c) (cl_now c) method = (Inr (), lm', t)"
      "length (lm_writes lm') \<le> Suc (length (lm_writes (cl_limiter c)))"
      "lm_write_limit lm' = lm_write_limit (cl_limiter c)"
      using acq [of "cl_limiter c" "cl_now c"] Suc.prems by auto
    obtain dur where tr: "transport method path body t (cl_provider c) = (Timed_Out, dur, f (cl_provider c))"
      using assms(1) by blast
    define c2 where "c2 = (if left = 0 then id else pause late (seconds (min (2 ^ (max_attempts - left)) 8)))
      (c\<lparr>cl_limiter := lm', cl_now := t + int dur, cl_provider := f (cl_provider c)\<rparr>)"
    have c2: "cl_limiter c2 = lm'" "cl_provider c2 = f (cl_provider c)"
      by (simp_all add: c2_def pause_def)
    have step: "request_loop late transport max_attempts method path body (Suc left) last_exc c =
        request_loop late transport max_attempts method path body left
          (Some (MX_Error (''timeout calling '' @ method @ '' '' @ path))) c2"
      using a(1) tr by (simp add: send_call_def c2_def)
    have "int (length (lm_writes (cl_limiter c2))) + int left \<le> lm_write_limit (cl_limiter c2)"
      using Suc.prems a(2,3) c2 by simp
    from Suc.IH [OF this, of "Some (MX_Error (''timeout calling '' @ method @ '' '' @ path))"]
    show ?case unfolding step using c2 assms(2) by (cases "left = 0") auto
  qed
  from this [of c 3 3 None] assms(3) show ?thesis by (auto simp: request_def)
qed

lemma rotation_timeout_splits:
  "\<exists>e c'. rotate_mailbox_password (request (\<lambda>_. 0) ex_lossy) (\<lambda>s. s) ''Secret2'' ''no@a.io''
      (ex_db, \<lparr>cl_limiter = new_limiter, cl_now = 0, cl_provider = []\<rparr>) = (Inl e, (ex_db, c')) \<and>
     ex_knows (cl_provider c') ''a.io'' ''no'' = Some ''Secret2''"
proof -
  let ?c = "\<lparr>cl_limiter = new_limiter, cl_now = 0, cl_provider = []\<rparr> :: (string \<times> string) list client"
  let ?path = "accounts_path ''a.io'' @ ''/'' @ ''no''"
  let ?body = "Some (JObj [(''password'', JStr ''Secret2'')])"
  have part: "partition_at (CHR ''@'') ''no@a.io'' = (''no'', ''@'', ''a.io'')" by code_simp
  have "\<exists>e c'. request (\<lambda>_. 0) ex_lossy ''PATCH'' ?path ?body ?c = (Inl (MX_Error e), c') \<and>
      cl_provider c' = ex_store_password ?path ''Secret2'' (cl_provider ?c)"
  proof (rule request_times_out)
    show "\<exists>t. ex_lossy ''PATCH'' ?path ?body now p = (Timed_Out, t, ex_store_password ?path ''Secret2'' p)"
      for now p by (simp add: ex_lossy_def ex_provider_def dict_get_def)
    show "ex_store_password ?path ''Secret2'' (ex_store_password ?path ''Secret2'' p) =
        ex_store_password ?path ''Secret2'' p" for p by (simp add: ex_store_password_def)
    show "int (length (lm_writes (cl_limiter ?c))) + 3 \<le> lm_write_limit (cl_limiter ?c)"
      by (simp add: new_limiter_def write_limit_per_minute_def safety_def py_trunc_def)
    show "is_write ''PATCH''" by code_simp
  qed
  then obtain e c' where r: "request (\<lambda>_. 0) ex_lossy ''PATCH'' ?path ?body ?c = (Inl (MX_Error e), c')"
    and c': "cl_provider c' = ex_store_password ?path ''Secret2'' (cl_provider ?c)" by blast
  have "update_email_account (request (\<lambda>_. 0) ex_lossy) ''a.io'' ''no'' (Some ''Secret2'') None None ?c =
      (Inl (MX_Error e), c')"
    using r by (simp add: update_email_account_def)
  moreover have "ex_knows (cl_provider c') ''a.io'' ''no'' = Some ''Secret2''"
    by (simp add: c' ex_knows_def ex_store_password_def)
  ultimately show ?thesis
    by (simp add: rotate_mailbox_password_def scalar_one_or_none_def part on_provider_def)
qed

end
