(* ===== verification/Jobs.thy ===== *)
theory Jobs
  imports Domains Claim_Queue
begin

text \<open>
  Privileged work asked for by an unprivileged process (emaild/jobs.py): the cleaning of a domain name,
  the queue of jobs, and the execution of one job with every way it may end.
\<close>

section \<open>Domain names\<close>

definition name_char :: "char \<Rightarrow> bool" where
  "name_char c = (97 \<le> ord c \<and> ord c \<le> 122 \<or> ascii_digit c)"

definition label_match :: "string \<Rightarrow> bool" where
  "label_match l = (l \<noteq> [] \<and> length l \<le> 63 \<and> name_char (hd l) \<and> name_char (last l) \<and>
     list_all (\<lambda>c. name_char c \<or> c = CHR ''-'') l)"

definition tld_match :: "string \<Rightarrow> bool" where
  "tld_match l = (2 \<le> length l \<and> length l \<le> 63 \<and> list_all (\<lambda>c. 97 \<le> ord c \<and> ord c \<le> 122) l)"

definition domain_shape :: "string \<Rightarrow> bool" where
  "domain_shape s = (let ls = split_char (CHR ''.'') s in
     length s \<le> 253 \<and> 2 \<le> length ls \<and> list_all label_match (butlast ls) \<and> tld_match (last ls))"

text \<open>The pattern's \<open>$\<close> also matches before a final newline.\<close>

definition domain_match :: "string \<Rightarrow> bool" where
  "domain_match s = (domain_shape s \<or> s \<noteq> [] \<and> last s = CHR 10 \<and> domain_shape (butlast s))"

definition clean_domain :: "json \<Rightarrow> string result" where
  "clean_domain raw =
     bind_result (json_text_of (json_or raw (JStr [])) ''strip'') (\<lambda>s.
       let name = rstrip_chars [CHR ''.''] (py_lower (py_strip s)) in
       if name = [] then Inl (Job_Error ''A domain name is required.'')
       else if starts_with ''http://'' name \<or> starts_with ''https://'' name then
         Inl (Job_Error ''Enter just the domain, with no https:// and no path.'')
       else if CHR ''@'' \<in> set name then
         Inl (Job_Error ''Enter the domain only, not an email address.'')
       else if \<not> domain_match name then
         Inl (Job_Error (py_repr name @ '' does not look like a domain name.''))
       else Inr name)"

section \<open>The queue\<close>

definition job_stale_after :: time where "job_stale_after = minutes 10"

definition payload_domain :: "job_row \<Rightarrow> json \<Rightarrow> json" where
  "payload_domain j default_value = (case jb_payload j of
       None \<Rightarrow> default_value
     | Some kvs \<Rightarrow> (case dict_get kvs ''domain'' of None \<Rightarrow> default_value | Some v \<Rightarrow> v))"

definition outstanding :: "job_row \<Rightarrow> bool" where
  "outstanding j = (jb_status j \<in> {Pending, Running})"

definition new_job :: "nat \<Rightarrow> time \<Rightarrow> job_type \<Rightarrow> (string \<times> json) list \<Rightarrow> string \<Rightarrow> job_row" where
  "new_job i now t payload requested_by =
     \<lparr>jb_id = i, jb_job_type = t, jb_status = Pending, jb_payload = Some payload,
      jb_requested_by = requested_by, jb_result = None, jb_created_at = now, jb_claimed_at = None,
      jb_completed_at = None\<rparr>"

definition enqueue ::
    "time \<Rightarrow> job_type \<Rightarrow> (string \<times> json) list \<Rightarrow> string \<Rightarrow> db \<Rightarrow> (job_row \<times> db) result" where
  "enqueue now t payload requested_by d =
     bind_result (clean_domain (case dict_get payload ''domain'' of None \<Rightarrow> JStr [] | Some v \<Rightarrow> v)) (\<lambda>name.
       case find (\<lambda>j. jb_job_type j = t \<and> outstanding j \<and> payload_domain j JNull = JStr name)
           (provisioning_jobs d) of
         Some j \<Rightarrow> Inr (j, d)
       | None \<Rightarrow>
           let j = new_job (next_id d) now t (dict_put ''domain'' (JStr name) payload) requested_by in
           Inr (j, d\<lparr>provisioning_jobs := provisioning_jobs d @ [j], next_id := Suc (next_id d)\<rparr>))"

definition job_stale :: "time \<Rightarrow> job_row \<Rightarrow> bool" where
  "job_stale now j = (jb_status j = Running \<and>
     (case jb_claimed_at j of None \<Rightarrow> False | Some t \<Rightarrow> t < now - job_stale_after))"

definition to_pending :: "job_row \<Rightarrow> job_row" where
  "to_pending j = j\<lparr>jb_status := Pending, jb_claimed_at := None\<rparr>"

definition reap_stale :: "time \<Rightarrow> db \<Rightarrow> nat \<times> db" where
  "reap_stale now d = (count_where (job_stale now) (provisioning_jobs d),
     d\<lparr>provisioning_jobs := update_where (job_stale now) to_pending (provisioning_jobs d)\<rparr>)"

definition job_due :: "job_row \<Rightarrow> bool" where
  "job_due j = (jb_status j = Pending)"

definition mark_running :: "time \<Rightarrow> job_row \<Rightarrow> job_row" where
  "mark_running now j = j\<lparr>jb_status := Running, jb_claimed_at := Some now\<rparr>"

definition update_job :: "nat \<Rightarrow> (job_row \<Rightarrow> job_row) \<Rightarrow> db \<Rightarrow> db" where
  "update_job i f d = d\<lparr>provisioning_jobs := update_where (\<lambda>j. jb_id j = i) f (provisioning_jobs d)\<rparr>"

definition job_of :: "db \<Rightarrow> nat \<Rightarrow> job_row option" where
  "job_of d i = find (\<lambda>j. jb_id j = i) (provisioning_jobs d)"

text \<open>\<open>locked\<close>: the rows another provisioner's transaction holds.\<close>

definition claim_one :: "time \<Rightarrow> nat list \<Rightarrow> db \<Rightarrow> nat option \<times> db" where
  "claim_one now locked d =
     (let ids = pick_ids jb_id jb_created_at job_due locked 1 (provisioning_jobs d)
      in (case ids of [] \<Rightarrow> None | i # _ \<Rightarrow> Some i,
          d\<lparr>provisioning_jobs := mark_picked jb_id ids (mark_running now) (provisioning_jobs d)\<rparr>))"

section \<open>Executing a job\<close>

definition added_text :: "domain_row \<Rightarrow> string" where
  "added_text r = ''Added '' @ dm_name r @ '' (status: '' @ domain_status_value (dm_status r) @ ''). '' @
     ''Publish its DNS records, then verify.''"

definition refresh_text :: "string \<Rightarrow> domain_refresh \<Rightarrow> string" where
  "refresh_text name f =
     (if rf_changed f then name @ '': '' @ domain_status_value (rf_previous f) @ '' -> '' @
        domain_status_value (rf_current f)
      else name @ '': still '' @ domain_status_value (rf_current f) @ '' ('' @
        (if truthy_str (rf_note f) then or_empty (rf_note f) else ''no change'') @ '')'')"

definition execute ::
    "'p requester \<Rightarrow> resolver \<Rightarrow> time \<Rightarrow> job_row \<Rightarrow> 'p world \<Rightarrow> string result \<times> 'p world" where
  "execute rq dns now j w =
     (case clean_domain (payload_domain j (JStr [])) of
        Inl e \<Rightarrow> (Inl e, w)
      | Inr name \<Rightarrow>
          (case jb_job_type j of
             Add_Domain \<Rightarrow>
               bind_state (add_domain rq now name w) (\<lambda>r w1. (Inr (added_text r), w1))
           | Verify_Domain \<Rightarrow>
               (case scalar_one_or_none (filter (\<lambda>r. dm_name r = name) (domains (fst w))) of
                  Inl e \<Rightarrow> (Inl e, w)
                | Inr None \<Rightarrow> (Inl (Job_Error (name @ '' is not tracked. Add it first.'')), w)
                | Inr (Some _) \<Rightarrow>
                    bind_state (refresh_domain rq dns now name w) (\<lambda>f w1. (Inr (refresh_text name f), w1)))))"

definition finish_job :: "time \<Rightarrow> job_status \<Rightarrow> string \<Rightarrow> job_row \<Rightarrow> job_row" where
  "finish_job now s message j = j\<lparr>jb_result := Some message, jb_status := s, jb_completed_at := Some now\<rparr>"

definition is_job_error :: "exn \<Rightarrow> bool" where
  "is_job_error e = (case e of Job_Error _ \<Rightarrow> True | _ \<Rightarrow> False)"

text \<open>
  The message of a failure: the exception's own text, with the advice after a failed add that was
  the provider's doing.
\<close>

definition failure_text :: "'p requester \<Rightarrow> job_row \<Rightarrow> exn \<Rightarrow> 'p \<Rightarrow> string \<times> 'p" where
  "failure_text rq j e p =
     (if is_job_error e \<or> is_mx_error e then
        (if jb_job_type j = Add_Domain \<and> is_mx_error e then
           (case add_failure_message rq e (json_str (payload_domain j (JStr []))) p of
              (advice, p1) \<Rightarrow> (exn_text e @ newline @ newline @ advice, p1))
         else (exn_text e, p))
      else (''unexpected error: '' @ exn_text e, p))"

definition complete ::
    "'p requester \<Rightarrow> time \<Rightarrow> job_row \<Rightarrow> string result \<times> 'p world \<Rightarrow> 'p world" where
  "complete rq now j outcome =
     (case outcome of
        (Inr message, w) \<Rightarrow> on_db (update_job (jb_id j) (finish_job now Succeeded message)) w
      | (Inl e, w) \<Rightarrow>
          (case failure_text rq j e (snd w) of
             (message, p) \<Rightarrow> (update_job (jb_id j) (finish_job now Failed message) (fst w), p)))"

definition run_one ::
    "'p requester \<Rightarrow> resolver \<Rightarrow> time \<Rightarrow> nat list \<Rightarrow> 'p world \<Rightarrow> bool \<times> 'p world" where
  "run_one rq dns now locked w =
     (case claim_one now locked (fst w) of
        (None, d) \<Rightarrow> (False, (d, snd w))
      | (Some i, d) \<Rightarrow>
          (case job_of d i of
             None \<Rightarrow> (False, (d, snd w))
           | Some j \<Rightarrow> (True, complete rq now j (execute rq dns now j (d, snd w)))))"

definition recent :: "int \<Rightarrow> db \<Rightarrow> job_row list" where
  "recent limit d = take (nat limit) (sort_key (\<lambda>j. - jb_created_at j) (provisioning_jobs d))"

section \<open>Names that pass\<close>

lemma split_char_nonempty [simp]: "split_char c s \<noteq> []"
  by (induction s) (auto split: list.splits)

lemma set_split_char: "set s \<subseteq> insert c (\<Union> (set ` set (split_char c s)))"
proof (induction s)
  case Nil
  then show ?case by simp
next
  case (Cons d s)
  obtain w ws where "split_char c s = w # ws" by (cases "split_char c s") auto
  with Cons show ?case by auto
qed

lemma last_split_char: "last (split_char c s) \<noteq> [] \<Longrightarrow> s \<noteq> [] \<and> last s = last (last (split_char c s))"
proof (induction s)
  case Nil
  then show ?case by simp
next
  case (Cons d s)
  obtain w ws where w: "split_char c s = w # ws" by (cases "split_char c s") auto
  show ?case
  proof (cases "s = []")
    case True
    with Cons.prems show ?thesis by (auto split: if_splits)
  next
    case False
    have "last (split_char c s) \<noteq> []"
    proof (cases "d = c \<or> ws \<noteq> []")
      case True
      with Cons.prems w show ?thesis by (auto split: if_splits)
    next
      case one: False
      then have "w \<noteq> []"
      proof -
        have "set s \<subseteq> insert c (set w)" using set_split_char [of s c] w one by simp
        moreover have "w = [] \<Longrightarrow> split_char c s = [[]]" using w one by simp
        moreover have "split_char c s = [[]] \<Longrightarrow> s = []"
          by (cases s) (auto split: list.splits if_splits)
        ultimately show ?thesis using False by blast
      qed
      with one w show ?thesis by simp
    qed
    with Cons.IH False w show ?thesis by auto
  qed
qed

lemma domain_shape_chars:
  assumes "domain_shape s"
  shows "\<forall>c \<in> set s. name_char c \<or> c \<in> {CHR ''-'', CHR ''.''}" and "s \<noteq> []" and "last s \<noteq> CHR ''.''"
proof -
  let ?ls = "split_char (CHR ''.'') s"
  have ls: "list_all label_match (butlast ?ls)" "tld_match (last ?ls)"
    using assms by (simp_all add: domain_shape_def Let_def)
  have l: "name_char c \<or> c = CHR ''-''" if "l \<in> set ?ls" "c \<in> set l" for l c
  proof (cases "l \<in> set (butlast ?ls)")
    case True
    with ls(1) have "label_match l" by (simp add: list_all_iff)
    with that(2) show ?thesis by (auto simp: label_match_def list_all_iff)
  next
    case False
    with that(1) have "l = last ?ls"
      by (metis append_butlast_last_id empty_iff empty_set insert_iff list.simps(15) set_append Un_iff split_char_nonempty)
    with ls(2) that(2) show ?thesis by (auto simp: tld_match_def list_all_iff name_char_def)
  qed
  with set_split_char [of s "CHR ''.''"]
  show "\<forall>c \<in> set s. name_char c \<or> c \<in> {CHR ''-'', CHR ''.''}" by blast
  have ne: "last ?ls \<noteq> []" using ls(2) by (auto simp: tld_match_def)
  from last_split_char [OF this] have s: "s \<noteq> []" "last s = last (last ?ls)" by auto
  show "s \<noteq> []" by (rule s)
  have "last (last ?ls) \<in> set (last ?ls)" using ne by simp
  with ls(2) have "97 \<le> ord (last s)" unfolding s(2) by (auto simp: tld_match_def list_all_iff)
  then show "last s \<noteq> CHR ''.''" by (auto simp: ord_def)
qed

lemma clean_name_shape:
  assumes "domain_shape s"
  shows "clean_name s = s" and "clean_name (s @ newline) = s"
proof -
  note c = domain_shape_chars [OF assms]
  have plain: "\<not> py_space x \<and> lower_char x = x" if "x \<in> set s" for x
    using c(1) that
    by (auto simp: name_char_def ascii_digit_def py_space_def lower_char_def py_upper_letter_def Let_def ord_def)
  then have strip: "py_strip s = s" by (intro py_strip_id) blast
  have lower: "py_lower s = s" using plain by (simp add: py_lower_def map_idI)
  have dot: "rstrip_chars [CHR ''.''] s = s"
    using c(2,3) by (cases s rule: rev_cases) (auto simp: rstrip_chars_def)
  show "clean_name s = s" by (simp add: clean_name_def strip lower dot)
  have "py_strip (s @ newline) = s"
  proof -
    have drop: "dropWhile py_space t = t" if "\<forall>x \<in> set t. \<not> py_space x" for t
      using that by (cases t) auto
    have nl: "py_space (CHR 10)" by (simp add: py_space_def ord_def)
    obtain x xs where s: "s = x # xs" using c(2) by (cases s) auto
    have "dropWhile py_space (rev s) = rev s" using plain by (intro drop) simp
    then show ?thesis
      using plain nl s by (simp add: py_strip_def py_lstrip_def py_rstrip_def newline_def)
  qed
  then show "clean_name (s @ newline) = s" by (simp add: clean_name_def lower dot)
qed

lemma clean_name_match: "domain_match s \<Longrightarrow> domain_shape (clean_name s)"
  using clean_name_shape [of s] clean_name_shape [of "butlast s"]
  by (auto simp: domain_match_def newline_def append_butlast_last_id split: if_splits)
     (metis append_butlast_last_id)

lemma clean_domain_Inr:
  "clean_domain j = Inr n \<Longrightarrow> domain_match n \<and>
     n = clean_name (case j of JStr s \<Rightarrow> s | _ \<Rightarrow> []) \<and> \<not> starts_with ''http://'' n \<and> \<not> starts_with ''https://'' n"
  by (cases "json_truthy j")
     (auto simp: clean_domain_def clean_name_def Let_def result_simps json_or_def json_truthy_def
        py_strip_def py_lstrip_def py_rstrip_def py_lower_def rstrip_chars_def
        split: if_splits json.splits)

text \<open>
  C39 A cleaned name is a domain name, and cleaning it once more, as the executing side does, returns
  a strict one: labels of at most 63 lower case letters, digits and inner hyphens, two or more of
  them, a top label of letters, 253 characters at most; the only name the second cleaning changes is
  one that ends in a newline, which it drops.
\<close>

theorem cleaned_domain_is_strict:
  assumes "clean_domain j = Inr n"
  shows "\<exists>s. clean_domain (JStr n) = Inr s \<and> domain_shape s \<and> clean_domain (JStr s) = Inr s \<and>
    (n = s \<or> n = s @ newline)"
proof -
  note n = clean_domain_Inr [OF assms]
  define s where "s = clean_name n"
  have shape: "domain_shape s" using clean_name_match n unfolding s_def by blast
  have ns: "n = s \<or> n = s @ newline"
  proof (cases "domain_shape n")
    case True
    then show ?thesis using clean_name_shape(1) by (simp add: s_def)
  next
    case False
    with n have b: "domain_shape (butlast n)" "n = butlast n @ newline"
      by (auto simp: domain_match_def newline_def) (metis append_butlast_last_id)
    then have "s = butlast n" unfolding s_def using clean_name_shape(2) by metis
    with b show ?thesis by metis
  qed
  have http: "\<not> starts_with p s" if "\<not> starts_with p n" for p
    using that ns by (auto simp: starts_with_iff)
  have h: "\<not> starts_with ''http://'' s" "\<not> starts_with ''https://'' s" using http n by blast+
  have at: "CHR ''@'' \<notin> set s"
    using domain_shape_chars(1) [OF shape] by (auto simp: name_char_def ascii_digit_def ord_def)
  have ne: "s \<noteq> []" "n \<noteq> []" using domain_shape_chars(2) [OF shape] ns by auto
  have clean: "clean_domain (JStr x) = Inr s" if "clean_name x = s" "x \<noteq> []" for x
    using that shape h at ne(1)
    by (simp add: clean_domain_def json_or_def json_truthy_def json_text_of_def clean_name_def [symmetric]
        Let_def domain_match_def)
  have "clean_domain (JStr n) = Inr s" by (rule clean [OF s_def [symmetric] ne(2)])
  moreover have "clean_domain (JStr s) = Inr s" by (rule clean [OF clean_name_shape(1) [OF shape] ne(1)])
  ultimately show ?thesis using shape ns by (intro exI [of _ s]) simp
qed

theorem cleaned_domain_is_strict_witness:
  "\<exists>s. clean_domain (JStr ''a.io'') = Inr s \<and> domain_shape s"
proof -
  have "clean_domain (JStr '' A.IO. '') = Inr ''a.io''" by code_simp
  from cleaned_domain_is_strict [OF this] show ?thesis by blast
qed

text \<open>The newline that passes the first cleaning.\<close>

lemma newline_passes: "clean_domain (JStr (''a.io'' @ newline @ ''.'')) = Inr (''a.io'' @ newline)"
  by code_simp

section \<open>What a request can reach\<close>

text \<open>
  The calls a job can lead to: listing, the account's ownership record, the DNS requirements of a
  domain, and the creation of a domain.  Nothing about mailboxes, and nothing that removes.
\<close>

definition allowed_call :: "string \<Rightarrow> string \<Rightarrow> json option \<Rightarrow> bool" where
  "allowed_call verb path body \<longleftrightarrow>
     (verb = ''GET'' \<and> body = None \<and>
        (path \<in> {''/domains'', ''/verification-key''} \<or>
         (\<exists>n. domain_shape n \<and> path \<in> {''/domains/'' @ n @ ''/dns'', ''/domains/'' @ n @ newline @ ''/dns''})))
   \<or> (verb = ''POST'' \<and> path = ''/domains'' \<and>
        (\<exists>n. domain_shape n \<and> body = Some (JObj [(''domain'', JStr n)])))"

text \<open>A property of the provider's state that no allowed call can break.\<close>

definition safe_under :: "'p requester \<Rightarrow> ('p \<Rightarrow> bool) \<Rightarrow> bool" where
  "safe_under rq I = (\<forall>verb path body p. allowed_call verb path body \<longrightarrow> I p \<longrightarrow> I (snd (rq verb path body p)))"

lemma safe_underD:
  "safe_under rq I \<Longrightarrow> allowed_call verb path body \<Longrightarrow> I p \<Longrightarrow> I (snd (rq verb path body p))"
  by (auto simp: safe_under_def)

lemma snd_after_call [simp]: "snd (after_call a f) = snd a"
  by (simp add: after_call_def)

lemma snd_bind_state:
  assumes "I (snd m)" "\<And>x s. m = (Inr x, s) \<Longrightarrow> I (snd (f x s))"
  shows "I (snd (bind_state m f))"
  using assms by (cases m; cases "fst m") auto

lemma snd_bind_state_return [simp]: "snd (bind_state r (\<lambda>x. Pair (g x))) = snd r"
  by (cases r; cases "fst r") auto

lemma snd_on_provider [simp]: "snd (snd (on_provider f w)) = snd (f (snd w))"
  by (simp add: on_provider_def split: prod.split)

lemma safe_get_dns:
  assumes "safe_under rq I" "domain_match n" "I p"
  shows "I (snd (get_dns rq n p))"
proof -
  have "\<exists>s. domain_shape s \<and> (n = s \<or> n = s @ newline)"
    using assms(2) by (auto simp: domain_match_def newline_def) (metis append_butlast_last_id)
  then have "allowed_call ''GET'' (''/domains/'' @ n @ ''/dns'') None"
    by (auto simp: allowed_call_def)
  with assms(1,3) show ?thesis by (simp add: get_dns_def safe_underD)
qed

lemma safe_add_domain:
  assumes "safe_under rq I" "domain_match n" "I (snd w)"
  shows "I (snd (snd (add_domain rq now n w)))"
proof -
  let ?n = "clean_name n"
  have shape: "domain_shape ?n" using assms(2) by (rule clean_name_match)
  have reg: "I (snd (register_domain rq ?n p))" if "I p" for p
  proof -
    have l: "I (snd (list_domains rq p))"
      using assms(1) that by (simp add: list_domains_def safe_underD allowed_call_def)
    have c: "I (snd (create_domain rq ?n q))" if "I q" for q
      using assms(1) that shape by (simp add: create_domain_def safe_underD allowed_call_def)
    show ?thesis
    proof (cases "list_domains rq p")
      case (Pair a q)
      then show ?thesis
        using l c [of q] by (cases a; cases "create_domain rq ?n q")
          (auto simp: register_domain_def split: sum.splits exn.splits)
    qed
  qed
  have cap: "I (snd (capture_records rq ?n row p))" if "I p" for row p
    using safe_get_dns [OF assms(1) _ that, of ?n] shape
    by (cases "get_dns rq ?n p") (auto simp: capture_records_def domain_match_def split: sum.splits)
  have rest: "I (snd (snd (bind_state (on_provider (register_domain rq ?n) w) (\<lambda>_ w1.
      bind_state (on_provider (capture_records rq ?n (new_domain (next_id (fst w1)) now ?n)) w1)
        (\<lambda>row w2. (Inr row, on_db (insert_domain row) w2))))))"
  proof -
    obtain a w1 where 1: "on_provider (register_domain rq ?n) w = (a, w1)"
      by (cases "on_provider (register_domain rq ?n) w")
    have i1: "I (snd w1)" using snd_on_provider [of "register_domain rq ?n" w] reg [OF assms(3)] 1 by simp
    obtain b w2 where 2: "on_provider (capture_records rq ?n (new_domain (next_id (fst w1)) now ?n)) w1 = (b, w2)"
      by (cases "on_provider (capture_records rq ?n (new_domain (next_id (fst w1)) now ?n)) w1")
    have i2: "I (snd w2)"
      using snd_on_provider [of "capture_records rq ?n (new_domain (next_id (fst w1)) now ?n)" w1]
        cap [OF i1] 2 by simp
    show ?thesis using 1 2 i1 i2 by (cases a; cases b) simp_all
  qed
  then show ?thesis
    using assms(3) by (auto simp: add_domain_def Let_def split: sum.splits option.splits)
qed

lemma snd_store_refresh: "snd (snd (store_refresh i n info now rep s w)) = snd w"
proof -
  have e: "snd w' = snd w" if "edits i w w'" for w'
    using that by (auto simp: edits_def)
  obtain r w' where st: "store_refresh i n info now rep s w = (r, w')"
    by (cases "store_refresh i n info now rep s w")
  from st show ?thesis
  proof (cases rule: store_refresh_shape)
    case (raised x)
    with st e [OF raised(2)] show ?thesis by simp
  next
    case (stored w1)
    with st e [OF stored(2)] show ?thesis by simp
  qed
qed

lemma safe_refresh_domain:
  assumes "safe_under rq I" "domain_match n" "I (snd w)"
  shows "I (snd (snd (refresh_domain rq dns now n w)))"
proof -
  obtain a w1 where g: "on_provider (get_dns rq n) w = (a, w1)"
    by (cases "on_provider (get_dns rq n) w")
  have i: "I (snd w1)"
    using snd_on_provider [of "get_dns rq n" w] safe_get_dns [OF assms] g by simp
  show ?thesis
  proof (cases "scalar_one_or_none (filter (\<lambda>r. dm_name r = n) (domains (fst w)))")
    case (Inl e)
    with assms(3) show ?thesis by (simp add: refresh_domain_def)
  next
    case (Inr found)
    show ?thesis
    proof (cases found)
      case None
      with Inr assms(3) show ?thesis by (simp add: refresh_domain_def)
    next
      case (Some row)
      show ?thesis
      proof (cases a)
        case (Inl e)
        with Some \<open>_ = Inr found\<close> g i show ?thesis by (simp add: refresh_domain_def Let_def)
      next
        case info: (Inr info)
        note run = refresh_domain_def Inr Some g info Let_def
        show ?thesis
        proof (cases "verify_domain dns n info")
          case (Inl e)
          with i show ?thesis by (simp add: run)
        next
          case rep: (Inr rep)
          obtain s why where "next_status (dm_status row) rep (0 < mailbox_count (fst w1) (dm_id row)) = (s, why)"
            by (cases "next_status (dm_status row) rep (0 < mailbox_count (fst w1) (dm_id row))")
          with i rep show ?thesis by (simp add: run snd_store_refresh)
        qed
      qed
    qed
  qed
qed

lemma safe_failure_text:
  assumes "safe_under rq I" "I p"
  shows "I (snd (failure_text rq j e p))"
proof -
  have "I (snd (get_verification_record rq p))"
    using assms by (simp add: get_verification_record_def get_verification_key_def safe_underD allowed_call_def)
  then have "I (snd (add_failure_message rq e n p))" for n
    using assms(2) by (cases "get_verification_record rq p")
      (auto simp: add_failure_message_def Let_def split: exn.splits sum.splits)
  note advice = this
  obtain m p1 where "add_failure_message rq e (json_str (payload_domain j (JStr []))) p = (m, p1)"
    by (cases "add_failure_message rq e (json_str (payload_domain j (JStr []))) p")
  with advice [of "json_str (payload_domain j (JStr []))"] assms(2) show ?thesis
    by (simp add: failure_text_def)
qed

text \<open>
  C25 Whatever is in the queue, a job reaches the provider only through the allowed calls: a property
  of the provider's state that those calls preserve, such as which mailboxes exist, survives every
  job.
\<close>

theorem jobs_are_confined:
  assumes "safe_under rq I" "I (snd w)" "run_one rq dns now locked w = (b, w')"
  shows "I (snd w')"
proof -
  have ex: "I (snd (snd (execute rq dns now j v)))" if "I (snd v)" for j v
  proof (cases "clean_domain (payload_domain j (JStr []))")
    case (Inl e)
    with that show ?thesis by (simp add: execute_def)
  next
    case (Inr n)
    then have m: "domain_match n" using clean_domain_Inr by blast
    show ?thesis
      using Inr that safe_add_domain [OF assms(1) m that] safe_refresh_domain [OF assms(1) m that]
      by (auto simp: execute_def split: job_type.splits sum.splits option.splits)
  qed
  have comp: "I (snd (complete rq now j (r, v)))" if "I (snd v)" for j r v
    using that safe_failure_text [OF assms(1) that]
    by (cases r; cases "failure_text rq j (projl r) (snd v)") (auto simp: complete_def split: prod.splits, metis snd_conv)
  obtain k d where c: "claim_one now locked (fst w) = (k, d)" by (cases "claim_one now locked (fst w)")
  show ?thesis
  proof (cases "\<exists>i j. k = Some i \<and> job_of d i = Some j")
    case True
    then obtain i j where "k = Some i" "job_of d i = Some j" by blast
    with c assms(3) have "w' = complete rq now j (execute rq dns now j (d, snd w))"
      by (simp add: run_one_def)
    moreover have "I (snd (complete rq now j (execute rq dns now j (d, snd w))))"
      using comp ex [of "(d, snd w)" j] assms(2) by (metis prod.collapse snd_conv)
    ultimately show ?thesis by simp
  next
    case False
    with c assms(2,3) show ?thesis by (auto simp: run_one_def split: option.splits)
  qed
qed

text \<open>A provider that counts the mailboxes created on it.\<close>

definition ex_mailbox_counter :: "nat requester" where
  "ex_mailbox_counter verb path body n =
     (Inr JNull, (case body of
        Some (JObj kvs) \<Rightarrow> if dict_get kvs ''username'' \<noteq> None then Suc n else n | _ \<Rightarrow> n))"

definition ex_job :: job_row where
  "ex_job = new_job 7 0 Add_Domain [(''domain'', JStr ''b.io'')] ''dashboard''"

definition ex_db_job :: db where
  "ex_db_job = ex_db\<lparr>provisioning_jobs := [ex_job], next_id := 8\<rparr>"

theorem jobs_are_confined_witness:
  "snd (snd (run_one ex_mailbox_counter ex_dns 5 [] (ex_db_job, 1))) = 1"
proof -
  have "safe_under ex_mailbox_counter (\<lambda>n. n = 1)"
    by (auto simp: safe_under_def allowed_call_def ex_mailbox_counter_def dict_get_def)
  from jobs_are_confined [OF this, of "(ex_db_job, 1)" ex_dns 5 "[]"] show ?thesis
    by (cases "run_one ex_mailbox_counter ex_dns 5 [] (ex_db_job, 1)") auto
qed

section \<open>The life of a job\<close>

interpretation job_claims: claim_queue jb_id jb_created_at "\<lambda>now. job_due" "\<lambda>now (w :: unit). mark_running now"
  by unfold_locales (simp_all add: mark_running_def job_due_def)

lemma execute_frame:
  assumes "domains_ok (fst w)" "execute rq dns now j w = (r, w')"
  shows "provisioning_jobs (fst w') = provisioning_jobs (fst w) \<and> domains_ok (fst w') \<and>
    next_id (fst w) \<le> next_id (fst w')"
proof -
  obtain d p where w: "w = (d, p)" by (cases w)
  have ed: "provisioning_jobs (fst v') = provisioning_jobs (fst v) \<and> next_id (fst v') = next_id (fst v)"
    if "edits i v v'" for i and v v' :: "'a world"
    using that by (auto simp: edits_def update_domain_def)
  have add: "provisioning_jobs (fst v) = provisioning_jobs d \<and> domains_ok (fst v) \<and> next_id d \<le> next_id (fst v)"
    if "add_domain rq now n (d, p) = (a, v)" for n a v
  proof -
    obtain d' p' where v: "v = (d', p')" by (cases v)
    note ok = assms(1) [unfolded w fst_conv]
    from ok that [unfolded v] show ?thesis
    proof (cases rule: add_domain_cases)
      case (added row)
      with insert_domain_ok [OF ok, of row] show ?thesis by (simp add: v insert_domain_def)
    qed (use ok v in simp_all)
  qed
  have ref: "provisioning_jobs (fst v) = provisioning_jobs d \<and> domains_ok (fst v) \<and> next_id d \<le> next_id (fst v)"
    if "refresh_domain rq dns now n (d, p) = (a, v)" "domain_named d n = Some row" for n a v row
  proof -
    note ok = assms(1) [unfolded w fst_conv]
    from ok that(2,1) show ?thesis
    proof (cases rule: refresh_domain_cases)
      case (unreachable e)
      with ok show ?thesis by simp
    next
      case (raised e)
      obtain g where "row_edit g" "fst v = update_domain (dm_id row) g d"
        using editsE [OF raised(2)] by metis
      with edited_rows [OF ok that(2)] show ?thesis by (simp add: update_domain_def)
    next
      case (swept info rep s why w1)
      obtain g where g: "row_edit g" "fst w1 = update_domain (dm_id row) g d"
        using editsE [OF swept(4)] by metis
      have "row_edit (\<lambda>r. set_verdict now rep s (g r))"
        using g(1) by (simp add: row_edit_def set_verdict_def)
      moreover have "fst v = update_domain (dm_id row) (\<lambda>r. set_verdict now rep s (g r)) d"
        using swept(5) g by (simp add: update_domain_comp)
      ultimately show ?thesis using edited_rows [OF ok that(2)] by (simp add: update_domain_def)
    qed
  qed
  have same: ?thesis if "w' = w" using that assms(1) by simp
  show ?thesis
  proof (cases "clean_domain (payload_domain j (JStr []))")
    case (Inl e)
    with assms(2) same show ?thesis by (simp add: execute_def)
  next
    case (Inr n)
    show ?thesis
    proof (cases "jb_job_type j")
      case Add_Domain
      obtain a v where "add_domain rq now n (d, p) = (a, v)" by (cases "add_domain rq now n (d, p)")
      with add [OF this] assms(2) Inr Add_Domain show ?thesis
        by (cases a) (auto simp: execute_def w)
    next
      case Verify_Domain
      have sel: "scalar_one_or_none (filter (\<lambda>r. dm_name r = n) (domains d)) = Inr (domain_named d n)"
        using assms(1) scalar_one_or_none_unique by (auto simp: w domains_ok_def domain_named_def)
      show ?thesis
      proof (cases "domain_named d n")
        case None
        with assms(2) Inr Verify_Domain sel same show ?thesis by (simp add: execute_def w)
      next
        case (Some row)
        obtain a v where v: "refresh_domain rq dns now n (d, p) = (a, v)"
          by (cases "refresh_domain rq dns now n (d, p)")
        from ref [OF v Some] v assms(2) Inr Verify_Domain sel Some show ?thesis
          by (cases a) (auto simp: execute_def w)
      qed
    qed
  qed
qed

lemma sort_key_first:
  assumes "sort_key f xs = y # ys"
  shows "y \<in> set xs" and "x \<in> set xs \<Longrightarrow> f y \<le> f x"
proof -
  have "sorted (map f (y # ys))" using sorted_sort_key [of f xs] by (simp only: assms)
  moreover have "set (y # ys) = set xs" using set_sort [of f xs] by (simp only: assms)
  ultimately show "y \<in> set xs" "x \<in> set xs \<Longrightarrow> f y \<le> f x" by auto
qed

lemma claim_one_cases:
  assumes "claim_one now locked d = (k, d1)"
  obtains (none) "k = None" "d1 = d" "\<forall>q \<in> set (provisioning_jobs d). job_due q \<longrightarrow> jb_id q \<in> set locked"
    | (some) j where "k = Some (jb_id j)" "j \<in> set (provisioning_jobs d)" "job_due j" "jb_id j \<notin> set locked"
        "\<forall>q \<in> set (provisioning_jobs d). job_due q \<and> jb_id q \<notin> set locked \<longrightarrow> jb_created_at j \<le> jb_created_at q"
        "d1 = update_job (jb_id j) (mark_running now) d"
proof -
  let ?open = "filter (\<lambda>r. job_due r \<and> jb_id r \<notin> set locked) (provisioning_jobs d)"
  show ?thesis
  proof (cases "sort_key jb_created_at ?open")
    case Nil
    then have "set ?open = {}" by (metis set_sort list.set(1))
    then have "\<forall>q \<in> set (provisioning_jobs d). job_due q \<longrightarrow> jb_id q \<in> set locked" by auto
    moreover have "k = None \<and> d1 = d"
      using assms Nil by (auto simp: claim_one_def pick_ids_def mark_picked_def update_where_none)
    ultimately show ?thesis by (intro none) simp_all
  next
    case (Cons j js)
    note first = sort_key_first [OF Cons]
    have "k = Some (jb_id j) \<and> d1 = update_job (jb_id j) (mark_running now) d"
      using assms Cons by (auto simp: claim_one_def pick_ids_def mark_picked_def update_job_def)
    with first show ?thesis by (intro some [of j]) auto
  qed
qed

lemma run_one_settles:
  assumes "jobs_ok d" "domains_ok d" "run_one rq dns now locked (d, p) = (b, (d', p'))"
  shows "if b then
      (\<exists>j s message. j \<in> set (provisioning_jobs d) \<and> jb_status j = Pending \<and> jb_id j \<notin> set locked \<and>
        (\<forall>q \<in> set (provisioning_jobs d). jb_status q = Pending \<and> jb_id q \<notin> set locked \<longrightarrow>
           jb_created_at j \<le> jb_created_at q) \<and>
        s \<in> {Succeeded, Failed} \<and>
        provisioning_jobs d' = update_where (\<lambda>q. jb_id q = jb_id j)
          (\<lambda>q. finish_job now s message (mark_running now q)) (provisioning_jobs d) \<and>
        domains_ok d' \<and> next_id d \<le> next_id d')
    else d' = d \<and> (\<forall>q \<in> set (provisioning_jobs d). jb_status q = Pending \<longrightarrow> jb_id q \<in> set locked)"
proof -
  obtain k d1 where c: "claim_one now locked d = (k, d1)" by (cases "claim_one now locked d")
  from c show ?thesis
  proof (cases rule: claim_one_cases)
    case none
    with c assms(3) have "\<not> b \<and> d' = d" by (simp add: run_one_def)
    with none(3) show ?thesis by (simp add: job_due_def)
  next
    case (some j)
    have u: "unique_on jb_id (provisioning_jobs d)" using assms(1) by (simp add: jobs_ok_def)
    have ok1: "domains_ok d1" "next_id d1 = next_id d"
      using assms(2) by (simp_all add: some(6) update_job_def domains_ok_def)
    have jobs1: "provisioning_jobs d1 = update_where (\<lambda>q. jb_id q = jb_id j) (mark_running now) (provisioning_jobs d)"
      by (simp add: some(6) update_job_def)
    have "unique_on jb_id (provisioning_jobs d1)"
      using u unfolding jobs1 by (simp add: unique_on_update_where mark_running_def)
    moreover have "mark_running now j \<in> set (provisioning_jobs d1)"
      using some(2) by (auto simp: jobs1 set_update_where)
    ultimately have j1: "job_of d1 (jb_id j) = Some (mark_running now j)"
      using find_unique_on [of jb_id "provisioning_jobs d1" "mark_running now j"]
      by (simp add: job_of_def mark_running_def)
    let ?j1 = "mark_running now j"
    have id1: "jb_id ?j1 = jb_id j" by (simp add: mark_running_def)
    obtain a w2 where ex: "execute rq dns now ?j1 (d1, p) = (a, w2)" by (cases "execute rq dns now ?j1 (d1, p)")
    have run: "(b, (d', p')) = (True, complete rq now ?j1 (a, w2))"
      using c some(1) j1 ex assms(3) by (simp add: run_one_def)
    note fr = execute_frame [of "(d1, p)", unfolded fst_conv, OF ok1(1) ex]
    obtain s message where d': "d' = update_job (jb_id j) (finish_job now s message) (fst w2)" "s \<in> {Succeeded, Failed}"
    proof (cases a)
      case (Inl e)
      obtain m q where "failure_text rq ?j1 e (snd w2) = (m, q)" by (cases "failure_text rq ?j1 e (snd w2)")
      with run Inl have "d' = update_job (jb_id j) (finish_job now Failed m) (fst w2)"
        by (cases w2) (simp add: complete_def id1)
      then show ?thesis by (rule that) simp
    next
      case (Inr m)
      with run have "d' = update_job (jb_id j) (finish_job now Succeeded m) (fst w2)"
        by (simp add: complete_def id1 on_db_def)
      then show ?thesis by (rule that) simp
    qed
    have "provisioning_jobs d' = update_where (\<lambda>q. jb_id q = jb_id j)
        (\<lambda>q. finish_job now s message (mark_running now q)) (provisioning_jobs d)"
      using fr by (simp add: d'(1) update_job_def jobs1)
        (simp add: update_where_def mark_running_def)
    moreover have "domains_ok d'" "next_id d \<le> next_id d'"
      using fr ok1(2) by (simp_all add: d'(1) update_job_def domains_ok_def)
    ultimately show ?thesis
      using run some(2-5) d'(2) by (auto simp: job_due_def)
  qed
qed



text \<open>
  What happens to the queue, one committed transaction at a time: requests, the reaper, one run of
  the queue, and anything at all at the provider.
\<close>

inductive job_step :: "'p world \<Rightarrow> 'p world \<Rightarrow> bool" where
  requested: "enqueue now t payload requested_by d = Inr (j, d') \<Longrightarrow> job_step (d, p) (d', p)"
| reaped: "job_step (d, p) (snd (reap_stale now d), p)"
| worked: "run_one rq dns now locked (d, p) = (b, (d', p')) \<Longrightarrow> job_step (d, p) (d', p')"
| provider: "job_step (d, p) (d, p')"

definition job_topic :: "job_row \<Rightarrow> job_type \<times> json" where
  "job_topic j = (jb_job_type j, payload_domain j JNull)"

definition queue_inv :: "db \<Rightarrow> bool" where
  "queue_inv d = (jobs_ok d \<and> domains_ok d \<and> list_all (\<lambda>j. jb_status j \<noteq> Running) (provisioning_jobs d) \<and>
     unique_on job_topic (filter outstanding (provisioning_jobs d)))"

lemma enqueue_new_topic:
  "job_topic (new_job i now t (dict_put ''domain'' (JStr name) payload) requested_by) = (t, JStr name)"
proof -
  have "map_of (map (\<lambda>(k', v'). (k', if k' = k then v else v')) kvs) k = Some v"
    if "k \<in> fst ` set kvs" for k and v :: json and kvs
    using that by (induction kvs) auto
  moreover have "map_of (kvs @ [(k, v)]) k = Some v" if "k \<notin> fst ` set kvs" for k and v :: json and kvs
    using that by (induction kvs) auto
  ultimately have "dict_get (dict_put k v kvs) k = Some v" for k and v :: json and kvs
    unfolding dict_get_def dict_put_def by (cases "k \<in> fst ` set kvs") simp_all
  then show ?thesis by (simp add: job_topic_def payload_domain_def new_job_def)
qed

lemma queue_inv_step:
  assumes "job_step w w'" "queue_inv (fst w)"
  shows "queue_inv (fst w')"
  using assms(1)
proof (cases rule: job_step.cases)
  case (requested now t payload requested_by d j d' p)
  obtain name where n: "clean_domain (case dict_get payload ''domain'' of None \<Rightarrow> JStr [] | Some v \<Rightarrow> v) = Inr name"
    using requested(3) by (auto simp: enqueue_def result_simps)
  show ?thesis
  proof (cases "find (\<lambda>j. jb_job_type j = t \<and> outstanding j \<and> payload_domain j JNull = JStr name)
      (provisioning_jobs d)")
    case (Some q)
    with requested n assms(2) show ?thesis by (simp add: enqueue_def)
  next
    case None
    let ?j = "new_job (next_id d) now t (dict_put ''domain'' (JStr name) payload) requested_by"
    have d': "d' = d\<lparr>provisioning_jobs := provisioning_jobs d @ [?j], next_id := Suc (next_id d)\<rparr>"
      using requested(3) n None by (auto simp: enqueue_def Let_def)
    have "job_topic ?j \<notin> job_topic ` set (filter outstanding (provisioning_jobs d))"
      using None by (auto simp: enqueue_new_topic find_None_ball) (auto simp: job_topic_def)
    moreover have "jb_id ?j = next_id d" "jb_status ?j = Pending" by (simp_all add: new_job_def)
    ultimately show ?thesis
      using assms(2) ids_below_fresh [of jb_id "next_id d" "provisioning_jobs d"] requested(1,2)
      by (auto simp: queue_inv_def d' jobs_ok_def domains_ok_def unique_on_append ids_below_append
          outstanding_def intro: ids_below_mono)
  qed
next
  case (reaped d p now)
  have "\<not> job_stale now j" if "j \<in> set (provisioning_jobs d)" for j
    using assms(2) reaped(1) that by (auto simp: queue_inv_def list_all_iff job_stale_def)
  then have "update_where (job_stale now) to_pending (provisioning_jobs d) = provisioning_jobs d"
    by (rule update_where_none)
  then show ?thesis using assms(2) reaped by (simp add: reap_stale_def)
next
  case (worked rq dns now locked d p b d' p')
  have ok: "jobs_ok d" "domains_ok d" using assms(2) worked(1) by (simp_all add: queue_inv_def)
  note settled = run_one_settles [OF ok worked(3)]
  show ?thesis
  proof (cases b)
    case False
    with settled assms(2) worked(1,2) show ?thesis by simp
  next
    case True
    with settled obtain j s message where j: "j \<in> set (provisioning_jobs d)" "jb_status j = Pending"
      "s \<in> {Succeeded, Failed}" "domains_ok d'" "next_id d \<le> next_id d'"
      and jobs: "provisioning_jobs d' = update_where (\<lambda>q. jb_id q = jb_id j)
          (\<lambda>q. finish_job now s message (mark_running now q)) (provisioning_jobs d)" by auto
    let ?f = "\<lambda>q. finish_job now s message (mark_running now q)"
    have f: "jb_id (?f q) = jb_id q" "jb_status (?f q) = s" for q
      by (simp_all add: finish_job_def mark_running_def)
    have "jobs_ok d'"
      using ok(1) j(5) by (auto simp: jobs_ok_def jobs unique_on_update_where ids_below_update f intro: ids_below_mono)
    moreover have "list_all (\<lambda>j. jb_status j \<noteq> Running) (provisioning_jobs d')"
      using assms(2) worked(1) j(3) by (auto simp: queue_inv_def list_all_iff jobs set_update_where finish_job_def mark_running_def)
    moreover have "unique_on job_topic (filter outstanding (provisioning_jobs d'))"
    proof -
      have "filter outstanding (update_where (\<lambda>q. jb_id q = jb_id j) ?f t) =
          filter (\<lambda>q. jb_id q \<noteq> jb_id j) (filter outstanding t)" for t
        using j(3) by (induction t) (auto simp: outstanding_def finish_job_def)
      then have "filter outstanding (provisioning_jobs d') =
          filter (\<lambda>q. jb_id q \<noteq> jb_id j) (filter outstanding (provisioning_jobs d))"
        unfolding jobs .
      moreover have "unique_on job_topic (filter P t)" if "unique_on job_topic t" for P t
        using that by (simp add: unique_on_def distinct_map inj_on_def)
      ultimately show ?thesis using assms(2) worked(1) by (simp add: queue_inv_def del: filter_filter)
    qed
    ultimately show ?thesis using j(4) worked(2) by (simp add: queue_inv_def)
  qed
next
  case (provider d p p')
  with assms(2) show ?thesis by simp
qed



text \<open>Hence the reaper finds nothing to do: what it would return to the queue never left it.\<close>

lemma reaper_is_idle:
  assumes "queue_inv d"
  shows "reap_stale now d = (0, d)"
proof -
  have none: "\<not> job_stale now j" if "j \<in> set (provisioning_jobs d)" for j
    using assms that by (auto simp: queue_inv_def list_all_iff job_stale_def)
  then have "update_where (job_stale now) to_pending (provisioning_jobs d) = provisioning_jobs d"
    by (rule update_where_none)
  moreover have "count_where (job_stale now) (provisioning_jobs d) = 0"
    using none by (auto simp: count_where_def filter_empty_conv)
  ultimately show ?thesis by (simp add: reap_stale_def)
qed

end
