(* ===== verification/Secretstore.thy ===== *)
theory Secretstore
  imports Errors
begin

text \<open>
  Secrets that create themselves on first boot (emaild/secretstore.py).  \<open>read_or_create\<close> is a
  sequence of disk operations, and several containers run it at once on one volume, so a process
  is a small state machine whose step is one disk operation and a run interleaves the steps of any
  number of processes, each of which may also be killed.  The value the factory would draw and the
  error of a failing operation are inputs.
\<close>

section \<open>The disk and the processes\<close>

datatype secret_file = Absent | Contents string

datatype process =
    Starting string
  | Preparing string
  | Creating string
  | Writing string
  | Losing
  | Returned string
  | Raised exn
  | Killed

definition msg_no_directory :: "string \<Rightarrow> string \<Rightarrow> string" where
  "msg_no_directory directory e = ''cannot create the secrets directory '' @ directory @ '': '' @ e @
     ''. Is the volume mounted, and writable by uid 10001?''"

definition msg_empty_secret :: "string \<Rightarrow> string" where
  "msg_empty_secret path = path @ '' exists but is empty. Refusing to generate a replacement, '' @
     ''because the original may still be needed to decrypt stored data. '' @
     ''Restore it from your backup, or remove the file deliberately to '' @
     ''start over.''"

text \<open>\<open>_read_if_present\<close>; the warning about the disk's mode is only logged.\<close>

definition read_if_present :: "string \<Rightarrow> string option \<Rightarrow> secret_file \<Rightarrow> string option result" where
  "read_if_present path fault disk =
     (case disk of
        Absent \<Rightarrow> Inr None
      | Contents raw \<Rightarrow>
          (case fault of
             Some e \<Rightarrow> Inl (Secret_Store_Error (''cannot read '' @ path @ '': '' @ e))
           | None \<Rightarrow>
               let stored = py_strip raw in
               if stored = [] then Inl (Secret_Store_Error (msg_empty_secret path))
               else Inr (Some stored)))"

definition secret_path :: "string \<Rightarrow> string \<Rightarrow> string" where
  "secret_path directory name = directory @ ''/'' @ name"

text \<open>One file operation of \<open>read_or_create\<close>.\<close>

fun process_step ::
    "string \<Rightarrow> string \<Rightarrow> string option \<Rightarrow> process \<Rightarrow> secret_file \<Rightarrow> process \<times> secret_file" where
  "process_step directory name fault (Starting v) disk =
     ((case read_if_present (secret_path directory name) fault disk of
         Inl e \<Rightarrow> Raised e | Inr (Some stored) \<Rightarrow> Returned stored | Inr None \<Rightarrow> Preparing v), disk)"
| "process_step directory name fault (Preparing v) disk =
     ((case fault of
         Some e \<Rightarrow> Raised (Secret_Store_Error (msg_no_directory directory e))
       | None \<Rightarrow> Creating v), disk)"
| "process_step directory name fault (Creating v) disk =
     (case fault of
        Some e \<Rightarrow> (Raised (Secret_Store_Error
                     (''cannot create '' @ secret_path directory name @ '': '' @ e)), disk)
      | None \<Rightarrow> (case disk of
                   Absent \<Rightarrow> (Writing v, Contents [])
                 | Contents _ \<Rightarrow> (Losing, disk)))"
| "process_step directory name fault (Writing v) disk =
     (case fault of Some e \<Rightarrow> (Raised (OS_Error e), disk) | None \<Rightarrow> (Returned v, Contents v))"
| "process_step directory name fault Losing disk =
     ((case read_if_present (secret_path directory name) fault disk of
         Inl e \<Rightarrow> Raised e
       | Inr (Some stored) \<Rightarrow> Returned stored
       | Inr None \<Rightarrow> Raised (Secret_Store_Error
           (secret_path directory name @ '' appeared but could not be read''))), disk)"
| "process_step directory name fault p disk = (p, disk)"

text \<open>
  A process on its own: four operations are enough (\<open>read_or_create_ends\<close>), and \<open>faults\<close> gives the
  error of each, if any.
\<close>

fun run_process ::
    "string \<Rightarrow> string \<Rightarrow> string option list \<Rightarrow> process \<Rightarrow> secret_file \<Rightarrow> process \<times> secret_file" where
  "run_process directory name [] p disk = (p, disk)"
| "run_process directory name (f # fs) p disk =
     (case process_step directory name f p disk of
        (p', disk') \<Rightarrow> run_process directory name fs p' disk')"

definition read_or_create ::
    "string \<Rightarrow> string \<Rightarrow> string \<Rightarrow> (nat \<Rightarrow> string option) \<Rightarrow> secret_file \<Rightarrow> string result \<times> secret_file" where
  "read_or_create directory name drawn faults disk =
     (case run_process directory name (map faults [0..<4]) (Starting drawn) disk of
        (Returned s, disk') \<Rightarrow> (Inr s, disk')
      | (Raised e, disk') \<Rightarrow> (Inl e, disk')
      | (_, disk') \<Rightarrow> (Inl (Runtime_Error ''unreachable''), disk'))"

section \<open>Interleaved processes\<close>

text \<open>What a factory draws: not empty, and without white space at its ends.\<close>

definition proper :: "string \<Rightarrow> bool" where
  "proper v = (v \<noteq> [] \<and> py_strip v = v)"

record secret_system =
  ss_file :: secret_file
  ss_processes :: "process list"

inductive secret_step :: "string \<Rightarrow> string \<Rightarrow> secret_system \<Rightarrow> secret_system \<Rightarrow> bool"
  for directory name where
  operation: "i < length ps \<Longrightarrow> process_step directory name fault (ps ! i) disk = (p, disk') \<Longrightarrow>
     secret_step directory name \<lparr>ss_file = disk, ss_processes = ps\<rparr>
       \<lparr>ss_file = disk', ss_processes = ps[i := p]\<rparr>"
| kill: "i < length ps \<Longrightarrow>
     secret_step directory name \<lparr>ss_file = disk, ss_processes = ps\<rparr>
       \<lparr>ss_file = disk, ss_processes = ps[i := Killed]\<rparr>"
| boot: "proper v \<Longrightarrow> secret_step directory name \<lparr>ss_file = disk, ss_processes = ps\<rparr>
       \<lparr>ss_file = disk, ss_processes = ps @ [Starting v]\<rparr>"

inductive_cases secret_stepE: "secret_step directory name s s'"


section \<open>All processes agree\<close>

definition stored :: "secret_file \<Rightarrow> string option" where
  "stored disk = (case disk of
       Absent \<Rightarrow> None
     | Contents raw \<Rightarrow> if py_strip raw = [] then None else Some (py_strip raw))"

definition process_ok :: "secret_file \<Rightarrow> process \<Rightarrow> bool" where
  "process_ok disk p = (case p of
       Starting v \<Rightarrow> proper v
     | Preparing v \<Rightarrow> proper v
     | Creating v \<Rightarrow> proper v
     | Writing v \<Rightarrow> proper v \<and> disk = Contents []
     | Returned v \<Rightarrow> stored disk = Some v
     | _ \<Rightarrow> True)"

definition is_writing :: "process \<Rightarrow> bool" where
  "is_writing p = (case p of Writing v \<Rightarrow> True | _ \<Rightarrow> False)"

text \<open>Every process is consistent with the file, and at most one is about to write.\<close>

definition secret_ok :: "secret_system \<Rightarrow> bool" where
  "secret_ok s = ((\<forall>i < length (ss_processes s). process_ok (ss_file s) (ss_processes s ! i)) \<and>
     (\<forall>i < length (ss_processes s). \<forall>j < length (ss_processes s).
        is_writing (ss_processes s ! i) \<longrightarrow> is_writing (ss_processes s ! j) \<longrightarrow> i = j))"

lemma stored_simps [simp]:
  "stored Absent = None"
  "stored (Contents []) = None"
  "proper v \<Longrightarrow> stored (Contents v) = Some v"
  by (simp_all add: stored_def proper_def py_strip_def py_lstrip_def py_rstrip_def)

lemma read_if_present_Inr:
  "read_if_present path fault disk = Inr r \<Longrightarrow> r = stored disk"
  by (auto simp: read_if_present_def stored_def Let_def split: secret_file.splits option.splits if_splits)

lemma process_ok_simps [simp]:
  "process_ok disk (Starting v) = proper v"
  "process_ok disk (Preparing v) = proper v"
  "process_ok disk (Creating v) = proper v"
  "process_ok disk (Writing v) = (proper v \<and> disk = Contents [])"
  "process_ok disk (Returned v) = (stored disk = Some v)"
  "process_ok disk Losing" "process_ok disk (Raised e)" "process_ok disk Killed"
  by (simp_all add: process_ok_def)

lemma is_writing_simps [simp]:
  "is_writing (Writing v)" "\<not> is_writing (Starting v)" "\<not> is_writing (Preparing v)"
  "\<not> is_writing (Creating v)" "\<not> is_writing Losing" "\<not> is_writing (Returned v)"
  "\<not> is_writing (Raised e)" "\<not> is_writing Killed"
  by (simp_all add: is_writing_def)

text \<open>What one operation does to the file.\<close>

lemma process_step_cases:
  assumes "process_step directory name fault p disk = (p', disk')" "process_ok disk p"
  obtains "disk' = disk" "\<not> is_writing p' \<or> is_writing p" "process_ok disk' p'"
  | v where "p = Creating v" "p' = Writing v" "disk = Absent" "disk' = Contents []" "proper v"
  | v where "p = Writing v" "p' = Returned v" "disk = Contents []" "disk' = Contents v" "proper v"
proof -
  have "disk' = disk \<and> (\<not> is_writing p' \<or> is_writing p) \<and> process_ok disk' p' \<or>
    (\<exists>v. p = Creating v \<and> p' = Writing v \<and> disk = Absent \<and> disk' = Contents [] \<and> proper v) \<or>
    (\<exists>v. p = Writing v \<and> p' = Returned v \<and> disk = Contents [] \<and> disk' = Contents v \<and> proper v)"
    using assms by (cases p)
      (auto split: option.splits sum.splits secret_file.splits dest: read_if_present_Inr)
  then show thesis using that by blast
qed

lemma secret_ok_operation:
  assumes "process_step directory name fault (ps ! i) disk = (p, disk')" "i < length ps"
    and "secret_ok \<lparr>ss_file = disk, ss_processes = ps\<rparr>"
  shows "secret_ok \<lparr>ss_file = disk', ss_processes = ps[i := p]\<rparr> \<and>
    (\<forall>v. stored disk = Some v \<longrightarrow> disk' = disk)"
proof -
  from assms(2,3) have consistent: "\<And>j. j < length ps \<Longrightarrow> process_ok disk (ps ! j)"
    and single: "\<And>j k. j < length ps \<Longrightarrow> k < length ps \<Longrightarrow> is_writing (ps ! j) \<Longrightarrow>
      is_writing (ps ! k) \<Longrightarrow> j = k"
    by (simp_all add: secret_ok_def)
  from assms(1) consistent [OF assms(2)] show ?thesis
  proof (cases rule: process_step_cases)
    case 1
    with consistent single assms(2) show ?thesis
      by (auto simp: secret_ok_def nth_list_update)
  next
    case (2 v)
    have "\<not> is_writing (ps ! j)" if "j < length ps" for j
      using consistent [OF that] 2(3) by (cases "ps ! j") auto
    moreover have "process_ok (Contents []) (ps ! j)" if "j < length ps" for j
      using consistent [OF that] 2(3) by (cases "ps ! j") auto
    ultimately show ?thesis using 2 assms(2) by (auto simp: secret_ok_def nth_list_update)
  next
    case (3 v)
    have others: "\<not> is_writing (ps ! j)" if "j < length ps" "j \<noteq> i" for j
      using single [OF that(1) assms(2)] that(2) 3(1) by auto
    moreover have "process_ok (Contents v) (ps ! j)" if "j < length ps" "j \<noteq> i" for j
      using consistent [OF that(1)] others [OF that] 3(3) by (cases "ps ! j") auto
    ultimately show ?thesis using 3 assms(2) by (auto simp: secret_ok_def nth_list_update)
  qed
qed

lemma secret_ok_step:
  assumes "secret_step directory name s s'" "secret_ok s"
  shows "secret_ok s' \<and> (\<forall>v. stored (ss_file s) = Some v \<longrightarrow> ss_file s' = ss_file s)"
  using assms
proof (cases rule: secret_step.cases)
  case (operation i ps fault disk p disk')
  then show ?thesis using secret_ok_operation assms(2) by simp
next
  case (kill i ps disk)
  then show ?thesis using assms(2) by (auto simp: secret_ok_def nth_list_update)
next
  case (boot v ps disk)
  then show ?thesis using assms(2) by (auto simp: secret_ok_def nth_append less_Suc_eq)
qed

lemma secret_ok_steps:
  assumes "(secret_step directory name)\<^sup>*\<^sup>* s s'" "secret_ok s"
  shows "secret_ok s' \<and> (\<forall>v. stored (ss_file s) = Some v \<longrightarrow> ss_file s' = ss_file s)"
  using assms(1)
proof (induction rule: rtranclp_induct)
  case base
  with assms(2) show ?case by simp
next
  case (step s' s'')
  then show ?case using secret_ok_step by fastforce
qed

lemma returned_is_stored:
  "secret_ok s \<Longrightarrow> Returned v \<in> set (ss_processes s) \<Longrightarrow> stored (ss_file s) = Some v"
  by (auto simp: secret_ok_def in_set_conv_nth)

text \<open>
  C9 A secret is created once and never replaced: whatever number of processes boot at once on one
  volume, and however their operations interleave, fail or are killed, every process that returns a
  value returns the same one, it is the one in the file, and from then on the file never changes;
  a value that was there before is the one they return.
\<close>

theorem secret_is_agreed:
  assumes "(secret_step directory name)\<^sup>*\<^sup>* \<lparr>ss_file = file, ss_processes = []\<rparr> s"
    and "(secret_step directory name)\<^sup>*\<^sup>* s s'" "Returned v \<in> set (ss_processes s)"
  shows "stored (ss_file s) = Some v \<and> ss_file s' = ss_file s \<and>
    (\<forall>w. Returned w \<in> set (ss_processes s') \<longrightarrow> w = v) \<and>
    (\<forall>w. stored file = Some w \<longrightarrow> w = v \<and> ss_file s = file)"
proof -
  have s: "secret_ok s \<and> (\<forall>w. stored file = Some w \<longrightarrow> ss_file s = file)"
    using secret_ok_steps [OF assms(1)] by (simp add: secret_ok_def)
  moreover have v: "stored (ss_file s) = Some v"
    using s assms(3) returned_is_stored by blast
  moreover have "secret_ok s' \<and> ss_file s' = ss_file s"
    using secret_ok_steps [OF assms(2)] s v by blast
  ultimately show ?thesis using returned_is_stored by fastforce
qed

definition ex_race :: "secret_system list" where
  "ex_race =
     [\<lparr>ss_file = Absent, ss_processes = []\<rparr>,
      \<lparr>ss_file = Absent, ss_processes = [Starting ''k1'']\<rparr>,
      \<lparr>ss_file = Absent, ss_processes = [Starting ''k1'', Starting ''k2'']\<rparr>,
      \<lparr>ss_file = Absent, ss_processes = [Preparing ''k1'', Starting ''k2'']\<rparr>,
      \<lparr>ss_file = Absent, ss_processes = [Preparing ''k1'', Preparing ''k2'']\<rparr>,
      \<lparr>ss_file = Absent, ss_processes = [Creating ''k1'', Preparing ''k2'']\<rparr>,
      \<lparr>ss_file = Absent, ss_processes = [Creating ''k1'', Creating ''k2'']\<rparr>,
      \<lparr>ss_file = Contents [], ss_processes = [Writing ''k1'', Creating ''k2'']\<rparr>,
      \<lparr>ss_file = Contents [], ss_processes = [Writing ''k1'', Losing]\<rparr>,
      \<lparr>ss_file = Contents ''k1'', ss_processes = [Returned ''k1'', Losing]\<rparr>,
      \<lparr>ss_file = Contents ''k1'', ss_processes = [Returned ''k1'', Returned ''k1'']\<rparr>]"

lemma successively_rtranclp: "successively R (x # xs) \<Longrightarrow> R\<^sup>*\<^sup>* x (last (x # xs))"
  by (induction xs arbitrary: x) (auto intro: converse_rtranclp_into_rtranclp)

lemma ex_race_steps: "successively (secret_step ''/run/secrets'' ''mailbox_encryption_key'') ex_race"
proof -
  let ?R = "secret_step ''/run/secrets'' ''mailbox_encryption_key''"
  have op: "?R \<lparr>ss_file = f, ss_processes = ps\<rparr> \<lparr>ss_file = f', ss_processes = qs\<rparr>"
    if "i < length ps" "process_step ''/run/secrets'' ''mailbox_encryption_key'' None (ps ! i) f = (p, f')"
      "qs = ps[i := p]" for i ps f p f' qs
    using that secret_step.operation by simp
  have boot: "?R \<lparr>ss_file = Absent, ss_processes = ps\<rparr> \<lparr>ss_file = Absent, ss_processes = ps @ [Starting v]\<rparr>"
    if "v = ''k1'' \<or> v = ''k2''" for ps v
  proof (rule secret_step.boot)
    have "proper ''k1'' \<and> proper ''k2''" by code_simp
    with that show "proper v" by auto
  qed
  have "?R \<lparr>ss_file = Absent, ss_processes = []\<rparr> \<lparr>ss_file = Absent, ss_processes = [Starting ''k1'']\<rparr>"
    "?R \<lparr>ss_file = Absent, ss_processes = [Starting ''k1'']\<rparr>
       \<lparr>ss_file = Absent, ss_processes = [Starting ''k1'', Starting ''k2'']\<rparr>"
    using boot [of "''k1''" "[]"] boot [of "''k2''" "[Starting ''k1'']"] by simp_all
  moreover have "?R \<lparr>ss_file = Contents ''k1'', ss_processes = [Returned ''k1'', Losing]\<rparr>
     \<lparr>ss_file = Contents ''k1'', ss_processes = [Returned ''k1'', Returned ''k1'']\<rparr>"
    by (rule op [of 1]) code_simp+
  ultimately show ?thesis
    unfolding ex_race_def
    by (simp add: op [of 0] op [of 1] read_if_present_def)
qed

lemma ex_race_run:
  "(secret_step ''/run/secrets'' ''mailbox_encryption_key'')\<^sup>*\<^sup>*
     \<lparr>ss_file = Absent, ss_processes = []\<rparr>
     \<lparr>ss_file = Contents ''k1'', ss_processes = [Returned ''k1'', Returned ''k1'']\<rparr>"
  using successively_rtranclp [OF ex_race_steps [unfolded ex_race_def]]
  by (simp only: last.simps list.distinct if_False if_True simp_thms)

lemma ex_race_returned:
  "Returned ''k1'' \<in> set (ss_processes \<lparr>ss_file = Contents ''k1'',
     ss_processes = [Returned ''k1'', Returned ''k1'']\<rparr>)"
  by simp

theorem secret_is_agreed_witness:
  "stored (ss_file \<lparr>ss_file = Contents ''k1'', ss_processes = [Returned ''k1'', Returned ''k1'']\<rparr>)
     = Some ''k1''"
  by (rule secret_is_agreed [OF ex_race_run rtranclp.rtrancl_refl ex_race_returned, THEN conjunct1])

section \<open>A process ends\<close>

text \<open>Every operation brings a process nearer its end, which is at most four operations away.\<close>

fun operations_left :: "process \<Rightarrow> nat" where
  "operations_left (Starting v) = 4"
| "operations_left (Preparing v) = 3"
| "operations_left (Creating v) = 2"
| "operations_left (Writing v) = 1"
| "operations_left Losing = 1"
| "operations_left p = 0"

lemma process_step_nearer:
  "operations_left (fst (process_step directory name fault p disk)) \<le> operations_left p - 1"
  by (cases p) (auto split: option.splits sum.splits secret_file.splits)

lemma run_process_nearer:
  "operations_left (fst (run_process directory name fs p disk)) \<le> operations_left p - length fs"
proof (induction fs arbitrary: p disk)
  case Nil
  then show ?case by simp
next
  case (Cons f fs)
  obtain q disk' where step: "process_step directory name f p disk = (q, disk')"
    by (cases "process_step directory name f p disk")
  with process_step_nearer [of directory name f p disk] Cons [of q disk'] show ?case by simp
qed

text \<open>
  \<open>read_or_create\<close> of one process: an existing secret is returned and kept; with no failing
  operation an absent one is created; an empty file is refused.
\<close>

lemma read_or_create_existing:
  assumes "stored disk = Some v" "faults 0 = None"
  shows "read_or_create directory name drawn faults disk = (Inr v, disk)"
  using assms by (auto simp: read_or_create_def stored_def read_if_present_def upt_rec
      split: secret_file.splits if_splits)

lemma read_or_create_absent:
  assumes "\<And>i. faults i = None"
  shows "read_or_create directory name drawn faults Absent = (Inr drawn, Contents drawn)"
  using assms by (simp add: read_or_create_def read_if_present_def upt_rec)

lemma read_or_create_refuses:
  assumes "stored disk = None" "disk \<noteq> Absent"
  shows "\<exists>e. read_or_create directory name drawn faults disk = (Inl e, disk)"
  using assms by (auto simp: read_or_create_def stored_def read_if_present_def upt_rec
      split: secret_file.splits if_splits option.splits)

text \<open>The value it returns is the one it leaves stored.\<close>

lemma run_process_ok:
  assumes "process_ok disk p" "run_process directory name fs p disk = (p', disk')"
  shows "process_ok disk' p'"
  using assms
proof (induction fs arbitrary: p disk)
  case Nil
  then show ?case by simp
next
  case (Cons f fs)
  obtain q e where step: "process_step directory name f p disk = (q, e)"
    by (cases "process_step directory name f p disk")
  then have "process_ok e q"
    using Cons.prems(1) by (cases rule: process_step_cases) auto
  with Cons step show ?case by simp
qed

lemma read_or_create_stored:
  assumes "read_or_create directory name drawn faults disk = (Inr v, disk')" "proper drawn"
  shows "stored disk' = Some v"
proof -
  obtain p d where run: "run_process directory name (map faults [0..<4]) (Starting drawn) disk = (p, d)"
    by (cases "run_process directory name (map faults [0..<4]) (Starting drawn) disk")
  with assms have "p = Returned v" "d = disk'"
    unfolding read_or_create_def by (auto simp del: upt_rec_numeral split: process.splits)
  with run_process_ok [OF _ run] assms(2) show ?thesis by simp
qed

text \<open>
  The loser of the race does not always read the winner's value: between the creation and the
  write the file is empty, and a process that looks at it then raises.
\<close>

lemma loser_may_raise:
  "secret_step directory name
     \<lparr>ss_file = Contents [], ss_processes = [Writing ''k1'', Losing]\<rparr>
     \<lparr>ss_file = Contents [], ss_processes = [Writing ''k1'',
        Raised (Secret_Store_Error (msg_empty_secret (secret_path directory name)))]\<rparr>"
proof -
  have "process_step directory name None Losing (Contents []) =
      (Raised (Secret_Store_Error (msg_empty_secret (secret_path directory name))), Contents [])"
    by (simp add: read_if_present_def py_strip_def py_lstrip_def py_rstrip_def)
  then show ?thesis
    using secret_step.operation [of 1 "[Writing ''k1'', Losing]" directory name None "Contents []"]
    by (simp del: process_step.simps)
qed

end
