(* ===== verification/Config.thy ===== *)
theory Config
  imports Secretstore "HOL-Library.Word"
begin

text \<open>
  Configuration (emaild/config.py): the settings of a process, the secrets that its volume fills
  in, and the rule which secrets a role may hold.  The values are taken after their conversion to
  the declared types (pydantic's part); the random bytes of a generated secret, the volume and the
  errors of its file operations are inputs.
\<close>

section \<open>Settings\<close>

datatype role = Role_Api | Role_Worker | Role_Admin

datatype environment = Development | Production

fun role_value :: "role \<Rightarrow> string" where
  "role_value Role_Api = ''api''"
| "role_value Role_Worker = ''worker''"
| "role_value Role_Admin = ''admin''"

fun environment_value :: "environment \<Rightarrow> string" where
  "environment_value Development = ''development''"
| "environment_value Production = ''production''"

text \<open>Which file is read; the argument is the variable \<open>EMAILD_ENV_FILE\<close>.\<close>

definition env_file_for_process :: "string option \<Rightarrow> string option" where
  "env_file_for_process override = (case override of
       None \<Rightarrow> Some ''.env''
     | Some s \<Rightarrow> if py_lower (py_strip s) \<in> {[], ''none'', ''0'', ''false''} then None else Some s)"

record settings =
  st_role :: role
  st_env :: environment
  st_database_url :: string
  st_log_level :: string
  st_mailbox_encryption_key :: "string option"
  st_mxroute_server :: "string option"
  st_mxroute_username :: "string option"
  st_mxroute_api_key :: "string option"
  st_smtp_port :: int
  st_smtp_timeout_seconds :: int
  st_fallback_max_message_bytes :: int
  st_fallback_max_recipients :: int
  st_fallback_max_messages_per_connection :: int
  st_hourly_limit :: int
  st_rate_limit_safety_margin :: rat
  st_body_retention_hours :: int
  st_idempotency_ttl_hours :: int
  st_secrets_dir :: "string option"
  st_trusted_proxy_hosts :: string
  st_dashboard_enabled :: bool
  st_dashboard_token :: "string option"
  st_dashboard_behind_proxy_auth :: bool

text \<open>The defaults; \<open>database_url\<close> has none.\<close>

definition default_settings :: "string \<Rightarrow> settings" where
  "default_settings database_url =
     \<lparr>st_role = Role_Api, st_env = Development, st_database_url = database_url,
      st_log_level = ''INFO'', st_mailbox_encryption_key = None, st_mxroute_server = None,
      st_mxroute_username = None, st_mxroute_api_key = None, st_smtp_port = 465,
      st_smtp_timeout_seconds = 30, st_fallback_max_message_bytes = 52428800,
      st_fallback_max_recipients = 150, st_fallback_max_messages_per_connection = 100,
      st_hourly_limit = 400, st_rate_limit_safety_margin = 9 / 10, st_body_retention_hours = 72,
      st_idempotency_ttl_hours = 24, st_secrets_dir = None, st_trusted_proxy_hosts = [],
      st_dashboard_enabled = True, st_dashboard_token = None,
      st_dashboard_behind_proxy_auth = False\<rparr>"

definition effective_hourly_limit :: "settings \<Rightarrow> int" where
  "effective_hourly_limit s =
     max 1 (py_trunc (of_int (st_hourly_limit s) * st_rate_limit_safety_margin s))"

definition trusted_proxies :: "settings \<Rightarrow> string list" where
  "trusted_proxies s =
     map py_strip (filter (\<lambda>h. py_strip h \<noteq> []) (split_char (CHR '','') (st_trusted_proxy_hosts s)))"

section \<open>Field validators\<close>

definition msg_margin :: string where
  "msg_margin = ''rate_limit_safety_margin must leave headroom (<= 0.95); '' @
     ''over-limit sends are permanently rejected, not deferred''"

text \<open>The bounds declared on the field, and the validator, which repeats the upper one.\<close>

definition margin_leaves_headroom :: "rat \<Rightarrow> rat result" where
  "margin_leaves_headroom v = (if 95 / 100 < v then Inl (Value_Error msg_margin) else Inr v)"

definition margin_field :: "rat \<Rightarrow> rat result" where
  "margin_field v =
     (if \<not> 0 < v then Inl (Value_Error ''Input should be greater than 0'')
      else if \<not> v \<le> 95 / 100 then Inl (Value_Error ''Input should be less than or equal to 0.95'')
      else margin_leaves_headroom v)"

definition msg_not_fernet :: string where
  "msg_not_fernet = ''mailbox_encryption_key must be a 44-character urlsafe-base64 Fernet key; '' @
     ''generate with: python -c '' @ [CHR 34] @ ''from cryptography.fernet import Fernet; '' @
     ''print(Fernet.generate_key().decode())'' @ [CHR 34]"

definition key_looks_like_fernet :: "string option \<Rightarrow> string option result" where
  "key_looks_like_fernet v = (case v of
       None \<Rightarrow> Inr None
     | Some k \<Rightarrow> if k = [] then Inr None
                 else if length k \<noteq> 44 then Inl (Value_Error msg_not_fernet) else Inr (Some k))"

text \<open>
  The fields in the order of their declaration.  pydantic collects the errors of all fields in one
  exception; the model carries the first.
\<close>

definition validate_fields :: "settings \<Rightarrow> settings result" where
  "validate_fields s =
     bind_result (key_looks_like_fernet (st_mailbox_encryption_key s)) (\<lambda>key.
     bind_result (margin_field (st_rate_limit_safety_margin s)) (\<lambda>margin.
       Inr (s\<lparr>st_mailbox_encryption_key := key, st_rate_limit_safety_margin := margin\<rparr>)))"

section \<open>Generated secrets\<close>

text \<open>\<open>base64.urlsafe_b64encode\<close>, and \<open>secrets.token_urlsafe\<close>, which drops the padding.\<close>

definition b64_alphabet :: string where
  "b64_alphabet = ''ABCDEFGHIJKLMNOPQRSTUVWXYZabcdefghijklmnopqrstuvwxyz0123456789-_''"

definition b64_char :: "nat \<Rightarrow> char" where
  "b64_char n = b64_alphabet ! (n mod 64)"

fun urlsafe_b64encode :: "8 word list \<Rightarrow> string" where
  "urlsafe_b64encode [] = []"
| "urlsafe_b64encode [a] =
     [b64_char (unat a div 4), b64_char (unat a mod 4 * 16), CHR ''='', CHR ''='']"
| "urlsafe_b64encode [a, b] =
     [b64_char (unat a div 4), b64_char (unat a mod 4 * 16 + unat b div 16),
      b64_char (unat b mod 16 * 4), CHR ''='']"
| "urlsafe_b64encode (a # b # c # bs) =
     [b64_char (unat a div 4), b64_char (unat a mod 4 * 16 + unat b div 16),
      b64_char (unat b mod 16 * 4 + unat c div 64), b64_char (unat c mod 64)] @
     urlsafe_b64encode bs"

definition new_fernet_key :: "8 word list \<Rightarrow> string" where
  "new_fernet_key drawn = urlsafe_b64encode (take 32 drawn)"

definition new_dashboard_token :: "8 word list \<Rightarrow> string" where
  "new_dashboard_token drawn = rstrip_chars [CHR ''=''] (urlsafe_b64encode (take 24 drawn))"

section \<open>Secrets from the volume\<close>

type_synonym volume = "string \<Rightarrow> secret_file"

definition from_volume ::
    "string \<Rightarrow> string \<Rightarrow> string \<Rightarrow> (nat \<Rightarrow> string option) \<Rightarrow> volume \<Rightarrow> string result \<times> volume" where
  "from_volume directory name drawn faults vol =
     (case read_or_create directory name drawn faults (vol name) of
        (r, disk) \<Rightarrow> (r, vol(name := disk)))"

definition key_file :: string where "key_file = ''mailbox_encryption_key''"
definition token_file :: string where "token_file = ''dashboard_token''"

definition msg_stored_key :: "string \<Rightarrow> nat \<Rightarrow> string" where
  "msg_stored_key directory n = ''the stored mailbox encryption key in '' @ directory @ '' is '' @
     str_of_nat n @ '' characters, not 44. It is corrupt or truncated; '' @
     ''restore it from backup rather than letting a new one be made.''"

text \<open>The two secrets a role may lack: the mailbox key and the dashboard password.\<close>

definition fill_mailbox_key ::
    "8 word list \<Rightarrow> (nat \<Rightarrow> string option) \<Rightarrow> settings \<Rightarrow> volume \<Rightarrow> settings result \<times> volume" where
  "fill_mailbox_key drawn faults s vol =
     (if st_role s \<in> {Role_Worker, Role_Admin} \<and> \<not> truthy_str (st_mailbox_encryption_key s)
      then let directory = or_empty (st_secrets_dir s) in
        bind_state (from_volume directory key_file (new_fernet_key drawn) faults vol) (\<lambda>key vol.
          (if length key \<noteq> 44 then Inl (Value_Error (msg_stored_key directory (length key)))
           else Inr (s\<lparr>st_mailbox_encryption_key := Some key\<rparr>), vol))
      else (Inr s, vol))"

definition fill_dashboard_token ::
    "8 word list \<Rightarrow> (nat \<Rightarrow> string option) \<Rightarrow> settings \<Rightarrow> volume \<Rightarrow> settings result \<times> volume" where
  "fill_dashboard_token drawn faults s vol =
     (if st_role s = Role_Api \<and> st_dashboard_enabled s \<and> \<not> truthy_str (st_dashboard_token s)
      then bind_state (from_volume (or_empty (st_secrets_dir s)) token_file (new_dashboard_token drawn)
             faults vol) (\<lambda>token vol. (Inr (s\<lparr>st_dashboard_token := Some token\<rparr>), vol))
      else (Inr s, vol))"

definition bootstrap_secrets_from_volume ::
    "8 word list \<Rightarrow> (nat \<Rightarrow> string option) \<Rightarrow> settings \<Rightarrow> volume \<Rightarrow> settings result \<times> volume" where
  "bootstrap_secrets_from_volume drawn faults s vol =
     (if \<not> truthy_str (st_secrets_dir s) then (Inr s, vol)
      else bind_state (fill_mailbox_key drawn faults s vol) (\<lambda>s vol.
             fill_dashboard_token drawn faults s vol))"

section \<open>Which secrets a role may hold\<close>

definition msg_no_mxroute :: "role \<Rightarrow> string" where
  "msg_no_mxroute r = ''role='' @ role_value r @ '' must not be given MXROUTE_* credentials. '' @
     ''The account-root key belongs only to role=admin, which is not '' @
     ''publicly routed. See deployment_and_release.md '' @ [CHR 0xA7] @ ''3.''"

definition msg_worker_key :: string where
  "msg_worker_key = ''role=worker requires EMAILD_MAILBOX_ENCRYPTION_KEY '' @
     ''to decrypt mailbox SMTP passwords''"

definition msg_api_key :: string where
  "msg_api_key = ''role=api must not hold EMAILD_MAILBOX_ENCRYPTION_KEY. The API '' @
     ''never sends mail directly; only the worker decrypts credentials.''"

definition msg_placeholder :: string where
  "msg_placeholder = ''refusing to start in production with a placeholder database password''"

definition msg_open_dashboard :: string where
  "msg_open_dashboard = ''refusing to serve an unauthenticated dashboard in production. '' @
     ''Either set EMAILD_DASHBOARD_TOKEN, or set '' @
     ''EMAILD_DASHBOARD_BEHIND_PROXY_AUTH=true to confirm Cloudflare '' @
     ''Access (or equivalent) is authenticating it. To turn the '' @
     ''dashboard off entirely, set EMAILD_DASHBOARD_ENABLED=false.''"

definition has_mxroute :: "settings \<Rightarrow> bool" where
  "has_mxroute s = (truthy_str (st_mxroute_server s) \<or> truthy_str (st_mxroute_username s) \<or>
     truthy_str (st_mxroute_api_key s))"

definition enforce_role_secret_scoping :: "settings \<Rightarrow> settings result" where
  "enforce_role_secret_scoping s =
     (if st_role s \<in> {Role_Api, Role_Worker} \<and> has_mxroute s then
        Inl (Value_Error (msg_no_mxroute (st_role s)))
      else if st_role s = Role_Worker \<and> \<not> truthy_str (st_mailbox_encryption_key s) then
        Inl (Value_Error msg_worker_key)
      else if st_role s = Role_Api \<and> truthy_str (st_mailbox_encryption_key s) then
        Inl (Value_Error msg_api_key)
      else if st_env s = Production \<and> py_in ''CHANGEME'' (st_database_url s) then
        Inl (Value_Error msg_placeholder)
      else if st_role s = Role_Api \<and> st_env s = Production \<and> st_dashboard_enabled s \<and>
          \<not> truthy_str (st_dashboard_token s) \<and> \<not> st_dashboard_behind_proxy_auth s then
        Inl (Value_Error msg_open_dashboard)
      else Inr s)"

text \<open>\<open>Settings()\<close>: the fields, then the two model validators in the order of their definition.\<close>

definition load_settings ::
    "8 word list \<Rightarrow> (nat \<Rightarrow> string option) \<Rightarrow> settings \<Rightarrow> volume \<Rightarrow> settings result \<times> volume" where
  "load_settings drawn faults s vol =
     bind_state (validate_fields s, vol) (\<lambda>s vol.
     bind_state (bootstrap_secrets_from_volume drawn faults s vol) (\<lambda>s vol.
       (enforce_role_secret_scoping s, vol)))"

section \<open>Diagnostics\<close>

fun partition_slashes :: "string \<Rightarrow> string \<times> string" where
  "partition_slashes (c # d # s) =
     (if c = CHR ''/'' \<and> d = CHR ''/'' then ([], s)
      else case partition_slashes (d # s) of (a, b) \<Rightarrow> (c # a, b))"
| "partition_slashes s = (s, [])"

definition redact_dsn :: "string \<Rightarrow> string" where
  "redact_dsn dsn =
     (if CHR ''@'' \<notin> set dsn \<or> \<not> py_in ''//'' dsn then ''***''
      else case partition_slashes dsn of (scheme, rest) \<Rightarrow>
        (case rpartition_at (CHR ''@'') rest of (creds, _, location) \<Rightarrow>
           if CHR '':'' \<in> set creds
           then scheme @ ''//'' @ fst (partition_at (CHR '':'') creds) @ '':***@'' @ location
           else scheme @ ''//***@'' @ location))"

definition set_or_unset :: "string option \<Rightarrow> json" where
  "set_or_unset s = JStr (if truthy_str s then ''set'' else ''unset'')"

definition redacted :: "settings \<Rightarrow> (string \<times> json) list" where
  "redacted s =
     [(''role'', JStr (role_value (st_role s))),
      (''env'', JStr (environment_value (st_env s))),
      (''database'', JStr (redact_dsn (st_database_url s))),
      (''smtp_port'', JInt (st_smtp_port s)),
      (''hourly_limit'', JInt (st_hourly_limit s)),
      (''effective_hourly_limit'', JInt (effective_hourly_limit s)),
      (''body_retention_hours'', JInt (st_body_retention_hours s)),
      (''mailbox_encryption_key'', set_or_unset (st_mailbox_encryption_key s)),
      (''mxroute_credentials'', set_or_unset (st_mxroute_api_key s)),
      (''trusted_proxies'', JInt (int (length (trusted_proxies s))))]"

section \<open>What a started process holds\<close>

lemma truthy_strE: "truthy_str s \<Longrightarrow> \<exists>t. s = Some t"
  by (cases s) (simp_all add: truthy_str_def)

text \<open>Each validator, seen from a value it returns.\<close>

lemma validate_fields_Inr:
  assumes "validate_fields s = Inr s'"
  shows "st_role s' = st_role s \<and> 0 < st_rate_limit_safety_margin s' \<and>
    st_rate_limit_safety_margin s' \<le> 95 / 100 \<and>
    (\<forall>k. st_mailbox_encryption_key s' = Some k \<longrightarrow> length k = 44)"
  using assms
  by (auto simp: validate_fields_def bind_result_eq_Inr margin_field_def margin_leaves_headroom_def
      key_looks_like_fernet_def split: if_splits option.splits)

lemma fill_mailbox_key_Inr:
  assumes "fill_mailbox_key drawn faults s vol = (Inr s', vol')"
  shows "s' = s \<or> (\<exists>key. s' = s\<lparr>st_mailbox_encryption_key := Some key\<rparr> \<and> length key = 44)"
proof (cases "from_volume (or_empty (st_secrets_dir s)) key_file (new_fernet_key drawn) faults vol")
  case (Pair r v)
  with assms show ?thesis
    by (cases r) (simp_all add: fill_mailbox_key_def Let_def split: if_splits, metis)
qed

lemma fill_dashboard_token_Inr:
  assumes "fill_dashboard_token drawn faults s vol = (Inr s', vol')"
  shows "s' = s \<or> (\<exists>token. s' = s\<lparr>st_dashboard_token := Some token\<rparr>)"
proof (cases "from_volume (or_empty (st_secrets_dir s)) token_file (new_dashboard_token drawn) faults vol")
  case (Pair r v)
  with assms show ?thesis
    by (cases r) (simp_all add: fill_dashboard_token_def split: if_splits, metis)
qed

lemma bootstrap_secrets_Inr:
  assumes "bootstrap_secrets_from_volume drawn faults s vol = (Inr s', vol')"
  shows "st_role s' = st_role s \<and> st_rate_limit_safety_margin s' = st_rate_limit_safety_margin s \<and>
    (st_mailbox_encryption_key s' = st_mailbox_encryption_key s \<or>
     (\<exists>k. st_mailbox_encryption_key s' = Some k \<and> length k = 44))"
proof (cases "truthy_str (st_secrets_dir s)")
  case False
  with assms show ?thesis by (simp add: bootstrap_secrets_from_volume_def)
next
  case True
  with assms obtain m vol1 where m: "fill_mailbox_key drawn faults s vol = (Inr m, vol1)"
    and t: "fill_dashboard_token drawn faults m vol1 = (Inr s', vol')"
    by (auto simp: bootstrap_secrets_from_volume_def bind_state_eq_Inr)
  from fill_mailbox_key_Inr [OF m] fill_dashboard_token_Inr [OF t] show ?thesis
    by (elim disjE exE conjE) simp_all
qed

lemma load_settings_Inr:
  assumes "load_settings drawn faults s vol = (Inr s', vol')"
  obtains "enforce_role_secret_scoping s' = Inr s'"
    "0 < st_rate_limit_safety_margin s'" "st_rate_limit_safety_margin s' \<le> 95 / 100"
    "\<And>k. st_mailbox_encryption_key s' = Some k \<Longrightarrow> length k = 44" "st_role s' = st_role s"
proof -
  from assms obtain f vf b where f: "validate_fields s = Inr f"
    and b: "bootstrap_secrets_from_volume drawn faults f vf = (Inr b, vol')"
    and e: "enforce_role_secret_scoping b = Inr s'"
    by (auto simp: load_settings_def bind_state_eq_Inr)
  from e have "b = s'" by (auto simp: enforce_role_secret_scoping_def split: if_splits)
  with validate_fields_Inr [OF f] bootstrap_secrets_Inr [OF b] e that show thesis by force
qed

text \<open>
  C30 No process starts with a secret its role must not hold, or without one it needs: a started API
  or worker holds no provider credential, the API no mailbox key, the worker a key of the right
  length, no production process a placeholder database password, no production API an open
  dashboard, and the rate margin leaves headroom.
\<close>

theorem role_holds_only_its_secrets:
  assumes "load_settings drawn faults s vol = (Inr s', vol')"
  shows "(st_role s' \<in> {Role_Api, Role_Worker} \<longrightarrow> \<not> has_mxroute s') \<and>
    (st_role s' = Role_Api \<longrightarrow> \<not> truthy_str (st_mailbox_encryption_key s')) \<and>
    (st_role s' = Role_Worker \<longrightarrow> (\<exists>k. st_mailbox_encryption_key s' = Some k \<and> length k = 44)) \<and>
    (st_env s' = Production \<longrightarrow> \<not> py_in ''CHANGEME'' (st_database_url s') \<and>
      (st_role s' = Role_Api \<and> st_dashboard_enabled s' \<longrightarrow>
         truthy_str (st_dashboard_token s') \<or> st_dashboard_behind_proxy_auth s')) \<and>
    0 < st_rate_limit_safety_margin s' \<and> st_rate_limit_safety_margin s' \<le> 95 / 100"
proof -
  obtain e: "enforce_role_secret_scoping s' = Inr s'" and m: "0 < st_rate_limit_safety_margin s'"
      "st_rate_limit_safety_margin s' \<le> 95 / 100"
    and k: "\<And>k. st_mailbox_encryption_key s' = Some k \<Longrightarrow> length k = 44"
    using load_settings_Inr [OF assms] by metis
  from e have "\<not> (st_role s' \<in> {Role_Api, Role_Worker} \<and> has_mxroute s')"
    "st_role s' = Role_Worker \<longrightarrow> truthy_str (st_mailbox_encryption_key s')"
    "\<not> (st_role s' = Role_Api \<and> truthy_str (st_mailbox_encryption_key s'))"
    "\<not> (st_env s' = Production \<and> py_in ''CHANGEME'' (st_database_url s'))"
    "\<not> (st_role s' = Role_Api \<and> st_env s' = Production \<and> st_dashboard_enabled s' \<and>
        \<not> truthy_str (st_dashboard_token s') \<and> \<not> st_dashboard_behind_proxy_auth s')"
    by (simp_all only: enforce_role_secret_scoping_def split: if_splits) simp_all
  with m k truthy_strE show ?thesis by blast
qed

text \<open>A generated key has the length the validators ask for, and is stored and read back unchanged.\<close>

lemma length_urlsafe_b64encode: "length (urlsafe_b64encode bs) = 4 * ((length bs + 2) div 3)"
proof (induction bs rule: urlsafe_b64encode.induct)
  case (4 a b c bs)
  have "(length bs + 5) div 3 = Suc ((length bs + 2) div 3)" by presburger
  with 4 show ?case by (simp add: add.commute)
qed simp_all

lemma b64_char_in: "b64_char n \<in> set b64_alphabet"
proof -
  have "length b64_alphabet = 64" by code_simp
  then show ?thesis unfolding b64_char_def by (intro nth_mem) simp
qed

lemma set_urlsafe_b64encode: "set (urlsafe_b64encode bs) \<subseteq> insert (CHR ''='') (set b64_alphabet)"
  by (induction bs rule: urlsafe_b64encode.induct) (auto simp: b64_char_in)

lemma b64_alphabet_no_space: "\<forall>c \<in> insert (CHR ''='') (set b64_alphabet). \<not> py_space c"
  by code_simp

lemma urlsafe_b64encode_proper:
  assumes "bs \<noteq> []"
  shows "proper (urlsafe_b64encode bs)"
proof -
  have "py_strip (urlsafe_b64encode bs) = urlsafe_b64encode bs"
    using set_urlsafe_b64encode b64_alphabet_no_space by (intro py_strip_id) blast
  moreover have "urlsafe_b64encode bs \<noteq> []"
    using assms by (cases bs rule: urlsafe_b64encode.cases) simp_all
  ultimately show ?thesis by (simp add: proper_def)
qed

lemma new_fernet_key_proper:
  assumes "length drawn = 32"
  shows "length (new_fernet_key drawn) = 44 \<and> proper (new_fernet_key drawn)"
proof -
  have "drawn \<noteq> []" using assms by auto
  with assms show ?thesis
    by (simp add: new_fernet_key_def length_urlsafe_b64encode urlsafe_b64encode_proper)
qed

text \<open>A worker, or an administration process, on its volume.\<close>

lemma load_with_key_file:
  assumes "validate_fields s = Inr s" "st_role s \<in> {Role_Worker, Role_Admin}" "truthy_str (st_secrets_dir s)"
    and "st_mailbox_encryption_key s = None"
    and "read_or_create (or_empty (st_secrets_dir s)) key_file (new_fernet_key drawn) faults (vol key_file)
           = (Inr key, disk)" "length key = 44"
  shows "load_settings drawn faults s vol =
    (enforce_role_secret_scoping (s\<lparr>st_mailbox_encryption_key := Some key\<rparr>), vol(key_file := disk))"
proof -
  have "fill_mailbox_key drawn faults s vol =
      (Inr (s\<lparr>st_mailbox_encryption_key := Some key\<rparr>), vol(key_file := disk))"
    using assms by (simp add: fill_mailbox_key_def from_volume_def truthy_str_def)
  moreover have "fill_dashboard_token drawn faults (s\<lparr>st_mailbox_encryption_key := Some key\<rparr>) v =
      (Inr (s\<lparr>st_mailbox_encryption_key := Some key\<rparr>), v)" for v
    using assms(2) by (auto simp: fill_dashboard_token_def)
  ultimately show ?thesis
    using assms by (simp add: load_settings_def bootstrap_secrets_from_volume_def)
qed

text \<open>
  A generated mailbox key survives a restart: a worker that starts on an empty volume with no key
  of its own creates one, and any later start on that volume, whatever it would have drawn, ends up
  with the same key and leaves the volume as it is.
\<close>

theorem generated_key_survives_restart:
  assumes "load_settings drawn (\<lambda>i. None) s vol = (Inr s1, vol1)" "length drawn = 32"
    and "vol key_file = Absent" "st_role s = Role_Worker" "validate_fields s = Inr s"
    and "truthy_str (st_secrets_dir s)" "st_mailbox_encryption_key s = None"
  shows "st_mailbox_encryption_key s1 = Some (new_fernet_key drawn) \<and>
    load_settings drawn' (\<lambda>i. None) s vol1 = (Inr s1, vol1)"
proof -
  let ?key = "new_fernet_key drawn"
  have created: "read_or_create (or_empty (st_secrets_dir s)) key_file ?key (\<lambda>i. None) (vol key_file) =
      (Inr ?key, Contents ?key)"
    using assms(3) by (simp add: read_or_create_absent)
  from load_with_key_file [where vol = vol and faults = "\<lambda>i. None" and drawn = drawn,
      OF assms(5) _ assms(6,7) created] assms(1,2,4) new_fernet_key_proper
  have first: "enforce_role_secret_scoping (s\<lparr>st_mailbox_encryption_key := Some ?key\<rparr>) = Inr s1"
    "vol1 = vol(key_file := Contents ?key)" by auto
  then have s1: "s1 = s\<lparr>st_mailbox_encryption_key := Some ?key\<rparr>"
    by (simp add: enforce_role_secret_scoping_def split: if_splits)
  have "read_or_create (or_empty (st_secrets_dir s)) key_file (new_fernet_key drawn') (\<lambda>i. None)
      (vol1 key_file) = (Inr ?key, Contents ?key)"
    using first(2) new_fernet_key_proper [OF assms(2)] by (simp add: read_or_create_existing)
  from load_with_key_file [where vol = vol1 and faults = "\<lambda>i. None" and drawn = drawn',
      OF assms(5) _ assms(6,7) this] assms(2,4) first s1 new_fernet_key_proper
  show ?thesis by auto
qed

definition ex_settings :: settings where
  "ex_settings = (default_settings ''d'')\<lparr>st_role := Role_Worker, st_secrets_dir := Some ''/s''\<rparr>"

lemma ex_settings_valid: "validate_fields ex_settings = Inr ex_settings"
  by (simp add: ex_settings_def default_settings_def validate_fields_def key_looks_like_fernet_def
      margin_field_def margin_leaves_headroom_def)

lemma ex_load:
  "load_settings (replicate 32 0) (\<lambda>i. None) ex_settings (\<lambda>n. Absent) =
     (Inr (ex_settings\<lparr>st_mailbox_encryption_key := Some (new_fernet_key (replicate 32 0))\<rparr>),
      (\<lambda>n. Absent)(key_file := Contents (new_fernet_key (replicate 32 0))))"
proof -
  let ?key = "new_fernet_key (replicate 32 0)"
  have key: "length ?key = 44" using new_fernet_key_proper by simp
  then have "truthy_str (Some ?key)" by (auto simp: truthy_str_def)
  then have "enforce_role_secret_scoping (ex_settings\<lparr>st_mailbox_encryption_key := Some ?key\<rparr>) =
      Inr (ex_settings\<lparr>st_mailbox_encryption_key := Some ?key\<rparr>)"
    by (simp add: enforce_role_secret_scoping_def ex_settings_def default_settings_def has_mxroute_def)
      (simp add: truthy_str_def)
  with load_with_key_file [OF ex_settings_valid, of "replicate 32 0" "\<lambda>i. None" "\<lambda>n. Absent" ?key]
    key read_or_create_absent [of "\<lambda>i. None"]
  show ?thesis by (simp add: ex_settings_def default_settings_def truthy_str_def or_empty_def)
qed

theorem role_holds_only_its_secrets_witness:
  "\<not> has_mxroute (ex_settings\<lparr>st_mailbox_encryption_key := Some (new_fernet_key (replicate 32 0))\<rparr>)"
  using role_holds_only_its_secrets [OF ex_load] by (simp add: ex_settings_def default_settings_def)

theorem generated_key_survives_restart_witness:
  "fst (load_settings (replicate 32 1) (\<lambda>i. None) ex_settings
      ((\<lambda>n. Absent)(key_file := Contents (new_fernet_key (replicate 32 0))))) =
    Inr (ex_settings\<lparr>st_mailbox_encryption_key := Some (new_fernet_key (replicate 32 0))\<rparr>)"
proof -
  have "st_role ex_settings = Role_Worker" "truthy_str (st_secrets_dir ex_settings)"
    "st_mailbox_encryption_key ex_settings = None"
    by (simp_all add: ex_settings_def default_settings_def truthy_str_def)
  then have "load_settings (replicate 32 1) (\<lambda>i. None) ex_settings
      ((\<lambda>n. Absent)(key_file := Contents (new_fernet_key (replicate 32 0)))) =
    (Inr (ex_settings\<lparr>st_mailbox_encryption_key := Some (new_fernet_key (replicate 32 0))\<rparr>),
      (\<lambda>n. Absent)(key_file := Contents (new_fernet_key (replicate 32 0))))"
    by (intro generated_key_survives_restart [OF ex_load, THEN conjunct2] ex_settings_valid) simp_all
  then show ?thesis by simp
qed

section \<open>Diagnostics hide every secret\<close>

definition dsn_of :: "string \<Rightarrow> string \<Rightarrow> string \<Rightarrow> string \<Rightarrow> string" where
  "dsn_of scheme user password location = scheme @ ''//'' @ user @ '':'' @ password @ ''@'' @ location"

lemma partition_slashes_at:
  "CHR ''/'' \<notin> set a \<Longrightarrow> partition_slashes (a @ CHR ''/'' # CHR ''/'' # b) = (a, b)"
proof (induction a)
  case Nil
  then show ?case by simp
next
  case (Cons c a)
  then show ?case by (cases a) auto
qed

lemma redact_dsn_of:
  assumes "CHR ''/'' \<notin> set scheme" "CHR '':'' \<notin> set user" "CHR ''@'' \<notin> set location"
  shows "redact_dsn (dsn_of scheme user password location) = scheme @ ''//'' @ user @ '':***@'' @ location"
proof -
  let ?creds = "user @ CHR '':'' # password"
  have dsn: "dsn_of scheme user password location =
      scheme @ CHR ''/'' # CHR ''/'' # (?creds @ CHR ''@'' # location)"
    by (simp add: dsn_of_def)
  have "py_in ''//'' (dsn_of scheme user password location)"
    unfolding py_in_iff dsn_of_def by blast
  moreover have "rpartition_at (CHR ''@'') (?creds @ CHR ''@'' # location) = (?creds, ''@'', location)"
    using assms(3) by (rule rpartition_at_simps)
  moreover have "partition_at (CHR '':'') ?creds = (user, '':'', password)"
    using assms(2) by (rule partition_at_simps)
  ultimately show ?thesis
    using partition_slashes_at [OF assms(1)] by (simp add: redact_dsn_def dsn)
qed

text \<open>
  The diagnostic view of a configuration does not depend on its secrets: whatever the database
  password, the mailbox key, the provider key and the dashboard password are, it is the same.
\<close>

theorem redacted_hides_secrets:
  assumes "CHR ''/'' \<notin> set scheme" "CHR '':'' \<notin> set user" "CHR ''@'' \<notin> set location"
    and "truthy_str key = truthy_str key'" "truthy_str api = truthy_str api'"
  shows "redacted (s\<lparr>st_database_url := dsn_of scheme user password location,
      st_mailbox_encryption_key := key, st_mxroute_api_key := api, st_dashboard_token := token\<rparr>) =
    redacted (s\<lparr>st_database_url := dsn_of scheme user password' location,
      st_mailbox_encryption_key := key', st_mxroute_api_key := api', st_dashboard_token := token'\<rparr>)"
  using assms
  by (simp add: redacted_def redact_dsn_of effective_hourly_limit_def trusted_proxies_def
      set_or_unset_def)

theorem redacted_hides_secrets_witness:
  "redacted (ex_settings\<lparr>st_database_url := dsn_of ''pg:'' ''u'' ''p@1'' ''h/d'',
      st_mailbox_encryption_key := Some ''k'', st_mxroute_api_key := None, st_dashboard_token := None\<rparr>) =
    redacted (ex_settings\<lparr>st_database_url := dsn_of ''pg:'' ''u'' ''q:2'' ''h/d'',
      st_mailbox_encryption_key := Some ''l'', st_mxroute_api_key := None,
      st_dashboard_token := Some ''t''\<rparr>)"
  by (rule redacted_hides_secrets) (simp_all add: truthy_str_def)

text \<open>The ceiling that is enforced lies below the provider's, unless that is below two.\<close>

lemma effective_hourly_limit_bounds:
  assumes "load_settings drawn faults s vol = (Inr s', vol')" "2 \<le> st_hourly_limit s'"
  shows "1 \<le> effective_hourly_limit s' \<and> effective_hourly_limit s' < st_hourly_limit s'"
proof -
  let ?x = "of_int (st_hourly_limit s') * st_rate_limit_safety_margin s'"
  from load_settings_Inr [OF assms(1)]
  have m: "0 < st_rate_limit_safety_margin s'" "st_rate_limit_safety_margin s' \<le> 95 / 100" by metis+
  have pos: "(0 :: rat) < of_int (st_hourly_limit s')" using assms(2) by simp
  have "?x \<le> of_int (st_hourly_limit s') * (95 / 100)"
    using m(2) pos by (intro mult_left_mono) simp_all
  with pos have "?x < of_int (st_hourly_limit s')" by simp
  moreover have "of_int (py_trunc ?x) \<le> ?x"
    using m(1) pos by (intro py_trunc_le) simp
  ultimately have "(of_int (py_trunc ?x) :: rat) < of_int (st_hourly_limit s')" by (rule le_less_trans [rotated])
  then show ?thesis using assms(2) by (simp add: effective_hourly_limit_def)
qed

end
