(* ===== verification/Provisioner.thy ===== *)
theory Provisioner
  imports Jobs Config
begin

text \<open>
  The process that runs the jobs (emaild/provisioner.py).  A turn of its loop is given the clock, what
  happens to each session it opens, and whether a shutdown has been asked for by the times it looks;
  it yields how long it then sleeps.  Whatever fails in a turn is caught there: the session's changes
  are lost, what was asked of the provider is not.
\<close>

section \<open>A turn\<close>

definition poll_seconds :: time where "poll_seconds = seconds 3"
definition reap_every_seconds :: time where "reap_every_seconds = seconds 60"

record provisioner =
  pv_settings :: settings
  pv_warned :: bool
  pv_since_reap :: time

definition start_provisioner :: "settings \<Rightarrow> provisioner" where
  "start_provisioner s = \<lparr>pv_settings = s, pv_warned = False, pv_since_reap = 0\<rparr>"

definition credentials :: "provisioner \<Rightarrow> (string \<times> string \<times> string) option" where
  "credentials v =
     (let s = pv_settings v in
      if truthy_str (st_mxroute_server s) \<and> truthy_str (st_mxroute_username s) \<and> truthy_str (st_mxroute_api_key s)
      then Some (or_empty (st_mxroute_server s), or_empty (st_mxroute_username s), or_empty (st_mxroute_api_key s))
      else None)"

text \<open>
  What the inner loop meets before each job: a shutdown, a session that cannot be opened (for the first
  one also a client that cannot), a session in which the job runs beside other provisioners' locked
  rows, or one whose commit fails.
\<close>

datatype attempt = Stop_Asked | Session_Fails exn | Runs "nat list" | Commit_Fails exn "nat list"

fun drain ::
    "'p requester \<Rightarrow> resolver \<Rightarrow> time \<Rightarrow> attempt list \<Rightarrow> 'p world \<Rightarrow> bool result \<times> 'p world" where
  "drain rq dns now [] w = (Inr False, w)"
| "drain rq dns now (a # as) w = (case a of
       Stop_Asked \<Rightarrow> (Inr False, w)
     | Session_Fails e \<Rightarrow> (Inl e, w)
     | Commit_Fails e locked \<Rightarrow> (Inl e, (fst w, snd (snd (run_one rq dns now locked w))))
     | Runs locked \<Rightarrow> (case run_one rq dns now locked w of
         (False, w1) \<Rightarrow> (Inr False, w1)
       | (True, w1) \<Rightarrow> (case drain rq dns now as w1 of
           (Inl e, w2) \<Rightarrow> (Inl e, w2)
         | (Inr _, w2) \<Rightarrow> (Inr True, w2))))"

record turn =
  tn_stopping :: bool
  tn_now :: time
  tn_reap_fails :: "exn option"
  tn_attempts :: "attempt list"

text \<open>The sweep for abandoned jobs, when it is due.\<close>

definition reap_turn :: "turn \<Rightarrow> provisioner \<Rightarrow> 'p world \<Rightarrow> provisioner result \<times> 'p world" where
  "reap_turn t v w =
     (if 0 < pv_since_reap v then (Inr v, w)
      else case tn_reap_fails t of
        Some e \<Rightarrow> (Inl e, w)
      | None \<Rightarrow> (Inr (v\<lparr>pv_since_reap := reap_every_seconds\<rparr>), on_db (\<lambda>d. snd (reap_stale (tn_now t) d)) w))"

definition sleeping :: "time \<Rightarrow> provisioner \<Rightarrow> time \<times> provisioner" where
  "sleeping n v = (n, v\<lparr>pv_since_reap := pv_since_reap v - n\<rparr>)"

definition cycle ::
    "(string \<times> string \<times> string \<Rightarrow> 'p requester) \<Rightarrow> resolver \<Rightarrow> turn \<Rightarrow> provisioner \<Rightarrow> 'p world \<Rightarrow>
     (time \<times> provisioner) \<times> 'p world" where
  "cycle connect dns t v w =
     (case credentials v of
        None \<Rightarrow> ((poll_seconds * 5, v\<lparr>pv_warned := True\<rparr>), w)
      | Some c \<Rightarrow>
          let v1 = v\<lparr>pv_warned := False\<rparr> in
          (case reap_turn t v1 w of
             (Inl e, w1) \<Rightarrow> (sleeping (poll_seconds * 3) v1, w1)
           | (Inr v2, w1) \<Rightarrow>
               (case drain (connect c) dns (tn_now t) (tn_attempts t) w1 of
                  (Inl e, w2) \<Rightarrow> (sleeping (poll_seconds * 3) v2, w2)
                | (Inr did_work, w2) \<Rightarrow> (if did_work then (0, v2) else sleeping poll_seconds v2, w2))))"

text \<open>The loop, over the turns that come; it ends at the first that finds a shutdown asked for.\<close>

fun run_turns ::
    "(string \<times> string \<times> string \<Rightarrow> 'p requester) \<Rightarrow> resolver \<Rightarrow> turn list \<Rightarrow> provisioner \<Rightarrow> 'p world \<Rightarrow>
     provisioner \<times> 'p world" where
  "run_turns connect dns [] v w = (v, w)"
| "run_turns connect dns (t # ts) v w =
     (if tn_stopping t then (v, w)
      else case cycle connect dns t v w of ((_, v1), w1) \<Rightarrow> run_turns connect dns ts v1 w1)"

definition wrong_role :: "role \<Rightarrow> exn" where
  "wrong_role r = Runtime_Error (''emaild.provisioner serves role=admin but EMAILD_ROLE='' @ role_value r)"

definition provisioner_main ::
    "(string \<times> string \<times> string \<Rightarrow> 'p requester) \<Rightarrow> resolver \<Rightarrow> settings \<Rightarrow> turn list \<Rightarrow> 'p world \<Rightarrow>
     unit result \<times> 'p world" where
  "provisioner_main connect dns s ts w =
     (if st_role s \<noteq> Role_Admin then (Inl (wrong_role (st_role s)), w)
      else (Inr (), snd (run_turns connect dns ts (start_provisioner s) w)))"

section \<open>The loop as steps of the queue\<close>

text \<open>
  Whatever fails, a turn is a sequence of the queue's own steps; in particular a lost commit is a step of
  the provider alone.
\<close>

lemma run_one_step: "run_one rq dns now locked w = (b, w') \<Longrightarrow> job_step w w'"
  by (cases w; cases w') (auto intro: job_step.worked)

lemma drain_steps: "drain rq dns now as w = (r, w') \<Longrightarrow> job_step\<^sup>*\<^sup>* w w'"
proof (induction as arbitrary: w r w')
  case Nil
  then show ?case by simp
next
  case (Cons a as)
  show ?case
  proof (cases a)
    case (Commit_Fails e locked)
    with Cons.prems show ?thesis by (cases w) (auto intro: job_step.provider)
  next
    case (Runs locked)
    obtain b w1 where one: "run_one rq dns now locked w = (b, w1)" by (cases "run_one rq dns now locked w")
    obtain q w2 where rest: "drain rq dns now as w1 = (q, w2)" by (cases "drain rq dns now as w1")
    have "w' = w1 \<or> w' = w2"
      using Cons.prems Runs one rest by (auto split: bool.splits sum.splits)
    with run_one_step [OF one] Cons.IH [OF rest] show ?thesis
      by (auto intro: converse_rtranclp_into_rtranclp)
  qed (use Cons.prems in auto)
qed

lemma cycle_steps: "cycle connect dns t v w = (x, w') \<Longrightarrow> job_step\<^sup>*\<^sup>* w w'"
proof -
  assume run: "cycle connect dns t v w = (x, w')"
  show ?thesis
  proof (cases "credentials v")
    case None
    with run show ?thesis by (simp add: cycle_def)
  next
    case (Some c)
    let ?v = "v\<lparr>pv_warned := False\<rparr>"
    obtain r w1 where reap: "reap_turn t ?v w = (r, w1)" by (cases "reap_turn t ?v w")
    obtain q w2 where drained: "drain (connect c) dns (tn_now t) (tn_attempts t) w1 = (q, w2)"
      by (cases "drain (connect c) dns (tn_now t) (tn_attempts t) w1")
    have "job_step\<^sup>*\<^sup>* w w1"
      using reap by (cases w) (auto simp: reap_turn_def on_db_def intro: job_step.reaped split: if_splits option.splits)
    moreover have "w' = w1 \<or> w' = w2"
      using run Some reap drained by (auto simp: cycle_def Let_def split: sum.splits)
    ultimately show ?thesis using drain_steps [OF drained] by (auto intro: rtranclp_trans)
  qed
qed

lemma run_turns_steps: "run_turns connect dns ts v w = (v', w') \<Longrightarrow> job_step\<^sup>*\<^sup>* w w'"
proof (induction ts arbitrary: v w)
  case (Cons t ts)
  then show ?case
    by (cases "cycle connect dns t v w") (auto split: if_splits dest: cycle_steps intro: rtranclp_trans)
qed simp

lemma waits_for_credentials:
  assumes "credentials v = None" "run_turns connect dns ts v w = (v', w')"
  shows "w' = w"
  using assms
proof (induction ts arbitrary: v)
  case (Cons t ts)
  have "credentials (v\<lparr>pv_warned := True\<rparr>) = None" using Cons.prems(1) by (simp add: credentials_def)
  with Cons show ?case by (auto simp: cycle_def split: if_splits)
qed simp

lemma queue_inv_steps: "job_step\<^sup>*\<^sup>* w w' \<Longrightarrow> queue_inv (fst w) \<Longrightarrow> queue_inv (fst w')"
  by (induction rule: rtranclp_induct) (auto intro: queue_inv_step)

text \<open>
  C37 The queue survives the provisioner.  However many turns it takes, whatever fails in them and whenever
  it is stopped, its run is a sequence of the queue's steps, after which no job is left running and at
  most one is outstanding per kind and domain.  In another role, or while a credential is missing, it
  changes nothing: what is queued waits.
\<close>

theorem provisioner_keeps_queue:
  assumes "provisioner_main connect dns s ts w = (r, w')" "queue_inv (fst w)"
  shows "job_step\<^sup>*\<^sup>* w w' \<and> queue_inv (fst w') \<and> 
    (st_role s \<noteq> Role_Admin \<or> credentials (start_provisioner s) = None \<longrightarrow> w' = w)"
proof -
  obtain v' u where run: "run_turns connect dns ts (start_provisioner s) w = (v', u)"
    by (cases "run_turns connect dns ts (start_provisioner s) w")
  have "job_step\<^sup>*\<^sup>* w w'"
    using assms(1) run_turns_steps [OF run] by (auto simp: provisioner_main_def run split: if_splits)
  moreover have "w' = w" if "st_role s \<noteq> Role_Admin \<or> credentials (start_provisioner s) = None"
    using assms(1) that waits_for_credentials [OF _ run] by (auto simp: provisioner_main_def run split: if_splits)
  ultimately show ?thesis using queue_inv_steps [OF _ assms(2)] by blast
qed

theorem provisioner_keeps_queue_witness:
  "\<exists>w'. provisioner_main (\<lambda>c. ex_rq JNull) ex_dns ((default_settings ''d'')\<lparr>st_role := Role_Admin\<rparr>)
     [\<lparr>tn_stopping = False, tn_now = 5, tn_reap_fails = None, tn_attempts = [Runs []]\<rparr>] (ex_db_job, 0) = (Inr (), w') \<and>
     queue_inv (fst w')"
proof -
  let ?s = "(default_settings ''d'')\<lparr>st_role := Role_Admin\<rparr>"
  let ?ts = "[\<lparr>tn_stopping = False, tn_now = 5, tn_reap_fails = None, tn_attempts = [Runs []]\<rparr>]"
  have "queue_inv (fst (ex_db_job, 0 :: nat))" by code_simp
  moreover obtain w' where run: "provisioner_main (\<lambda>c. ex_rq JNull) ex_dns ?s ?ts (ex_db_job, 0) = (Inr (), w')"
    by (simp add: provisioner_main_def)
  ultimately show ?thesis using provisioner_keeps_queue [OF run] run by blast
qed

section \<open>Jobs get done\<close>

lemma settle_counts:
  assumes "j \<in> set t" "unique_on jb_id t" "jb_status j = Pending" "s \<in> {Succeeded, Failed}"
  shows "Suc (count_where job_due (update_where (\<lambda>q. jb_id q = jb_id j)
    (\<lambda>q. finish_job now s m (mark_running now q)) t)) = count_where job_due t"
  using assms(1,2)
proof (induction t)
  case (Cons q t)
  from Cons.prems(2) have u: "unique_on jb_id t" "jb_id q \<notin> jb_id ` set t" by (simp_all add: unique_on_def)
  show ?case
  proof (cases "q = j")
    case True
    with u(2) have "update_where (\<lambda>q. jb_id q = jb_id j) (\<lambda>q. finish_job now s m (mark_running now q)) t = t"
      by (intro update_where_none) (metis image_eqI)
    with True assms(3,4) show ?thesis by (auto simp: job_due_def finish_job_def)
  next
    case False
    with Cons.prems(1) u(2) have "jb_id q \<noteq> jb_id j" "j \<in> set t" by auto
    with Cons.IH u(1) show ?thesis by simp
  qed
qed simp

lemma settles_pending:
  assumes "queue_inv (fst w)" "run_one rq dns now [] w = (b, w')"
  shows "queue_inv (fst w') \<and>
    (if b then Suc (count_where job_due (provisioning_jobs (fst w'))) = count_where job_due (provisioning_jobs (fst w))
     else count_where job_due (provisioning_jobs (fst w')) = 0)"
proof -
  have inv: "queue_inv (fst w')" using queue_inv_step [OF run_one_step [OF assms(2)] assms(1)] .
  have ok: "jobs_ok (fst w)" "domains_ok (fst w)" using assms(1) by (simp_all add: queue_inv_def)
  note settled = run_one_settles [OF ok, of rq dns now "[]" "snd w" b "fst w'" "snd w'"]
  show ?thesis
  proof (cases b)
    case False
    with settled assms(2) show ?thesis using inv
      by (auto simp: count_where_def job_due_def filter_empty_conv)
  next
    case True
    with settled assms(2) obtain j s message where j: "j \<in> set (provisioning_jobs (fst w))" "jb_status j = Pending"
      "s \<in> {Succeeded, Failed}"
      and jobs: "provisioning_jobs (fst w') = update_where (\<lambda>q. jb_id q = jb_id j)
          (\<lambda>q. finish_job now s message (mark_running now q)) (provisioning_jobs (fst w))" by auto
    with ok(1) j inv True show ?thesis by (simp add: jobs jobs_ok_def settle_counts)
  qed
qed

lemma drain_empties:
  assumes "queue_inv (fst w)" "count_where job_due (provisioning_jobs (fst w)) < n"
    and "drain rq dns now (replicate n (Runs [])) w = (r, w')"
  shows "count_where job_due (provisioning_jobs (fst w')) = 0"
  using assms
proof (induction n arbitrary: w r)
  case (Suc n)
  obtain b w1 where one: "run_one rq dns now [] w = (b, w1)" by (cases "run_one rq dns now [] w")
  note settled = settles_pending [OF Suc.prems(1) one]
  show ?case
  proof (cases b)
    case False
    with Suc.prems(3) one settled show ?thesis by simp
  next
    case True
    obtain q w2 where rest: "drain rq dns now (replicate n (Runs [])) w1 = (q, w2)"
      by (cases "drain rq dns now (replicate n (Runs [])) w1")
    with Suc.prems(3) one True have "w' = w2" by (auto split: sum.splits)
    with Suc.IH [of w1 q] rest settled True Suc.prems(2) show ?thesis by simp
  qed
qed simp

lemma drain_ids:
  "queue_inv (fst w) \<Longrightarrow> drain rq dns now (replicate n (Runs [])) w = (r, w') \<Longrightarrow>
    map jb_id (provisioning_jobs (fst w')) = map jb_id (provisioning_jobs (fst w))"
proof (induction n arbitrary: w r)
  case (Suc n)
  obtain b w1 where one: "run_one rq dns now [] w = (b, w1)" by (cases "run_one rq dns now [] w")
  have ok: "jobs_ok (fst w)" "domains_ok (fst w)" using Suc.prems(1) by (simp_all add: queue_inv_def)
  have ids: "map jb_id (update_where P (\<lambda>q. finish_job now s m (mark_running now q)) t) = map jb_id t" for P s m t
    by (induction t) (simp_all add: finish_job_def mark_running_def)
  have same: "map jb_id (provisioning_jobs (fst w1)) = map jb_id (provisioning_jobs (fst w))"
    using run_one_settles [OF ok, of rq dns now "[]" "snd w" b "fst w1" "snd w1"] one ids
    by (auto split: if_splits)
  obtain q w2 where rest: "drain rq dns now (replicate n (Runs [])) w1 = (q, w2)"
    by (cases "drain rq dns now (replicate n (Runs [])) w1")
  have "w' = w1 \<or> w' = w2" using Suc.prems(2) one rest by (auto split: bool.splits sum.splits)
  with same Suc.IH [of w1 q] rest settles_pending [OF Suc.prems(1) one] show ?case by auto
qed simp

definition ex_provider_settings :: settings where
  "ex_provider_settings = (default_settings ''d'')\<lparr>st_role := Role_Admin, st_mxroute_server := Some ''s'',
     st_mxroute_username := Some ''u'', st_mxroute_api_key := Some ''k''\<rparr>"

text \<open>
  C38 Queued work gets done.  In a turn with credentials in which nothing fails and no shutdown is asked for,
  with more looks at the queue than jobs pending, every pending job is settled: it is there afterwards, as
  succeeded or failed, and none is pending.
\<close>

theorem provisioner_empties_queue:
  assumes "queue_inv (fst w)" "credentials v \<noteq> None" "tn_reap_fails t = None"
    and "tn_attempts t = replicate n (Runs [])" "count_where job_due (provisioning_jobs (fst w)) < n"
    and "cycle connect dns t v w = ((slept, v'), w')"
  shows "(\<forall>j \<in> set (provisioning_jobs (fst w')). jb_status j \<in> {Succeeded, Failed}) \<and>
    map jb_id (provisioning_jobs (fst w')) = map jb_id (provisioning_jobs (fst w))"
proof -
  obtain c where c: "credentials v = Some c" using assms(2) by blast
  let ?v = "v\<lparr>pv_warned := False\<rparr>"
  have "on_db (\<lambda>d. snd (reap_stale (tn_now t) d)) w = w"
    using reaper_is_idle [OF assms(1)] by (cases w) (simp add: on_db_def)
  then have "\<exists>v2. reap_turn t ?v w = (Inr v2, w)" using assms(3) by (simp add: reap_turn_def)
  then obtain v2 where reap: "reap_turn t ?v w = (Inr v2, w)" by blast
  obtain q w2 where drained: "drain (connect c) dns (tn_now t) (replicate n (Runs [])) w = (q, w2)"
    by (cases "drain (connect c) dns (tn_now t) (replicate n (Runs [])) w")
  have w': "w' = w2" using assms(4,6) c reap drained by (auto simp: cycle_def Let_def split: sum.splits)
  have "queue_inv (fst w')" by (rule queue_inv_steps [OF drain_steps [OF drained [folded w']] assms(1)])
  moreover have "count_where job_due (provisioning_jobs (fst w')) = 0"
    using drain_empties [OF assms(1,5) drained] w' by simp
  ultimately have "jb_status j \<noteq> Running \<and> jb_status j \<noteq> Pending" if "j \<in> set (provisioning_jobs (fst w'))" for j
    using that by (auto simp: queue_inv_def list_all_iff count_where_def filter_empty_conv job_due_def)
  then have "jb_status j \<in> {Succeeded, Failed}" if "j \<in> set (provisioning_jobs (fst w'))" for j
    using that by (cases "jb_status j") auto
  with drain_ids [OF assms(1) drained] w' show ?thesis by blast
qed

theorem provisioner_empties_queue_witness:
  "\<exists>x w'. cycle (\<lambda>c. ex_rq JNull) ex_dns \<lparr>tn_stopping = False, tn_now = 5, tn_reap_fails = None,
      tn_attempts = [Runs [], Runs []]\<rparr> (start_provisioner ex_provider_settings) (ex_db_job, 0) = (x, w') \<and>
    (\<forall>j \<in> set (provisioning_jobs (fst w')). jb_status j \<in> {Succeeded, Failed}) \<and>
    map jb_id (provisioning_jobs (fst w')) = [jb_id ex_job]"
proof -
  let ?t = "\<lparr>tn_stopping = False, tn_now = 5, tn_reap_fails = None, tn_attempts = [Runs [], Runs []]\<rparr>"
  let ?v = "start_provisioner ex_provider_settings"
  let ?w = "(ex_db_job, 0)"
  obtain slept v' w' where run: "cycle (\<lambda>c. ex_rq JNull) ex_dns ?t ?v ?w = ((slept, v'), w')"
    by (metis prod.collapse)
  have "queue_inv (fst ?w)" "credentials ?v \<noteq> None" "count_where job_due (provisioning_jobs (fst ?w)) < 2"
    by code_simp+
  moreover have "tn_reap_fails ?t = None" "tn_attempts ?t = replicate 2 (Runs [])"
    by (simp_all add: numeral_2_eq_2)
  moreover have "map jb_id (provisioning_jobs ex_db_job) = [jb_id ex_job]" by code_simp
  ultimately show ?thesis using provisioner_empties_queue [OF _ _ _ _ _ run, of 2] run by simp
qed

end
