(* ===== verification/Testsend.thy ===== *)
theory Testsend
  imports Ingest
begin

text \<open>
  The test message of the dashboard (emaild/dashboard/testsend.py): the senders it offers, the ones
  it cannot offer and why, and the send itself, which goes through ingestion with the principal of
  a stored key.  The clock, the ULID and pydantic's part are inputs; a character outside Latin-1 in
  a text stands as its UTF-8 bytes.
\<close>

section \<open>Offered senders\<close>

record send_option =
  so_key_id :: nat
  so_key_name :: string
  so_project_name :: string
  so_sender :: string

definition em_dash :: string where "em_dash = [CHR 0xE2, CHR 0x80, CHR 0x94]"
definition left_quote :: string where "left_quote = [CHR 0xE2, CHR 0x80, CHR 0x9C]"
definition right_quote :: string where "right_quote = [CHR 0xE2, CHR 0x80, CHR 0x9D]"

definition option_value :: "send_option \<Rightarrow> string" where
  "option_value o1 = str_of_nat (so_key_id o1) @ ''|'' @ so_sender o1"

definition option_label :: "send_option \<Rightarrow> string" where
  "option_label o1 = so_sender o1 @ '' '' @ em_dash @ '' key '' @ left_quote @ so_key_name o1 @
     right_quote @ '' ('' @ so_project_name o1 @ '')''"

definition usable_keys :: "db \<Rightarrow> api_key_row list" where
  "usable_keys d = filter (\<lambda>k. ak_active k \<and> ak_revoked_at k = None) (api_keys d)"

definition scopes_of :: "db \<Rightarrow> api_key_row \<Rightarrow> scope_row list" where
  "scopes_of d k = filter (\<lambda>s. sc_api_key_id s = ak_id k) (api_key_scopes d)"

text \<open>\<open>sendable\<close>: active mailboxes on ready domains, by id.\<close>

definition sendable :: "db \<Rightarrow> (nat \<times> string) list" where
  "sendable d = map (\<lambda>m. (mb_id m, mb_address m))
     (filter (\<lambda>m. mb_active m \<and>
        (case domain_of d (mb_domain_id m) of None \<Rightarrow> False | Some x \<Rightarrow> dm_status x = Ready))
      (mailboxes d))"

definition options_of_key :: "db \<Rightarrow> api_key_row \<Rightarrow> send_option list result" where
  "options_of_key d k = (case project_of d (ak_project_id k) of
       None \<Rightarrow> Inl (no_attribute ''active'')
     | Some p \<Rightarrow>
         if \<not> pr_active p then Inr []
         else Inr (map (\<lambda>a. \<lparr>so_key_id = ak_id k, so_key_name = ak_name k, so_project_name = pr_name p,
                            so_sender = a\<rparr>)
                (List.map_filter (\<lambda>s. map_of (sendable d) (sc_mailbox_id s)) (scopes_of d k))))"

text \<open>Newest keys first; the sort by (sender, key name) is stable and done from the inner key out.\<close>

definition send_options :: "db \<Rightarrow> send_option list result" where
  "send_options d =
     bind_result (map_result (options_of_key d) (sort_key (\<lambda>k. - ak_created_at k) (usable_keys d)))
       (\<lambda>os. Inr (sort_key so_sender (sort_key so_key_name (concat os))))"

section \<open>Blocked senders\<close>

record blocked_row =
  bl_subject :: string
  bl_reason :: string
  bl_fix :: string
  bl_href :: "string option"
  bl_command :: "string option"

definition provision_command :: "string \<Rightarrow> string" where
  "provision_command address = ''./appctl admin mailboxes provision '' @ address"

definition scoped_of_key :: "db \<Rightarrow> api_key_row \<Rightarrow> nat list result" where
  "scoped_of_key d k = (case project_of d (ak_project_id k) of
       None \<Rightarrow> Inl (no_attribute ''active'')
     | Some p \<Rightarrow> Inr (if pr_active p then map sc_mailbox_id (scopes_of d k) else []))"

definition blocked_mailbox :: "db \<Rightarrow> nat list \<Rightarrow> mailbox_row \<Rightarrow> blocked_row option" where
  "blocked_mailbox d scoped m = (case domain_of d (mb_domain_id m) of
       None \<Rightarrow> None
     | Some x \<Rightarrow>
         if dm_status x \<noteq> Ready then
           Some \<lparr>bl_subject = mb_address m,
                 bl_reason = dm_name x @ '' is '' @ domain_status_value (dm_status x) @
                   '', not ready. Only a ready domain may send.'',
                 bl_fix = ''Re-check its DNS.'', bl_href = Some ''/domains'', bl_command = None\<rparr>
         else if \<not> mb_active m then
           Some \<lparr>bl_subject = mb_address m, bl_reason = ''This sender identity is deactivated.'',
                 bl_fix = ''Re-provision it.'', bl_href = None,
                 bl_command = Some (provision_command (mb_address m))\<rparr>
         else if mb_id m \<notin> set scoped then
           Some \<lparr>bl_subject = mb_address m,
                 bl_reason = ''No active API key is scoped to this address. A test '' @
                   ''sends through a real key, so that the same '' @
                   ''authorization your application will hit is exercised '' @ ''here too.'',
                 bl_fix = ''Create a key and tick this address in '' @ [CHR 39] @ ''Send as'' @ [CHR 39] @ ''.'',
                 bl_href = Some ''/keys'', bl_command = None\<rparr>
         else None)"

definition blocked_domain :: "db \<Rightarrow> domain_row \<Rightarrow> blocked_row option" where
  "blocked_domain d x =
     (if dm_id x \<in> mb_domain_id ` set (mailboxes d) then None
      else if dm_status x \<in> {Ready, Verified} then
        Some \<lparr>bl_subject = dm_name x,
              bl_reason = (if dm_status x = Ready then ''This domain has no sender identity yet.''
                else ''DNS is complete, but there is no sender identity yet.''),
              bl_fix = ''Provision one on the server '' @ em_dash @ '' it needs the MXRoute credential.'',
              bl_href = None, bl_command = Some (provision_command (''noreply@'' @ dm_name x))\<rparr>
      else
        Some \<lparr>bl_subject = dm_name x,
              bl_reason = ''This domain is '' @ domain_status_value (dm_status x) @ '', not ready.'',
              bl_fix = ''Publish the records it lists, then re-check.'',
              bl_href = Some ''/domains'', bl_command = None\<rparr>)"

definition blocked_senders :: "db \<Rightarrow> blocked_row list result" where
  "blocked_senders d =
     bind_result (map_result (scoped_of_key d) (usable_keys d)) (\<lambda>ids.
       Inr (List.map_filter (blocked_mailbox d (concat ids)) (sort_key mb_address (mailboxes d)) @
            List.map_filter (blocked_domain d) (sort_key dm_name (domains d))))"

section \<open>The send\<close>

text \<open>\<open>int\<close> of digits; it refuses the superscripts that \<open>isdigit\<close> admits.\<close>

definition int_of_digits :: "string \<Rightarrow> nat result" where
  "int_of_digits s =
     (if s \<noteq> [] \<and> list_all ascii_digit s then Inr (foldl (\<lambda>n c. 10 * n + (ord c - 48)) 0 s)
      else Inl (Value_Error (''invalid literal for int() with base 10: '' @ py_repr s)))"

definition parse_option :: "string \<Rightarrow> (nat \<times> string) result" where
  "parse_option raw = (case partition_at (CHR ''|'') raw of (key_part, _, sender) \<Rightarrow>
     if key_part = [] \<or> \<not> list_all py_digit key_part \<or> sender = []
     then Inl (Send_Refused ''Choose which address to send from.'')
     else bind_result (int_of_digits key_part) (\<lambda>i. Inr (i, sender)))"

definition principal_for :: "db \<Rightarrow> nat \<Rightarrow> principal result" where
  "principal_for d key_id =
     bind_result (scalar_one_or_none (filter (\<lambda>k. ak_id k = key_id) (api_keys d))) (\<lambda>row.
       case row of
         None \<Rightarrow> Inl (Send_Refused ''That key no longer exists or has been revoked. Reload and try again.'')
       | Some k \<Rightarrow>
           if ak_revoked_at k \<noteq> None \<or> \<not> ak_active k then
             Inl (Send_Refused ''That key no longer exists or has been revoked. Reload and try again.'')
           else (case project_of d (ak_project_id k) of
               None \<Rightarrow> Inl (no_attribute ''active'')
             | Some p \<Rightarrow>
                 if \<not> pr_active p then
                   Inl (Send_Refused (''The project '' @ left_quote @ pr_name p @ right_quote @ '' is inactive.''))
                 else Inr \<lparr>pc_api_key_id = ak_id k, pc_key_name = ak_name k,
                            pc_project_id = ak_project_id k, pc_project_name = pr_name p,
                            pc_mailboxes = scoped_mailboxes d (ak_id k)\<rparr>))"

text \<open>The fixed content; \<open>html.escape\<close> with quotes.\<close>

definition html_escape :: "string \<Rightarrow> string" where
  "html_escape s = concat (map (\<lambda>c.
     if c = CHR ''&'' then ''&amp;'' else if c = CHR ''<'' then ''&lt;''
     else if c = CHR ''>'' then ''&gt;'' else if ord c = 34 then ''&quot;''
     else if ord c = 39 then ''&#x27;'' else [c]) s)"

definition stamp_of :: "time \<Rightarrow> string" where
  "stamp_of now = (let s = isoformat now in take 10 s @ '' '' @ take 8 (drop 11 s) @ '' UTC'')"

definition quoted :: "string \<Rightarrow> string" where "quoted s = [CHR 34] @ s @ [CHR 34]"

definition content_rows :: "string \<Rightarrow> string \<Rightarrow> string \<Rightarrow> string \<Rightarrow> (string \<times> string) list" where
  "content_rows sender stamp base_url version =
     [(''Sent from'', sender), (''Sent at'', stamp), (''Dashboard'', base_url), (''Version'', version)]"

definition content_text :: "string \<Rightarrow> string \<Rightarrow> string \<Rightarrow> string \<Rightarrow> string" where
  "content_text sender stamp base_url version = py_join [CHR 10]
     [''This is a test message from your emaild installation.'',
      [],
      ''Sent from:  '' @ sender,
      ''Sent at:    '' @ stamp,
      ''Dashboard:  '' @ base_url,
      ''Version:    '' @ version,
      [],
      ''Receiving this confirms the whole path is working: DNS, the sender'',
      ''identity'' @ [CHR 39] @ ''s SMTP credential, and delivery through MXRoute.'',
      [],
      ''Worth checking while you are here: open the message'' @ [CHR 39] @ ''s original source'',
      ''(in Gmail, the three-dot menu, then '' @ [CHR 39] @ ''Show original'' @ [CHR 39] @ '') and confirm SPF,'',
      ''DKIM and DMARC all say PASS. Mail that arrives with those failing will'',
      ''reach your inbox today and land in spam for other people tomorrow.'']"

definition content_html :: "string \<Rightarrow> string \<Rightarrow> string \<Rightarrow> string \<Rightarrow> string" where
  "content_html sender stamp base_url version =
     ''<div style='' @ quoted (''font-family:system-ui,-apple-system,Segoe UI,sans-serif;'' @
       ''font-size:15px;line-height:1.6;color:#111'') @ ''>'' @
     ''<p>This is a test message from your emaild installation.</p>'' @
     ''<table cellpadding='' @ quoted ''0'' @ '' cellspacing='' @ quoted ''0'' @ '' style='' @
       quoted ''font-size:14px;margin:1rem 0'' @ ''>'' @
     concat (map (\<lambda>(label, v). ''<tr><td style='' @ quoted ''padding-right:1rem;color:#666'' @ ''>'' @
         label @ ''</td><td>'' @ html_escape v @ ''</td></tr>'')
       (content_rows sender stamp base_url version)) @
     ''</table>'' @
     ''<p>Receiving this confirms the whole path is working: DNS, the sender '' @
     ''identity'' @ [CHR 39] @ ''s SMTP credential, and delivery through MXRoute.</p>'' @
     ''<p>Worth checking while you are here: open this message'' @ [CHR 39] @ ''s original '' @
     ''source (in Gmail, the three-dot menu, then <em>Show original</em>) and '' @
     ''confirm SPF, DKIM and DMARC all say PASS. Mail that arrives with those '' @
     ''failing will reach your inbox today and land in spam for other people '' @
     ''tomorrow.</p>'' @
     ''</div>''"

definition app_version :: string where "app_version = ''0.14.0-rc.1''"

definition test_content :: "time \<Rightarrow> string \<Rightarrow> string \<Rightarrow> string \<times> string \<times> string" where
  "test_content now sender base_url =
     (let stamp = stamp_of now
      in (''emaild test message '' @ em_dash @ '' '' @ stamp,
          content_html sender stamp base_url app_version,
          content_text sender stamp base_url app_version))"

text \<open>
  \<open>send_test_message\<close>.  The request is validated as a body of the API is; pydantic's exception is
  not caught there, so it leaves as it is (\<open>Value_Error\<close>), and an API error becomes a refusal.
  There is no idempotency key, so no rival can hold it.
\<close>

definition test_body :: "string \<Rightarrow> string \<Rightarrow> string \<times> string \<times> string \<Rightarrow> (string \<times> json) list" where
  "test_body sender recipient c =
     [(''from'', JStr sender), (''to'', JStr recipient), (''subject'', JStr (fst c)),
      (''html'', JStr (fst (snd c))), (''text'', JStr (snd (snd c)))]"

definition refused :: "'a result \<Rightarrow> 'a result" where
  "refused r = (case r of Inl (Api_Error _ m _) \<Rightarrow> Inl (Send_Refused m) | _ \<Rightarrow> r)"

definition send_test_message ::
    "(string \<Rightarrow> string) \<Rightarrow> pydantic \<Rightarrow> time \<Rightarrow> string \<Rightarrow> int \<Rightarrow> string \<Rightarrow> string \<Rightarrow> string \<Rightarrow> db \<Rightarrow>
     (string \<times> db) result" where
  "send_test_message sha256 px now ulid ttl_hours option1 recipient base_url d =
     bind_result (parse_option option1) (\<lambda>(key_id, sender).
       if py_strip recipient = [] then Inl (Send_Refused ''Enter an address to send the test to.'')
       else bind_result (principal_for d key_id) (\<lambda>p.
         case validate_request px (test_body sender (py_strip recipient) (test_content now sender base_url)) of
           Inl errors \<Rightarrow> Inl (Value_Error ''ValidationError'')
         | Inr rq \<Rightarrow>
             bind_result (refused (ingest_message sha256 now ulid None ttl_hours d p rq None))
               (\<lambda>(r, d'). Inr (ir_public_id r, d'))))"

section \<open>What is offered can be sent\<close>

lemma str_of_nat_decimal: "str_of_nat n \<noteq> [] \<and> list_all ascii_digit (str_of_nat n) \<and>
    foldl (\<lambda>n c. 10 * n + (ord c - 48)) 0 (str_of_nat n) = n"
proof (induction n rule: str_of_nat.induct)
  case (1 n)
  have d: "ascii_digit (digit_char k) \<and> ord (digit_char k) - 48 = k" if "k < 10" for k
    using that by (simp add: digit_char_def ascii_digit_def)
  show ?case
  proof (cases "n < 10")
    case True
    with d [OF True] show ?thesis by (subst (1 2 3) str_of_nat.simps) simp
  next
    case False
    have "n mod 10 < 10" by simp
    from False 1 [OF False] d [OF this] show ?thesis
      by (subst (1 2 3) str_of_nat.simps) (simp del: str_of_nat.simps)
  qed
qed

text \<open>Decoding undoes encoding, for any sender: the first bar is the separator.\<close>

lemma parse_option_value:
  assumes "so_sender o1 \<noteq> []"
  shows "parse_option (option_value o1) = Inr (so_key_id o1, so_sender o1)"
proof -
  let ?n = "str_of_nat (so_key_id o1)"
  have digits: "?n \<noteq> []" "list_all ascii_digit ?n"
    "foldl (\<lambda>n c. 10 * n + (ord c - 48)) 0 ?n = so_key_id o1"
    using str_of_nat_decimal by simp_all
  have "CHR ''|'' \<notin> set ?n" using digits(2) by (auto simp: list_all_iff ascii_digit_def ord_def)
  then have "partition_at (CHR ''|'') (option_value o1) = (?n, ''|'', so_sender o1)"
    unfolding option_value_def using partition_at_simps [of "CHR ''|''" ?n "so_sender o1"] by simp
  moreover have "list_all py_digit ?n" using digits(2) by (auto simp: list_all_iff py_digit_def)
  ultimately show ?thesis using digits assms by (simp add: parse_option_def int_of_digits_def)
qed

lemma map_of_sendable:
  assumes "mailboxes_ok d"
  shows "map_of (sendable d) i = Some a \<longleftrightarrow>
    (\<exists>m x. m \<in> set (mailboxes d) \<and> mb_id m = i \<and> mb_address m = a \<and> mb_active m \<and>
       domain_of d (mb_domain_id m) = Some x \<and> dm_status x = Ready)"
proof -
  have "distinct (map mb_id (filter P (mailboxes d)))" for P
    using assms by (simp add: mailboxes_ok_def unique_on_def distinct_map_filter)
  then have "distinct (map fst (sendable d))" by (simp add: sendable_def comp_def)
  then show ?thesis
    by (auto simp: map_of_eq_Some_iff sendable_def image_iff split: option.splits)
qed

text \<open>Who may send as what: a usable key of an active project, scoped to an active mailbox on a ready domain.\<close>

definition can_send_as :: "db \<Rightarrow> api_key_row \<Rightarrow> mailbox_row \<Rightarrow> bool" where
  "can_send_as d k m = (k \<in> set (usable_keys d) \<and>
     (case project_of d (ak_project_id k) of None \<Rightarrow> False | Some p \<Rightarrow> pr_active p) \<and>
     mb_id m \<in> sc_mailbox_id ` set (scopes_of d k) \<and> m \<in> set (mailboxes d) \<and> mb_active m \<and>
     (case domain_of d (mb_domain_id m) of None \<Rightarrow> False | Some x \<Rightarrow> dm_status x = Ready))"

lemma set_map_filter_Some: "a \<in> set (List.map_filter f xs) \<longleftrightarrow> (\<exists>x \<in> set xs. f x = Some a)"
  by (induction xs) (auto simp: List.map_filter_simps split: option.splits)

lemma options_of_key_senders:
  assumes "options_of_key d k = Inr os" "mailboxes_ok d" "k \<in> set (usable_keys d)"
  shows "set (map (\<lambda>o1. (so_key_id o1, so_sender o1)) os) = {(ak_id k, mb_address m) | m. can_send_as d k m}"
proof -
  obtain p where p: "project_of d (ak_project_id k) = Some p"
    using assms(1) by (auto simp: options_of_key_def split: option.splits)
  show ?thesis
  proof (cases "pr_active p")
    case False
    with p assms(1) show ?thesis by (simp add: options_of_key_def can_send_as_def)
  next
    case True
    let ?as = "List.map_filter (\<lambda>s. map_of (sendable d) (sc_mailbox_id s)) (scopes_of d k)"
    have "a \<in> set ?as \<longleftrightarrow> (\<exists>m. can_send_as d k m \<and> a = mb_address m)" for a
      using p True assms(3) unfolding set_map_filter_Some map_of_sendable [OF assms(2)] can_send_as_def
      by (auto simp: image_iff split: option.splits) metis+
    moreover have "set (map (\<lambda>o1. (so_key_id o1, so_sender o1)) os) = Pair (ak_id k) ` set ?as"
      using p True assms(1) by (auto simp: options_of_key_def image_iff)
    ultimately show ?thesis by auto
  qed
qed

text \<open>
  The dashboard offers a pair of a key and a sender exactly when that key may send as that
  address right now.
\<close>

theorem offered_iff_sendable:
  assumes "send_options d = Inr os" "mailboxes_ok d"
  shows "(\<exists>o1 \<in> set os. so_key_id o1 = i \<and> so_sender o1 = a) \<longleftrightarrow>
    (\<exists>k m. can_send_as d k m \<and> ak_id k = i \<and> mb_address m = a)"
proof -
  let ?keys = "sort_key (\<lambda>k. - ak_created_at k) (usable_keys d)"
  obtain oss where oss: "list_all2 (\<lambda>k os. options_of_key d k = Inr os) ?keys oss"
    and os: "set os = \<Union> (set ` set oss)"
    using assms(1) by (auto simp: send_options_def bind_result_eq_Inr map_result_Inr_iff)
  have "(\<exists>os \<in> set oss. (i, a) \<in> set (map (\<lambda>o1. (so_key_id o1, so_sender o1)) os)) \<longleftrightarrow>
      (\<exists>k \<in> set ks. \<exists>m. can_send_as d k m \<and> (i, a) = (ak_id k, mb_address m))"
    if "list_all2 (\<lambda>k os. options_of_key d k = Inr os) ks oss" "set ks \<subseteq> set (usable_keys d)" for ks oss
    using that
  proof (induction rule: list_all2_induct)
    case Nil
    then show ?case by simp
  next
    case (Cons k ks os oss)
    then show ?case using options_of_key_senders [OF Cons(1) assms(2)] by auto
  qed
  from this [OF oss] show ?thesis
    unfolding os by (auto simp: can_send_as_def) blast+
qed

text \<open>A usable key is found by its id; its principal is the one bearer authentication gives.\<close>

lemma principal_for_key:
  assumes "api_keys_ok d" "k \<in> set (api_keys d)"
  shows "principal_for d (ak_id k) =
    (if ak_revoked_at k \<noteq> None \<or> \<not> ak_active k then
       Inl (Send_Refused ''That key no longer exists or has been revoked. Reload and try again.'')
     else case project_of d (ak_project_id k) of
         None \<Rightarrow> Inl (no_attribute ''active'')
       | Some p \<Rightarrow>
           if \<not> pr_active p then
             Inl (Send_Refused (''The project '' @ left_quote @ pr_name p @ right_quote @ '' is inactive.''))
           else Inr \<lparr>pc_api_key_id = ak_id k, pc_key_name = ak_name k, pc_project_id = ak_project_id k,
                      pc_project_name = pr_name p, pc_mailboxes = scoped_mailboxes d (ak_id k)\<rparr>)"
proof -
  have u: "unique_on ak_id (api_keys d)" using assms(1) by (simp add: api_keys_ok_def)
  have "scalar_one_or_none (filter (\<lambda>q. ak_id q = ak_id k) (api_keys d)) = Inr (Some k)"
    using scalar_one_or_none_unique [OF u] find_unique_on [OF u assms(2)] by simp
  then show ?thesis by (simp add: principal_for_def)
qed

text \<open>
  The dashboard's test send has exactly the authority of the key it names: it gets a principal if
  and only if presenting that key as a bearer token would, and the same one.
\<close>

theorem test_principal_mirrors_bearer:
  assumes "api_keys_ok d" "k \<in> set (api_keys d)" "ak_key_hash k = sha256 key"
  shows "principal_for d (ak_id k) = Inr p \<longleftrightarrow> (\<exists>d'. resolve_principal sha256 now d key = Inr (p, d'))"
proof -
  have u: "unique_on ak_key_hash (api_keys d)" using assms(1) by (simp add: api_keys_ok_def)
  have "find (\<lambda>q. ak_key_hash q = sha256 key) (api_keys d) = Some k"
    using find_unique_on [OF u assms(2)] assms(3) by simp
  moreover have "project_of d (ak_project_id k) = Some pr \<Longrightarrow> pr_id pr = ak_project_id k" for pr
    by (auto simp: project_of_def dest: find_SomeD)
  ultimately show ?thesis
    unfolding principal_for_key [OF assms(1,2)]
    by (auto simp: resolve_principal_def hash_api_key_def split: option.splits)
qed

theorem test_principal_mirrors_bearer_witness:
  "principal_for ex_db 4 = Inr ex_principal"
proof -
  have r: "\<exists>d'. resolve_principal (\<lambda>s. s) 0 ex_db ''em_live_k'' = Inr (ex_principal, d')"
    by (auto simp: resolve_principal_def hash_api_key_def ex_defs project_of_def scoped_mailboxes_def
        domain_of_def Let_def)
  have ok: "api_keys_ok ex_db" "ex_key \<in> set (api_keys ex_db)" "ak_key_hash ex_key = ''em_live_k''"
    "ak_id ex_key = 4"
    by (simp_all add: api_keys_ok_def unique_on_def ids_below_def ex_key_def)
  from test_principal_mirrors_bearer [of ex_db ex_key "\<lambda>s. s" "''em_live_k''" ex_principal 0] r ok
  show ?thesis by simp
qed

text \<open>Every mailbox is offered, or listed as blocked; never both.\<close>

lemma scoped_ids:
  assumes "map_result (scoped_of_key d) ks = Inr ids"
  shows "i \<in> set (concat ids) \<longleftrightarrow> (\<exists>k \<in> set ks.
    (case project_of d (ak_project_id k) of None \<Rightarrow> False | Some p \<Rightarrow> pr_active p) \<and>
    i \<in> sc_mailbox_id ` set (scopes_of d k))"
proof -
  have "list_all2 (\<lambda>k is. scoped_of_key d k = Inr is) ks ids"
    using assms by (simp add: map_result_Inr_iff)
  then show ?thesis
    by (induction rule: list_all2_induct) (auto simp: scoped_of_key_def split: option.splits)
qed

text \<open>
  No sender is silently missing from the dashboard: a mailbox of a known domain can be sent from
  with some key, and is then not listed as blocked, or it is listed as blocked with one reason.
\<close>

theorem offered_or_explained:
  assumes "blocked_senders d = Inr bs" "mailboxes_ok d" "m \<in> set (mailboxes d)"
    and "domain_of d (mb_domain_id m) \<noteq> None" "mb_address m \<notin> dm_name ` set (domains d)"
  shows "(\<exists>k. can_send_as d k m) \<longleftrightarrow> mb_address m \<notin> bl_subject ` set bs"
proof -
  obtain ids where ids: "map_result (scoped_of_key d) (usable_keys d) = Inr ids"
    and bs: "bs = List.map_filter (blocked_mailbox d (concat ids)) (sort_key mb_address (mailboxes d)) @
       List.map_filter (blocked_domain d) (sort_key dm_name (domains d))"
    using assms(1) by (auto simp: blocked_senders_def bind_result_eq_Inr)
  have subject: "bl_subject b = mb_address q" if "blocked_mailbox d xs q = Some b" for xs q b
    using that by (auto simp: blocked_mailbox_def split: option.splits if_splits)
  have "bl_subject b = dm_name x" if "blocked_domain d x = Some b" for x b
    using that by (auto simp: blocked_domain_def split: if_splits)
  then have "mb_address m \<notin> bl_subject ` set (List.map_filter (blocked_domain d) (sort_key dm_name (domains d)))"
    using assms(5) by (auto simp: set_map_filter_Some)
  then have "mb_address m \<in> bl_subject ` set bs \<longleftrightarrow>
      (\<exists>q \<in> set (mailboxes d). \<exists>b. blocked_mailbox d (concat ids) q = Some b \<and> bl_subject b = mb_address m)"
    unfolding bs set_append image_Un Un_iff image_iff Bex_def set_map_filter_Some set_sort by metis
  also have "\<dots> \<longleftrightarrow> blocked_mailbox d (concat ids) m \<noteq> None"
    using assms(2,3) subject unique_on_same [of mb_address "mailboxes d"]
    by (fastforce simp: mailboxes_ok_def)
  also have "\<dots> \<longleftrightarrow> \<not> (\<exists>k. can_send_as d k m)"
    using assms(3,4) scoped_ids [OF ids, of "mb_id m"]
    by (auto simp: blocked_mailbox_def can_send_as_def split: option.splits)
  finally show ?thesis by blast
qed

section \<open>The send succeeds\<close>

definition test_request :: "time \<Rightarrow> string \<Rightarrow> string \<Rightarrow> string \<Rightarrow> send_request" where
  "test_request now sender recipient base_url =
     \<lparr>rq_from = sender, rq_to = [recipient],
      rq_subject = Some (fst (test_content now sender base_url)),
      rq_html = Some (fst (snd (test_content now sender base_url))),
      rq_text = Some (snd (snd (test_content now sender base_url))),
      rq_cc = None, rq_bcc = None, rq_reply_to = None, rq_headers = None, rq_tags = None\<rparr>"

lemma test_subject_length: "length (fst (test_content now sender base_url)) \<le> 998"
  by (simp add: test_content_def stamp_of_def Let_def em_dash_def)

lemma test_bodies: "fst (snd (test_content now sender base_url)) \<noteq> []"
  by (simp add: test_content_def Let_def content_html_def)

lemma test_body_get:
  "dict_get (test_body sender recipient c) k =
    (if k = ''from'' then Some (JStr sender) else if k = ''to'' then Some (JStr recipient)
     else if k = ''subject'' then Some (JStr (fst c)) else if k = ''html'' then Some (JStr (fst (snd c)))
     else if k = ''text'' then Some (JStr (snd (snd c))) else None)"
  by (simp add: test_body_def dict_get_def)

lemma validate_test_body:
  assumes "\<And>j. j \<in> {sender, recipient, fst (test_content now sender base_url),
      fst (snd (test_content now sender base_url)), snd (snd (test_content now sender base_url))} \<Longrightarrow>
      px_trim px j = j" and "3 \<le> length sender"
  shows "validate_request px (test_body sender recipient (test_content now sender base_url)) =
    Inr (test_request now sender recipient base_url)"
proof -
  obtain s h t where c: "test_content now sender base_url = (s, h, t)" by (cases "test_content now sender base_url")
  have trim: "px_trim px sender = sender" "px_trim px recipient = recipient" "px_trim px s = s"
    "px_trim px h = h" "px_trim px t = t" using assms(1) unfolding c by simp_all
  have "length s \<le> 998" "h \<noteq> []"
    using test_subject_length [of now sender base_url] test_bodies [of now sender base_url] c by simp_all
  moreover have "extra_errors px (''from'' # request_fields) (test_body sender recipient (s, h, t)) = []"
    by (simp add: extra_errors_def test_body_def request_fields_def)
  ultimately show ?thesis
    using trim assms(2)
    by (simp add: c validate_request_def test_body_get required_field_def optional_field_def str_field_def
        recipients_field_def coerce_to_list_def errors_of_def Let_def require_a_body_def
        require_a_recipient_def truthy_str_def test_request_def)
qed

text \<open>What the principal of an offered pair may send as.\<close>

lemma offered_principal:
  assumes "can_send_as d k m" "mailboxes_ok d" "api_keys_ok d"
    and "parse_from_address (mb_address m) = Inr (dn, mb_address m)"
  obtains p where "principal_for d (ak_id k) = Inr p" "authorize_sender p (mb_address m) = Inr (dn, m)"
    "pc_project_id p = ak_project_id k" "pc_api_key_id p = ak_id k"
proof -
  from assms(1) obtain pr x s where k: "k \<in> set (api_keys d)" "ak_active k" "ak_revoked_at k = None"
    and pr: "project_of d (ak_project_id k) = Some pr" "pr_active pr"
    and m: "m \<in> set (mailboxes d)" "mb_active m" and x: "domain_of d (mb_domain_id m) = Some x" "dm_status x = Ready"
    and s: "s \<in> set (api_key_scopes d)" "sc_api_key_id s = ak_id k" "sc_mailbox_id s = mb_id m"
    by (auto simp: can_send_as_def usable_keys_def scopes_of_def split: option.splits)
  let ?p = "\<lparr>pc_api_key_id = ak_id k, pc_key_name = ak_name k, pc_project_id = ak_project_id k,
      pc_project_name = pr_name pr, pc_mailboxes = scoped_mailboxes d (ak_id k)\<rparr>"
  have "principal_for d (ak_id k) = Inr ?p"
    using principal_for_key [OF assms(3) k(1)] k pr by simp
  moreover have "(mb_address m, m, Some x) \<in> set (scoped_mailboxes d (ak_id k))"
    using m(1) x(1) s by (auto simp: scoped_mailboxes_iff)
  moreover have "distinct (map fst (scoped_mailboxes d (ak_id k)))"
    using assms(2) by (simp add: scoped_mailboxes_def Let_def comp_def mailboxes_ok_def unique_on_def
        distinct_map_filter)
  ultimately show thesis
    using that [of ?p] assms(4) m(2) x(2) by (simp add: authorize_sender_def)
qed

lemma parsed_address_shape:
  "parse_from_address v = Inr (dn, a) \<Longrightarrow> address_shape_ok a"
  by (auto simp: parse_from_address_def address_shape_ok_def Let_def split: prod.splits if_splits)

lemma address_shape_length: "address_shape_ok a \<Longrightarrow> 3 \<le> length a \<and> CHR ''@'' \<in> set a"
proof (erule address_shape_okE)
qed (auto simp: neq_Nil_conv)

lemma utf8_length_le: "utf8_length s \<le> 2 * length s"
  by (induction s) (simp_all add: utf8_length_def)

lemma length_html_escape: "length (html_escape s) \<le> 6 * length s"
  by (induction s) (simp_all add: html_escape_def)

lemma length_content_html:
  "length (content_html a s b v) \<le> 3000 + 6 * (length a + length s + length b + length v)"
  using length_html_escape [of a] length_html_escape [of s] length_html_escape [of b]
    length_html_escape [of v]
  by (simp add: content_html_def content_rows_def quoted_def)

lemma length_content_text:
  "length (content_text a s b v) \<le> 3000 + length a + length s + length b + length v"
  by (simp add: content_text_def)

lemma length_stamp: "length (stamp_of now) \<le> 23"
  by (simp add: stamp_of_def Let_def)

text \<open>A test message is far below the limit, unless an address or the page's own URL is enormous.\<close>

lemma test_request_size:
  assumes "length sender \<le> 100000" "length recipient \<le> 100000" "length base_url \<le> 100000"
  shows "estimated_size_bytes (test_request now sender recipient base_url) \<le> max_message_bytes"
proof -
  let ?c = "test_content now sender base_url"
  have v: "length app_version = 11" by (simp add: app_version_def)
  have "length (fst ?c) \<le> 998" by (rule test_subject_length)
  moreover have "length (fst (snd ?c)) \<le> 1300000"
    using length_content_html [of sender "stamp_of now" base_url app_version] length_stamp [of now] v assms
    by (simp add: test_content_def Let_def)
  moreover have "length (snd (snd ?c)) \<le> 300000"
    using length_content_text [of sender "stamp_of now" base_url app_version] length_stamp [of now] v assms
    by (simp add: test_content_def Let_def)
  ultimately show ?thesis
    using assms utf8_length_le [of "fst ?c"] utf8_length_le [of "fst (snd ?c)"]
      utf8_length_le [of "snd (snd ?c)"] utf8_length_le [of sender] utf8_length_le [of recipient]
    by (simp add: estimated_size_bytes_def test_request_def all_recipients_def or_list_def or_empty_def
        max_message_bytes_def)
qed

definition keeps :: "pydantic \<Rightarrow> string \<Rightarrow> bool" where
  "keeps px s = (px_trim px s = s)"

lemma test_request_accepted:
  assumes "authorize_sender p a = Inr (dn, m)" "normalise_address r = Inr n"
    and "estimated_size_bytes (test_request now a r base_url) \<le> max_message_bytes"
  shows "check_request p (test_request now a r base_url) =
    Inr \<lparr>ac_from_name = dn, ac_mailbox = m, ac_to = [n], ac_cc = [], ac_bcc = [],
        ac_size = estimated_size_bytes (test_request now a r base_url)\<rparr>"
proof -
  have "normalise_recipients [r] ''to'' = Inr [n]"
    using assms(2) recipients_from_step [of "[]" "''to''" r "[]"]
    by (simp add: normalise_recipients_def del: recipients_from.simps(2))
  moreover have "normalise_recipients [] field = Inr []" for field
    by (simp add: normalise_recipients_def)
  moreover have "rq_from (test_request now a r base_url) = a" "rq_to (test_request now a r base_url) = [r]"
    "rq_cc (test_request now a r base_url) = None" "rq_bcc (test_request now a r base_url) = None"
    "rq_reply_to (test_request now a r base_url) = None"
    by (simp_all add: test_request_def)
  ultimately show ?thesis
    using assms by (simp add: check_request_def or_list_def ac_total_def max_recipients_def truthy_str_def)
qed


section \<open>Concrete instances\<close>

definition ex_option :: send_option where
  "ex_option = \<lparr>so_key_id = 4, so_key_name = ''web'', so_project_name = ''shop'', so_sender = ''no@a.io''\<rparr>"

lemma ex_send_options: "send_options ex_db = Inr [ex_option]"
  by (simp add: send_options_def usable_keys_def options_of_key_def scopes_of_def sendable_def
      ex_option_def ex_key_def ex_scope_def ex_project_def project_of_def domain_of_def List.map_filter_def)

lemma ex_blocked: "blocked_senders ex_db = Inr []"
  by (simp add: blocked_senders_def usable_keys_def scoped_of_key_def scopes_of_def blocked_mailbox_def
      blocked_domain_def ex_key_def ex_scope_def ex_project_def project_of_def domain_of_def
      List.map_filter_def)

lemma ex_tables_ok: "mailboxes_ok ex_db" "api_keys_ok ex_db"
  by (simp_all add: mailboxes_ok_def api_keys_ok_def unique_on_def ids_below_def mailbox_limits_ok_def
      ex_mailbox_def ex_key_def)

theorem offered_iff_sendable_witness: "\<exists>k m. can_send_as ex_db k m \<and> ak_id k = 4 \<and> mb_address m = ''no@a.io''"
  using offered_iff_sendable [OF ex_send_options ex_tables_ok(1), of 4 "''no@a.io''"]
  by (simp add: ex_option_def)

theorem offered_or_explained_witness: "\<exists>k. can_send_as ex_db k ex_mailbox"
  using offered_or_explained [OF ex_blocked ex_tables_ok(1), of ex_mailbox] by (simp add: domain_of_def)


end
