(* ===== verification/Management.thy ===== *)
theory Management
  imports Fixtures Py_Time
begin

text \<open>
  Projects and API keys (emaild/management.py), shared by the command line and the dashboard.  The
  random token of a new key and the lost race for a project name are inputs; a rollback leaves the
  tables as the transaction found them.
\<close>

section \<open>Operations\<close>

definition max_name_length :: nat where "max_name_length = 64"

definition clean_label :: "string \<Rightarrow> string \<Rightarrow> string result" where
  "clean_label given what =
     (let name = py_strip given in
      if name = [] then Inl (Management_Error (''A '' @ what @ '' name is required.''))
      else if max_name_length < length name then
        Inl (Management_Error (''That '' @ what @ '' name is too long (max '' @
          str_of_nat max_name_length @ '' characters).''))
      else Inr name)"

definition in_quotes :: "string \<Rightarrow> string" where
  "in_quotes s = [CHR 39] @ s @ [CHR 39]"

definition project_exists :: "string \<Rightarrow> exn" where
  "project_exists name = Management_Error (''A project named '' @ in_quotes name @ '' already exists.'')"

definition create_project ::
    "time \<Rightarrow> bool \<Rightarrow> string \<Rightarrow> string option \<Rightarrow> db \<Rightarrow> (project_row \<times> db) result" where
  "create_project now lost_race given description d =
     bind_result (clean_label given ''project'') (\<lambda>name.
     bind_result (scalar_one_or_none (filter (\<lambda>r. pr_name r = name) (projects d))) (\<lambda>existing.
       if existing \<noteq> None \<or> lost_race then Inl (project_exists name)
       else
         let row = \<lparr>pr_id = next_id d, pr_name = name,
               pr_description = or_none (py_strip (or_empty description)), pr_active = True,
               pr_created_at = now\<rparr>
         in Inr (row, d\<lparr>projects := projects d @ [row], next_id := Suc (next_id d)\<rparr>)))"

text \<open>\<open>sorted({a.strip().lower() for a in addresses if a and a.strip()})\<close>.\<close>

definition wanted_addresses :: "string list \<Rightarrow> string list" where
  "wanted_addresses addresses =
     sorted_set (map (\<lambda>a. py_lower (py_strip a)) (filter (\<lambda>a. py_strip a \<noteq> []) addresses))"

definition new_api_key :: "nat \<Rightarrow> time \<Rightarrow> nat \<Rightarrow> string \<Rightarrow> string \<Rightarrow> string \<Rightarrow> api_key_row" where
  "new_api_key i now project_id name digest prefix =
     \<lparr>ak_id = i, ak_project_id = project_id, ak_name = name, ak_key_hash = digest,
      ak_key_prefix = prefix, ak_active = True, ak_created_at = now, ak_last_used_at = None,
      ak_revoked_at = None\<rparr>"

definition scope_rows :: "nat \<Rightarrow> nat \<Rightarrow> mailbox_row list \<Rightarrow> scope_row list" where
  "scope_rows first key_id boxes =
     map (\<lambda>(i, m). \<lparr>sc_id = i, sc_api_key_id = key_id, sc_mailbox_id = mb_id m\<rparr>)
       (zip [first ..< first + length boxes] boxes)"

text \<open>The two flushes; the unique index over the digests refuses one that is taken.\<close>

definition insert_key ::
    "time \<Rightarrow> nat \<Rightarrow> string \<Rightarrow> string \<Rightarrow> string \<Rightarrow> mailbox_row list \<Rightarrow> db \<Rightarrow> (api_key_row \<times> db) result" where
  "insert_key now project_id name digest prefix boxes d =
     (let row = new_api_key (next_id d) now project_id name digest prefix in
      if digest \<in> ak_key_hash ` set (api_keys d) then Inl Integrity_Error
      else Inr (row, d\<lparr>api_keys := api_keys d @ [row],
        api_key_scopes := api_key_scopes d @ scope_rows (Suc (next_id d)) (next_id d) boxes,
        next_id := Suc (next_id d) + length boxes\<rparr>))"

definition create_api_key ::
    "(string \<Rightarrow> string) \<Rightarrow> time \<Rightarrow> string \<Rightarrow> string \<Rightarrow> string \<Rightarrow> string list \<Rightarrow> db \<Rightarrow>
     ((api_key_row \<times> string \<times> string list) \<times> db) result" where
  "create_api_key sha256 now urlsafe given project_name addresses d =
     bind_result (clean_label given ''key'') (\<lambda>name.
     bind_result (scalar_one_or_none (filter (\<lambda>r. pr_name r = project_name) (projects d))) (\<lambda>found_project.
     case found_project of
       None \<Rightarrow> Inl (Management_Error (''No such project: '' @ project_name))
     | Some project \<Rightarrow>
         if \<not> pr_active project then
           Inl (Management_Error (''Project '' @ in_quotes project_name @
             '' is inactive, so a key for it could not authenticate.''))
         else
           let wanted = wanted_addresses addresses;
               boxes = filter (\<lambda>m. mb_address m \<in> set wanted) (mailboxes d);
               found = map mb_address boxes;
               missing = sorted_set (filter (\<lambda>a. a \<notin> set found) wanted)
           in
           if wanted = [] then
             Inl (Management_Error (''Select at least one sender identity. A key with no scopes '' @
               ''cannot send as anything.''))
           else if missing \<noteq> [] then
             Inl (Management_Error (''Unknown sender identities: '' @ py_join '', '' missing))
           else
             bind_result (scalar_one_or_none (filter (\<lambda>k. ak_name k = name) (api_keys d))) (\<lambda>duplicate.
               if (case duplicate of None \<Rightarrow> False | Some k \<Rightarrow> ak_revoked_at k = None) then
                 Inl (Management_Error (''An active key named '' @ in_quotes name @ '' already exists.''))
               else
                 (case generate_api_key sha256 urlsafe of (full_key, digest, prefix) \<Rightarrow>
                   bind_result (insert_key now (pr_id project) name digest prefix boxes d) (\<lambda>(row, d').
                     Inr ((row, full_key, sorted_set found), d'))))))"

text \<open>\<open>f"{t:%Y-%m-%d %H:%M}"\<close>.\<close>

definition minute_text :: "time \<Rightarrow> string" where
  "minute_text t = (let s = isoformat t in take 10 s @ '' '' @ take 5 (drop 11 s))"

definition revoke_api_key :: "time \<Rightarrow> string \<Rightarrow> db \<Rightarrow> (string \<times> db) result" where
  "revoke_api_key now name d =
     bind_result (scalar_one_or_none (filter (\<lambda>k. ak_name k = name) (api_keys d))) (\<lambda>key.
     case key of
       None \<Rightarrow> Inl (Management_Error (''No such key: '' @ name))
     | Some k \<Rightarrow>
         (case ak_revoked_at k of
            Some t \<Rightarrow> Inr (''Key '' @ in_quotes name @ '' was already revoked at '' @ minute_text t @ ''.'', d)
          | None \<Rightarrow>
              Inr (''Revoked '' @ in_quotes name @
                   ''. Effective immediately -- authentication is never cached.'',
                d\<lparr>api_keys := update_where (\<lambda>q. ak_id q = ak_id k)
                     (\<lambda>q. q\<lparr>ak_revoked_at := Some now, ak_active := False\<rparr>) (api_keys d)\<rparr>)))"

section \<open>What a key may do, from its creation to its revocation\<close>

lemma generate_api_key_sel:
  "generate_api_key sha256 urlsafe = (full_key, digest, prefix) \<Longrightarrow>
   full_key = api_key_prefix @ rstrip_chars ''='' urlsafe \<and> digest = sha256 full_key"
  by (auto simp: generate_api_key_def hash_api_key_def Let_def)

lemma create_api_keyE:
  assumes "create_api_key sha256 now urlsafe given project_name addresses d = Inr ((row, full_key, found), d')"
  obtains project boxes where "project \<in> set (projects d)" "pr_name project = project_name"
    "pr_active project" "boxes = filter (\<lambda>m. mb_address m \<in> set (wanted_addresses addresses)) (mailboxes d)"
    "set (wanted_addresses addresses) = mb_address ` set boxes" "wanted_addresses addresses \<noteq> []"
    "full_key = api_key_prefix @ rstrip_chars ''='' urlsafe" "found = sorted_set (map mb_address boxes)"
    "sha256 full_key \<notin> ak_key_hash ` set (api_keys d)"
    "row = new_api_key (next_id d) now (pr_id project) (py_strip given) (sha256 full_key)
       (take (length api_key_prefix + 6) full_key)"
    "d' = d\<lparr>api_keys := api_keys d @ [row],
        api_key_scopes := api_key_scopes d @ scope_rows (Suc (next_id d)) (next_id d) boxes,
        next_id := Suc (next_id d) + length boxes\<rparr>"
proof -
  let ?w = "wanted_addresses addresses"
  let ?boxes = "filter (\<lambda>m. mb_address m \<in> set ?w) (mailboxes d)"
  obtain name where name: "clean_label given ''key'' = Inr name"
    using assms by (cases "clean_label given ''key''") (auto simp: create_api_key_def)
  obtain project where p: "scalar_one_or_none (filter (\<lambda>r. pr_name r = project_name) (projects d)) =
      Inr (Some project)"
    using assms name unfolding create_api_key_def bind_result_eq_Inr by (auto split: option.splits)
  note run = assms [unfolded create_api_key_def name p bind_result_simps option.case Let_def]
  have active: "pr_active project" and w: "?w \<noteq> []"
    and none: "sorted_set (filter (\<lambda>a. a \<notin> set (map mb_address ?boxes)) ?w) = []"
    using run by (simp_all split: if_splits)
  obtain key digest prefix where g: "generate_api_key sha256 urlsafe = (key, digest, prefix)"
    by (cases "generate_api_key sha256 urlsafe")
  have ins: "insert_key now (pr_id project) name digest prefix ?boxes d = Inr (row, d')"
    and k: "full_key = key" and f: "found = sorted_set (map mb_address ?boxes)"
    using run active w none g by (auto simp: result_simps split: if_splits)
  have "set (filter (\<lambda>a. a \<notin> set (map mb_address ?boxes)) ?w) = {}"
    using none by (metis list.set(1) sorted_set_props(1))
  then have sub: "set ?w \<subseteq> mb_address ` set ?boxes" by auto
  have nm: "name = py_strip given"
    using name by (auto simp: clean_label_def Let_def split: if_splits)
  have pref: "prefix = take (length api_key_prefix + 6) key"
    using g by (auto simp: generate_api_key_def Let_def)
  note gs = generate_api_key_sel [OF g]
  have pin: "project \<in> set (projects d)" "pr_name project = project_name"
    using p by (auto simp: scalar_one_or_none_def split: list.splits dest: filter_eq_ConsD)
  show ?thesis
    using that [of project ?boxes] pin active sub w k f gs ins nm pref
    by (auto simp: insert_key_def Let_def split: if_splits)
qed

lemma set_scope_rows:
  "s \<in> set (scope_rows first k boxes) \<Longrightarrow> sc_api_key_id s = k \<and> sc_mailbox_id s \<in> mb_id ` set boxes"
  by (auto simp: scope_rows_def dest: set_zip_rightD)

lemma scope_rows_mailboxes: "sc_mailbox_id ` set (scope_rows first k boxes) = mb_id ` set boxes"
proof -
  have "map sc_mailbox_id (scope_rows first k boxes) = map mb_id boxes"
    by (rule nth_equalityI) (simp_all add: scope_rows_def)
  then show ?thesis by (metis set_map)
qed

text \<open>The principal of a new key: the mailboxes it was created with, and nothing else.\<close>

lemma scoped_to_new_key:
  assumes "unique_on mb_id (mailboxes d)" "ids_below sc_api_key_id k (api_key_scopes d)"
    and "mailboxes d' = mailboxes d" "domains d' = domains d"
    and "api_key_scopes d' = api_key_scopes d @ scope_rows first k boxes" "set boxes \<subseteq> set (mailboxes d)"
  shows "fst ` set (scoped_mailboxes d' k) = mb_address ` set boxes"
proof -
  have fresh: "sc_api_key_id s \<noteq> k" if "s \<in> set (api_key_scopes d)" for s
    using assms(2) that by (auto simp: ids_below_def list_all_iff)
  have row: "(\<exists>s \<in> set (api_key_scopes d'). sc_api_key_id s = k \<and> sc_mailbox_id s = mb_id m) \<longleftrightarrow> m \<in> set boxes"
    if "m \<in> set (mailboxes d)" for m
  proof
    assume "\<exists>s \<in> set (api_key_scopes d'). sc_api_key_id s = k \<and> sc_mailbox_id s = mb_id m"
    then obtain s where s: "s \<in> set (api_key_scopes d')" "sc_api_key_id s = k" "sc_mailbox_id s = mb_id m"
      by blast
    with fresh have "s \<in> set (scope_rows first k boxes)" by (auto simp: assms(5))
    from set_scope_rows [OF this] s(3) have "mb_id m \<in> mb_id ` set boxes" by simp
    then obtain b where b: "b \<in> set boxes" "mb_id b = mb_id m" by auto
    with unique_on_same [OF assms(1), of b m] that assms(6) have "b = m" by blast
    with b show "m \<in> set boxes" by simp
  next
    assume "m \<in> set boxes"
    then have "mb_id m \<in> sc_mailbox_id ` set (scope_rows first k boxes)"
      by (simp add: scope_rows_mailboxes)
    then obtain s where "s \<in> set (scope_rows first k boxes)" "sc_mailbox_id s = mb_id m" by force
    with set_scope_rows [OF this(1)]
    show "\<exists>s \<in> set (api_key_scopes d'). sc_api_key_id s = k \<and> sc_mailbox_id s = mb_id m"
      by (auto simp: assms(5))
  qed
  show ?thesis
  proof
    show "fst ` set (scoped_mailboxes d' k) \<subseteq> mb_address ` set boxes"
    proof
      fix a
      assume "a \<in> fst ` set (scoped_mailboxes d' k)"
      then obtain m dmn where "(a, m, dmn) \<in> set (scoped_mailboxes d' k)" by auto
      then have "m \<in> set (mailboxes d)" "a = mb_address m"
        "\<exists>s \<in> set (api_key_scopes d'). sc_api_key_id s = k \<and> sc_mailbox_id s = mb_id m"
        by (simp_all add: scoped_mailboxes_iff assms(3))
      with row [of m] show "a \<in> mb_address ` set boxes" by blast
    qed
    show "mb_address ` set boxes \<subseteq> fst ` set (scoped_mailboxes d' k)"
    proof
      fix a
      assume "a \<in> mb_address ` set boxes"
      then obtain m where m: "m \<in> set boxes" "a = mb_address m" by blast
      with row assms(6) have "(a, m, domain_of d' (mb_domain_id m)) \<in> set (scoped_mailboxes d' k)"
        by (auto simp: scoped_mailboxes_iff assms(3))
      then show "a \<in> fst ` set (scoped_mailboxes d' k)" by force
    qed
  qed
qed

lemma bearer_of_key:
  assumes "list_all (\<lambda>c. \<not> py_space c) urlsafe" "full_key = api_key_prefix @ rstrip_chars ''='' urlsafe"
  shows "extract_bearer (Some (''Bearer '' @ full_key)) = Inr full_key"
proof -
  have plain: "\<not> py_space c" if "c \<in> set full_key" for c
  proof -
    have "c \<in> set api_key_prefix \<or> c \<in> set urlsafe"
      using that assms(2) set_dropWhileD by (fastforce simp: rstrip_chars_def)
    then show ?thesis
      using assms(1) by (auto simp: list_all_iff api_key_prefix_def py_space_def ord_def)
  qed
  then have strip: "py_strip full_key = full_key" by (intro py_strip_id) blast
  have "partition_at (CHR '' '') (''Bearer'' @ CHR '' '' # full_key) = (''Bearer'', '' '', full_key)"
    by (rule partition_at_simps) simp
  then have "partition_at (CHR '' '') (''Bearer '' @ full_key) = (''Bearer'', '' '', full_key)" by simp
  moreover have "py_lower ''Bearer'' = ''bearer''" by code_simp
  moreover have "starts_with api_key_prefix full_key" using assms(2) by simp
  moreover have "full_key \<noteq> []" using assms(2) by (simp add: api_key_prefix_def)
  ultimately show ?thesis by (simp add: extract_bearer_def strip)
qed

text \<open>
  C28 A key works as it was created: the plaintext that is shown once, sent as a bearer token,
  authenticates as the project the key was created for, with exactly the sender addresses that were
  asked for.
\<close>

theorem created_key_authenticates:
  assumes "create_api_key sha256 now urlsafe given project_name addresses d = Inr ((row, full_key, found), d')"
    and "projects_ok d" "mailboxes_ok d" "ids_below sc_api_key_id (next_id d) (api_key_scopes d)"
    and "list_all (\<lambda>c. \<not> py_space c) urlsafe"
  shows "\<exists>p d2. require_principal sha256 later d' (Some (''Bearer '' @ full_key)) = Inr (p, d2) \<and>
    pc_project_name p = project_name \<and> pc_key_name p = py_strip given \<and>
    set (allowed_addresses p) = set (wanted_addresses addresses)"
  using assms(1)
proof (rule create_api_keyE)
  fix project boxes
  assume p: "project \<in> set (projects d)" "pr_name project = project_name" "pr_active project"
    and boxes: "boxes = filter (\<lambda>m. mb_address m \<in> set (wanted_addresses addresses)) (mailboxes d)"
      "set (wanted_addresses addresses) = mb_address ` set boxes"
    and key: "full_key = api_key_prefix @ rstrip_chars ''='' urlsafe"
      "sha256 full_key \<notin> ak_key_hash ` set (api_keys d)"
    and row: "row = new_api_key (next_id d) now (pr_id project) (py_strip given) (sha256 full_key)
       (take (length api_key_prefix + 6) full_key)"
    and d': "d' = d\<lparr>api_keys := api_keys d @ [row],
        api_key_scopes := api_key_scopes d @ scope_rows (Suc (next_id d)) (next_id d) boxes,
        next_id := Suc (next_id d) + length boxes\<rparr>"
  have "find (\<lambda>k. ak_key_hash k = sha256 full_key) (api_keys d) = None"
    using key(2) by (force simp: find_None_ball)
  then have find: "find (\<lambda>k. ak_key_hash k = sha256 full_key) (api_keys d') = Some row"
    by (simp add: d' find_append row new_api_key_def)
  have "project_of d' (pr_id project) = Some project"
    using assms(2) p(1) find_unique_on [of pr_id "projects d" project]
    by (simp add: projects_ok_def project_of_def d')
  moreover have "fst ` set (scoped_mailboxes d' (next_id d)) = mb_address ` set boxes"
    using assms(3,4) by (intro scoped_to_new_key [where d = d]) (auto simp: d' mailboxes_ok_def boxes(1))
  ultimately show ?thesis
    using bearer_of_key [OF assms(5) key(1)] find p boxes(2)
    by (simp add: require_principal_def resolve_principal_def hash_api_key_def row new_api_key_def
        allowed_addresses_def)
qed

theorem created_key_authenticates_witness:
  "\<exists>row full_key found d' p d2. create_api_key (\<lambda>s. s) 9 ''tok=='' '' app '' ''shop'' ['' No@A.io ''] ex_db =
     Inr ((row, full_key, found), d') \<and>
     require_principal (\<lambda>s. s) 10 d' (Some (''Bearer '' @ full_key)) = Inr (p, d2) \<and>
     set (allowed_addresses p) = {''no@a.io''}"
proof -
  have w: "wanted_addresses ['' No@A.io ''] = [''no@a.io'']" by code_simp
  have "\<not> isl (create_api_key (\<lambda>s. s) 9 ''tok=='' '' app '' ''shop'' ['' No@A.io ''] ex_db)" by code_simp
  then obtain row full_key found d' where run: "create_api_key (\<lambda>s. s) 9 ''tok=='' '' app '' ''shop''
      ['' No@A.io ''] ex_db = Inr ((row, full_key, found), d')"
    by (cases "create_api_key (\<lambda>s. s) 9 ''tok=='' '' app '' ''shop'' ['' No@A.io ''] ex_db") auto
  have "projects_ok ex_db" "mailboxes_ok ex_db" "ids_below sc_api_key_id (next_id ex_db) (api_key_scopes ex_db)"
    "list_all (\<lambda>c. \<not> py_space c) ''tok==''"
    by code_simp+
  from created_key_authenticates [OF run this, of 10] run show ?thesis by (auto simp: w)
qed

text \<open>
  C27 Revocation is immediate and exact: from the moment a revocation returns, no presented key whose
  row bears that name authenticates, and every key of another name is as it was.
\<close>

theorem revocation_is_immediate:
  assumes "revoke_api_key now name d = Inr (answer, d')" "api_keys_ok d"
    and "find (\<lambda>k. ak_key_hash k = sha256 presented) (api_keys d') = Some k" "ak_name k = name"
  shows "resolve_principal sha256 later d' presented = Inl (auth_error msg_invalid_key) \<and>
    (\<forall>q \<in> set (api_keys d). ak_name q \<noteq> name \<longrightarrow> q \<in> set (api_keys d'))"
proof -
  obtain k0 where one: "filter (\<lambda>k. ak_name k = name) (api_keys d) = [k0]"
    using assms(1) by (auto simp: revoke_api_key_def result_simps scalar_one_or_none_def
        split: list.splits option.splits)
  then have "set (filter (\<lambda>k. ak_name k = name) (api_keys d)) = {k0}" by simp
  then have k0: "k0 \<in> set (api_keys d)" "ak_name k0 = name"
    and only: "\<And>q. q \<in> set (api_keys d) \<Longrightarrow> ak_name q = name \<Longrightarrow> q = k0"
    by auto
  have in': "k \<in> set (api_keys d')" using assms(3) by (rule find_SomeD)
  have "ak_revoked_at k \<noteq> None \<or> \<not> ak_active k"
  proof (cases "ak_revoked_at k0")
    case None
    then have d': "d' = d\<lparr>api_keys := update_where (\<lambda>q. ak_id q = ak_id k0)
         (\<lambda>q. q\<lparr>ak_revoked_at := Some now, ak_active := False\<rparr>) (api_keys d)\<rparr>"
      using assms(1) one by (simp add: revoke_api_key_def scalar_one_or_none_def)
    from in' have "k \<in> set (update_where (\<lambda>q. ak_id q = ak_id k0)
         (\<lambda>q. q\<lparr>ak_revoked_at := Some now, ak_active := False\<rparr>) (api_keys d))" by (simp add: d')
    then show ?thesis
    proof (rule in_update_whereE)
      assume "k \<in> set (api_keys d)" "ak_id k \<noteq> ak_id k0"
      with only [of k] assms(4) show ?thesis by simp
    qed simp
  next
    case (Some t)
    then have "d' = d" using assms(1) one by (simp add: revoke_api_key_def scalar_one_or_none_def)
    with in' only [of k] assms(4) Some show ?thesis by simp
  qed
  then have "resolve_principal sha256 later d' presented = Inl (auth_error msg_invalid_key)"
    using assms(3) by (simp add: resolve_principal_def hash_api_key_def Let_def)
  moreover have "q \<in> set (api_keys d')"
    if "q \<in> set (api_keys d)" "ak_name q \<noteq> name" for q
  proof -
    have "ak_id q \<noteq> ak_id k0"
      using that k0 assms(2) unique_on_same unfolding api_keys_ok_def by metis
    with assms(1) one that(1) show ?thesis
      by (auto simp: revoke_api_key_def scalar_one_or_none_def set_update_where split: option.splits)
  qed
  ultimately show ?thesis by blast
qed

theorem revocation_is_immediate_witness:
  "\<exists>answer d'. revoke_api_key 9 ''web'' ex_db = Inr (answer, d') \<and>
     resolve_principal (\<lambda>s. s) 10 d' ''em_live_k'' = Inl (auth_error msg_invalid_key)"
proof -
  define d' where "d' = ex_db\<lparr>api_keys := [ex_key\<lparr>ak_revoked_at := Some 9, ak_active := False\<rparr>]\<rparr>"
  obtain answer where run: "revoke_api_key 9 ''web'' ex_db = Inr (answer, d')"
    by (simp add: revoke_api_key_def scalar_one_or_none_def ex_key_def d'_def)
  have "find (\<lambda>k. ak_key_hash k = (\<lambda>s. s) ''em_live_k'') (api_keys d') =
      Some (ex_key\<lparr>ak_revoked_at := Some 9, ak_active := False\<rparr>)"
    "ak_name (ex_key\<lparr>ak_revoked_at := Some 9, ak_active := False\<rparr>) = ''web''"
    by (simp_all add: d'_def ex_key_def)
  moreover have "api_keys_ok ex_db" by code_simp
  ultimately have "resolve_principal (\<lambda>s. s) 10 d' ''em_live_k'' = Inl (auth_error msg_invalid_key)"
    using revocation_is_immediate [OF run, of "\<lambda>s. s" "''em_live_k''"] by simp
  with run show ?thesis by blast
qed

text \<open>The tables a revocation and a new project change.\<close>

lemma revoke_frame:
  assumes "revoke_api_key now name d = Inr (m, d')"
  shows "\<exists>ks. d' = d\<lparr>api_keys := ks\<rparr>"
proof -
  obtain key where key: "scalar_one_or_none (filter (\<lambda>k. ak_name k = name) (api_keys d)) = Inr key"
    using assms by (auto simp: revoke_api_key_def bind_result_eq_Inr)
  then obtain k where k: "key = Some k" using assms by (cases key) (simp_all add: revoke_api_key_def)
  have "\<exists>ks. d = d\<lparr>api_keys := ks\<rparr>" by (rule exI [of _ "api_keys d"]) simp
  with assms key k show ?thesis
    by (cases "ak_revoked_at k") (auto simp: revoke_api_key_def)
qed

lemma create_project_frame:
  "create_project now race name description d = Inr (row, d') \<Longrightarrow> \<exists>ps n. d' = d\<lparr>projects := ps, next_id := n\<rparr>"
  by (auto simp: create_project_def bind_result_eq_Inr Let_def split: if_split_asm)

text \<open>
  A name that was rotated, revoked and created again as documented, has two rows from then on, and
  the lookup by name raises: the new key can no longer be revoked by its name.
\<close>

lemma create_key_adds_name:
  assumes "create_api_key sha256 now urlsafe given project_name addresses d = Inr (x, d')"
  shows "length (filter (\<lambda>k. ak_name k = py_strip given) (api_keys d')) =
    Suc (length (filter (\<lambda>k. ak_name k = py_strip given) (api_keys d)))"
proof -
  obtain row full_key found where x: "x = (row, full_key, found)" by (cases x)
  from assms [unfolded x] show ?thesis
    by (rule create_api_keyE) (simp add: new_api_key_def)
qed

lemma rotated_key_cannot_be_revoked:
  assumes "create_api_key sha256 t1 u1 given project_name addresses d = Inr (x1, d1)"
    and "revoke_api_key t2 (py_strip given) d1 = Inr (answer, d2)"
    and "create_api_key sha256 t3 u2 given project_name addresses d2 = Inr (x3, d3)"
  shows "revoke_api_key t4 (py_strip given) d3 = Inl Multiple_Results_Found"
proof -
  have "length (filter (\<lambda>k. ak_name k = py_strip given) (api_keys d2)) =
      length (filter (\<lambda>k. ak_name k = py_strip given) (api_keys d1))"
  proof -
    have "map ak_name (api_keys d2) = map ak_name (api_keys d1)"
      using assms(2) by (auto simp: revoke_api_key_def result_simps map_update_where split: option.splits)
    moreover have "length (filter (\<lambda>k. ak_name k = n) t) = length (filter (\<lambda>x. x = n) (map ak_name t))" for n t
      by (induction t) simp_all
    ultimately show ?thesis by metis
  qed
  with create_key_adds_name [OF assms(1)] create_key_adds_name [OF assms(3)]
  have "2 \<le> length (filter (\<lambda>k. ak_name k = py_strip given) (api_keys d3))" by simp
  then show ?thesis
    using scalar_one_or_none_many [of "filter (\<lambda>k. ak_name k = py_strip given) (api_keys d3)"]
    by (simp add: revoke_api_key_def)
qed

end
