(* ===== verification/Metrics.thy ===== *)
theory Metrics
  imports Ratelimit Api Fixtures "HOL-Library.Multiset"
begin

text \<open>
  Metrics (emaild/metrics.py) and the endpoint that serves them (GET /v1/metrics): the health of
  the queue, volumes by project and domain, provider latency, workers and the headroom of every
  sender.  Numbers are exact rationals; \<open>round\<close> rounds half to even as Python's does.
\<close>

section \<open>Values\<close>

datatype dict_value =
    DNull
  | DBool bool
  | DNum rat
  | DStr string
  | DList "dict_value list"
  | DDict "(string \<times> dict_value) list"

definition d_nat :: "nat \<Rightarrow> dict_value" where "d_nat n = DNum (of_nat n)"

definition d_option :: "('a \<Rightarrow> dict_value) \<Rightarrow> 'a option \<Rightarrow> dict_value" where
  "d_option f x = (case x of None \<Rightarrow> DNull | Some y \<Rightarrow> f y)"

definition round_to :: "nat \<Rightarrow> rat \<Rightarrow> rat" where
  "round_to k x = of_int (round_half_even (x * 10 ^ k)) / 10 ^ k"

definition total_seconds :: "time \<Rightarrow> rat" where
  "total_seconds t = of_int t / 1000000"

section \<open>Queue health\<close>

definition heartbeat_stale_after :: time where "heartbeat_stale_after = minutes 2"
definition queue_age_warning :: time where "queue_age_warning = minutes 15"

definition is_pending :: "message_row \<Rightarrow> bool" where
  "is_pending m = (ms_status m \<in> {Queued, Temporarily_Failed})"

definition is_accepted :: "message_row \<Rightarrow> bool" where
  "is_accepted m = (ms_status m = Accepted_By_Provider)"

definition is_failed :: "message_row \<Rightarrow> bool" where
  "is_failed m = (ms_status m = Permanently_Rejected)"

record queue_health_row =
  qh_pending :: nat
  qh_sending :: nat
  qh_oldest_pending_seconds :: "rat option"
  qh_needs_review :: nat
  qh_healthy :: bool
  qh_reason :: "string option"

text \<open>\<open>MIN\<close> of an SQL column: nothing of no rows.\<close>

definition sql_min :: "time list \<Rightarrow> time option" where
  "sql_min ts = (case ts of [] \<Rightarrow> None | t # us \<Rightarrow> Some (fold min us t))"

definition msg_queue_old :: "rat \<Rightarrow> string" where
  "msg_queue_old age = ''oldest pending message is '' @ str_of_int (round_half_even (age / 60)) @
     '' minutes old; worker may be stopped, rate-gated, or the provider unreachable''"

definition queue_health :: "time \<Rightarrow> db \<Rightarrow> queue_health_row" where
  "queue_health now d =
     (let oldest = sql_min (map ms_created_at (filter is_pending (messages d)));
          age = map_option (\<lambda>t. round_to 1 (total_seconds (now - t))) oldest;
          reviews = count_where ms_needs_review (messages d);
          old = (case age of None \<Rightarrow> False | Some a \<Rightarrow> total_seconds queue_age_warning < a)
      in \<lparr>qh_pending = count_where is_pending (messages d),
          qh_sending = count_where (\<lambda>m. ms_status m = Sending) (messages d),
          qh_oldest_pending_seconds = age, qh_needs_review = reviews,
          qh_healthy = (\<not> old \<and> reviews = 0),
          qh_reason = (if old then map_option msg_queue_old age
             else if reviews \<noteq> 0 then Some (str_of_nat reviews @ '' message(s) flagged for human review'')
             else None)\<rparr>)"

section \<open>Volumes\<close>

record volume_slice =
  vs_name :: string
  vs_requested :: nat
  vs_accepted :: nat
  vs_failed :: nat
  vs_pending :: nat

definition rate_of :: "nat \<Rightarrow> nat \<Rightarrow> rat" where
  "rate_of accepted failed =
     (if accepted + failed \<noteq> 0 then round_to 4 (of_nat failed / of_nat (accepted + failed)) else 0)"

definition failure_rate :: "volume_slice \<Rightarrow> rat" where
  "failure_rate s = rate_of (vs_accepted s) (vs_failed s)"

definition slice_dict :: "volume_slice \<Rightarrow> dict_value" where
  "slice_dict s = DDict [(''name'', DStr (vs_name s)), (''requested'', d_nat (vs_requested s)),
     (''accepted'', d_nat (vs_accepted s)), (''failed'', d_nat (vs_failed s)),
     (''pending'', d_nat (vs_pending s)), (''failure_rate'', DNum (failure_rate s))]"

text \<open>The rows of a window, of one project if one is given.\<close>

definition in_scope :: "time \<Rightarrow> nat option \<Rightarrow> message_row \<Rightarrow> bool" where
  "in_scope cutoff project_id m = (cutoff \<le> ms_created_at m \<and>
     (case project_id of None \<Rightarrow> True | Some p \<Rightarrow> ms_project_id m = p))"

definition scoped_rows :: "time \<Rightarrow> nat option \<Rightarrow> db \<Rightarrow> message_row list" where
  "scoped_rows cutoff project_id d = filter (in_scope cutoff project_id) (messages d)"

text \<open>\<open>GROUP BY .. ORDER BY COUNT DESC\<close>, over an inner join that gives a row its label.\<close>

definition group_labels :: "('r \<Rightarrow> 'l option) \<Rightarrow> 'r list \<Rightarrow> 'l list" where
  "group_labels label rows =
     (let labels = remdups (List.map_filter label rows)
      in sort_key (\<lambda>l. - int (count_where (\<lambda>r. label r = Some l) rows)) labels)"

definition volume_by :: "(message_row \<Rightarrow> string option) \<Rightarrow> message_row list \<Rightarrow> volume_slice list" where
  "volume_by label rows =
     map (\<lambda>l. let group = filter (\<lambda>m. label m = Some l) rows in
        \<lparr>vs_name = l, vs_requested = length group, vs_accepted = count_where is_accepted group,
         vs_failed = count_where is_failed group, vs_pending = count_where is_pending group\<rparr>)
       (group_labels label rows)"

definition project_label :: "db \<Rightarrow> message_row \<Rightarrow> string option" where
  "project_label d m = map_option pr_name (project_of d (ms_project_id m))"

definition domain_label :: "db \<Rightarrow> message_row \<Rightarrow> string option" where
  "domain_label d m = (case mailbox_of d (ms_mailbox_id m) of
       None \<Rightarrow> None | Some b \<Rightarrow> map_option dm_name (domain_of d (mb_domain_id b)))"

section \<open>Latency and workers\<close>

text \<open>\<open>percentile_cont\<close> interpolates between the two neighbouring ranks.\<close>

definition percentile_cont :: "rat \<Rightarrow> int list \<Rightarrow> rat option" where
  "percentile_cont p xs =
     (if xs = [] then None
      else let ys = sort xs; rank = p * of_nat (length ys - 1); lo = nat \<lfloor>rank\<rfloor>;
               a = of_int (ys ! lo); b = of_int (ys ! min (lo + 1) (length ys - 1))
           in Some (a + (b - a) * (rank - of_nat lo)))"

definition provider_latency :: "message_row list \<Rightarrow> (string \<times> dict_value) list" where
  "provider_latency rows =
     (let xs = List.map_filter ms_provider_latency_ms rows
      in [(''p50'', d_option (\<lambda>x. DNum (round_to 1 x)) (percentile_cont (1 / 2) xs)),
          (''p95'', d_option (\<lambda>x. DNum (round_to 1 x)) (percentile_cont (95 / 100) xs)),
          (''max'', if xs = [] then DNull else DNum (of_int (Max (set xs)))),
          (''samples'', d_nat (length xs))])"

definition worker_status :: "time \<Rightarrow> db \<Rightarrow> dict_value list" where
  "worker_status now d = map (\<lambda>h. DDict
       [(''worker_id'', DStr (hb_worker_id h)), (''version'', d_option DStr (hb_version h)),
        (''last_seen_seconds_ago'', DNum (round_to 1 (total_seconds (now - hb_last_seen_at h)))),
        (''messages_processed'', d_nat (hb_messages_processed h)),
        (''alive'', DBool (total_seconds (now - hb_last_seen_at h) \<le> total_seconds heartbeat_stale_after))])
     (sort_key hb_worker_id (worker_heartbeats d))"

section \<open>Headroom\<close>

record headroom_row =
  hr_sender :: string
  hr_used_this_hour :: nat
  hr_our_ceiling :: int
  hr_provider_ceiling :: int
  hr_remaining :: int
  hr_utilisation :: rat

text \<open>
  The outer join gives a mailbox the messages attempted in the last hour, or one row with no message;
  the project filter is applied to these rows afterwards.
\<close>

definition joined_rows :: "time \<Rightarrow> db \<Rightarrow> mailbox_row \<Rightarrow> message_row option list" where
  "joined_rows now d b =
     (let rows = filter (attempted_since (mb_id b) (now - hours 1)) (messages d)
      in if rows = [] then [None] else map Some rows)"

definition row_in_project :: "nat option \<Rightarrow> message_row option \<Rightarrow> bool" where
  "row_in_project project_id r = (case project_id of
       None \<Rightarrow> True
     | Some p \<Rightarrow> (case r of None \<Rightarrow> True | Some m \<Rightarrow> ms_project_id m = p))"

definition headroom_of :: "rat \<Rightarrow> mailbox_row \<Rightarrow> nat \<Rightarrow> headroom_row" where
  "headroom_of safety_margin b used =
     (let ceiling = max 1 (py_trunc (of_int (mb_hourly_limit b) * safety_margin))
      in \<lparr>hr_sender = mb_address b, hr_used_this_hour = used, hr_our_ceiling = ceiling,
          hr_provider_ceiling = mb_hourly_limit b, hr_remaining = max 0 (ceiling - int used),
          hr_utilisation = round_to 3 (of_nat used / of_int ceiling)\<rparr>)"

definition mailbox_headroom :: "time \<Rightarrow> rat \<Rightarrow> nat option \<Rightarrow> db \<Rightarrow> mailbox_row \<Rightarrow> headroom_row option" where
  "mailbox_headroom now safety_margin project_id d b =
     (let kept = filter (row_in_project project_id) (joined_rows now d b)
      in if kept = [] then None
         else Some (headroom_of safety_margin b (count_where (\<lambda>r. r \<noteq> None) kept)))"

definition rate_headroom :: "time \<Rightarrow> db \<Rightarrow> rat \<Rightarrow> nat option \<Rightarrow> headroom_row list" where
  "rate_headroom now d safety_margin project_id =
     sort_key (\<lambda>h. - int (hr_used_this_hour h))
       (List.map_filter (mailbox_headroom now safety_margin project_id d) (mailboxes d))"

definition headroom_dict :: "headroom_row \<Rightarrow> dict_value" where
  "headroom_dict h = DDict
     [(''sender'', DStr (hr_sender h)), (''used_this_hour'', d_nat (hr_used_this_hour h)),
      (''our_ceiling'', DNum (of_int (hr_our_ceiling h))),
      (''provider_ceiling'', DNum (of_int (hr_provider_ceiling h))),
      (''remaining'', DNum (of_int (hr_remaining h))), (''utilisation'', DNum (hr_utilisation h))]"

section \<open>The overview\<close>

record overview =
  ow_window_hours :: int
  ow_requested :: nat
  ow_accepted :: nat
  ow_failed :: nat
  ow_pending :: nat
  ow_failure_rate :: rat
  ow_queue :: queue_health_row
  ow_latency_ms :: "(string \<times> dict_value) list"
  ow_by_project :: "volume_slice list"
  ow_by_domain :: "volume_slice list"
  ow_failures_by_class :: "(string \<times> dict_value) list"
  ow_workers :: "dict_value list"
  ow_rate_headroom :: "headroom_row list"

definition failures_by_class :: "message_row list \<Rightarrow> (string \<times> dict_value) list" where
  "failures_by_class rows =
     map (\<lambda>c. (failure_class_value c, d_nat (count_where (\<lambda>m. ms_failure_class m = Some c) rows)))
       (group_labels ms_failure_class rows)"

definition build_overview :: "time \<Rightarrow> int \<Rightarrow> rat \<Rightarrow> nat option \<Rightarrow> db \<Rightarrow> overview" where
  "build_overview now window_hours safety_margin project_id d =
     (let rows = scoped_rows (now - hours window_hours) project_id d;
          accepted = count_where is_accepted rows; failed = count_where is_failed rows
      in \<lparr>ow_window_hours = window_hours, ow_requested = length rows, ow_accepted = accepted,
          ow_failed = failed, ow_pending = count_where is_pending rows,
          ow_failure_rate = rate_of accepted failed, ow_queue = queue_health now d,
          ow_latency_ms = provider_latency rows,
          ow_by_project = volume_by (project_label d) rows,
          ow_by_domain = volume_by (domain_label d) rows,
          ow_failures_by_class = failures_by_class rows,
          ow_workers = worker_status now d,
          ow_rate_headroom = rate_headroom now d safety_margin project_id\<rparr>)"

definition overview_dict :: "overview \<Rightarrow> (string \<times> dict_value) list" where
  "overview_dict w =
     [(''window_hours'', DNum (of_int (ow_window_hours w))),
      (''totals'', DDict [(''requested'', d_nat (ow_requested w)),
         (''accepted_by_provider'', d_nat (ow_accepted w)), (''failed'', d_nat (ow_failed w)),
         (''pending'', d_nat (ow_pending w)), (''failure_rate'', DNum (ow_failure_rate w))]),
      (''queue'', DDict [(''pending'', d_nat (qh_pending (ow_queue w))),
         (''sending'', d_nat (qh_sending (ow_queue w))),
         (''oldest_pending_seconds'', d_option DNum (qh_oldest_pending_seconds (ow_queue w))),
         (''needs_review'', d_nat (qh_needs_review (ow_queue w))),
         (''healthy'', DBool (qh_healthy (ow_queue w))),
         (''reason'', d_option DStr (qh_reason (ow_queue w)))]),
      (''provider_latency_ms'', DDict (ow_latency_ms w)),
      (''by_project'', DList (map slice_dict (ow_by_project w))),
      (''by_domain'', DList (map slice_dict (ow_by_domain w))),
      (''failures_by_class'', DDict (ow_failures_by_class w)),
      (''workers'', DList (ow_workers w)),
      (''rate_headroom'', DList (map headroom_dict (ow_rate_headroom w)))]"

text \<open>The endpoint: one project, a window of one hour to thirty days, without workers and projects.\<close>

definition get_metrics :: "time \<Rightarrow> rat \<Rightarrow> int \<Rightarrow> principal \<Rightarrow> db \<Rightarrow> ((string \<times> dict_value) list \<times> db) result" where
  "get_metrics now safety_margin window_hours p d =
     (let w = max 1 (min window_hours 720)
      in Inr (filter (\<lambda>(k, v). k \<notin> {''workers'', ''by_project''})
           (overview_dict (build_overview now w safety_margin (Some (pc_project_id p)) d)), d))"

definition key_state :: "api_key_row \<Rightarrow> string" where
  "key_state k = (if ak_revoked_at k \<noteq> None then ''revoked'' else if ak_active k then ''active'' else ''inactive'')"

definition active_keys :: "db \<Rightarrow> dict_value list" where
  "active_keys d =
     (let used = filter (\<lambda>k. ak_last_used_at k \<noteq> None) (api_keys d);
          unused = filter (\<lambda>k. ak_last_used_at k = None) (api_keys d)
      in List.map_filter (\<lambda>k. map_option (\<lambda>p. DDict
             [(''key'', DStr (ak_name k)), (''project'', DStr (pr_name p)),
              (''last_used_at'', d_option (\<lambda>t. DStr (isoformat t)) (ak_last_used_at k)),
              (''state'', DStr (key_state k))]) (project_of d (ak_project_id k)))
           (sort_key (\<lambda>k. case ak_last_used_at k of None \<Rightarrow> 0 | Some t \<Rightarrow> - t) used @ unused))"

section \<open>The numbers are right\<close>

lemma filter_unique_on: "unique_on key t \<Longrightarrow> r \<in> set t \<Longrightarrow> filter (\<lambda>q. key q = key r) t = [r]"
proof (induction t)
  case Nil
  then show ?case by simp
next
  case (Cons q t)
  show ?case
  proof (cases "q = r")
    case True
    with Cons.prems(1) have "\<forall>x \<in> set t. key x \<noteq> key r"
      unfolding unique_on_def by (metis distinct.simps(2) imageI list.set_map list.simps(9))
    then have "filter (\<lambda>q. key q = key r) t = []" by (simp add: filter_empty_conv)
    with True show ?thesis by simp
  next
    case False
    with Cons.prems have "r \<in> set t" "unique_on key t" "key q \<noteq> key r"
      by (auto simp: unique_on_def)
    with Cons.IH show ?thesis by simp
  qed
qed

text \<open>
  The headroom the operator sees is the gate's: in the unscoped view every sender has exactly one
  entry, with the use, ceiling and remainder on which the rate gate decides, so that a sender shown
  with none left is one the gate holds.
\<close>

theorem headroom_is_the_gates:
  assumes "b \<in> set (mailboxes d)" "unique_on mb_address (mailboxes d)"
  shows "\<exists>h. filter (\<lambda>h. hr_sender h = mb_address b) (rate_headroom now d margin None) = [h] \<and>
    int (hr_used_this_hour h) = bg_used (current_budget now d b margin) \<and>
    hr_our_ceiling h = bg_ceiling (current_budget now d b margin) \<and>
    hr_remaining h = remaining (current_budget now d b margin) \<and>
    (hr_remaining h = 0 \<longleftrightarrow> exhausted (current_budget now d b margin))"
proof -
  let ?h = "\<lambda>b. headroom_of margin b (used_in_window (mb_id b) now d)"
  have h: "mailbox_headroom now margin None d b = Some (?h b)" for b
    by (simp add: mailbox_headroom_def joined_rows_def row_in_project_def used_in_window_def window_def
        count_where_def comp_def Let_def)
  then have "mailbox_headroom now margin None d = (\<lambda>b. Some (?h b))" by blast
  then have "List.map_filter (mailbox_headroom now margin None d) (mailboxes d) = map ?h (mailboxes d)"
    by (simp add: List.map_filter_def comp_def)
  moreover have "filter (\<lambda>h. hr_sender h = mb_address b) (map ?h t) = map ?h (filter (\<lambda>q. mb_address q = mb_address b) t)"
    for t by (induction t) (simp_all add: headroom_of_def Let_def)
  moreover have "filter (\<lambda>q. mb_address q = mb_address b) (mailboxes d) = [b]"
    using filter_unique_on [OF assms(2,1)] .
  ultimately have "filter (\<lambda>h. hr_sender h = mb_address b) (rate_headroom now d margin None) = [?h b]"
    by (simp add: rate_headroom_def filter_sort)
  then show ?thesis
    by (intro exI [of _ "?h b"]) (simp add: headroom_of_def current_budget_def send_ceiling_def
        remaining_def exhausted_def Let_def, arith)
qed

theorem headroom_is_the_gates_witness:
  "\<exists>h. filter (\<lambda>h. hr_sender h = ''no@a.io'') (rate_headroom 0 ex_db (9 / 10) None) = [h] \<and> hr_remaining h = 360"
proof -
  have "send_ceiling 400 (9 / 10) = 360" by (simp add: send_ceiling_def py_trunc_def)
  moreover have "used_in_window 3 0 ex_db = 0"
    by (simp add: used_in_window_def attempted_since_def)
  moreover have "ex_mailbox \<in> set (mailboxes ex_db)" "unique_on mb_address (mailboxes ex_db)"
    by (simp_all add: unique_on_def)
  from headroom_is_the_gates [OF this, of 0 "9 / 10"]
  obtain h where "filter (\<lambda>h. hr_sender h = ''no@a.io'') (rate_headroom 0 ex_db (9 / 10) None) = [h]"
    "hr_remaining h = remaining (current_budget 0 ex_db ex_mailbox (9 / 10))" by auto
  ultimately show ?thesis by (intro exI [of _ h]) (simp add: remaining_def current_budget_def)
qed

text \<open>
  What a project reads of volumes depends on its own messages only: two databases with the same
  projects, domains and mailboxes and the same messages of the project give the same totals, slices,
  latency and failures.
\<close>

lemma scoped_rows_own:
  assumes "filter (\<lambda>m. ms_project_id m = p) (messages d) = filter (\<lambda>m. ms_project_id m = p) (messages d')"
  shows "scoped_rows cutoff (Some p) d = scoped_rows cutoff (Some p) d'"
proof -
  have "in_scope cutoff (Some p) = (\<lambda>m. ms_project_id m = p \<and> cutoff \<le> ms_created_at m)"
    by (auto simp: fun_eq_iff in_scope_def)
  then have rows: "scoped_rows cutoff (Some p) e = filter (\<lambda>m. cutoff \<le> ms_created_at m)
      (filter (\<lambda>m. ms_project_id m = p) (messages e))" for e
    by (simp add: scoped_rows_def)
  show ?thesis unfolding rows assms ..
qed

definition same_catalogue :: "db \<Rightarrow> db \<Rightarrow> bool" where
  "same_catalogue d d' = (projects d = projects d' \<and> domains d = domains d' \<and> mailboxes d = mailboxes d')"

definition unscoped_keys :: "string list" where
  "unscoped_keys = [''queue'', ''rate_headroom'']"

text \<open>
  A project's metrics tell nothing about the volumes of another: outside the queue and headroom
  entries, the answer is a function of the project's own messages, whatever the messages of others.
\<close>

theorem project_metrics_are_scoped:
  assumes "filter (\<lambda>m. ms_project_id m = pc_project_id p) (messages d) =
      filter (\<lambda>m. ms_project_id m = pc_project_id p) (messages d')" "same_catalogue d d'"
    and "get_metrics now margin hours1 p d = Inr (answer, e)"
    and "get_metrics now margin hours1 p d' = Inr (answer', e')"
  shows "filter (\<lambda>(k, v). k \<notin> set unscoped_keys) answer = filter (\<lambda>(k, v). k \<notin> set unscoped_keys) answer' \<and>
    e = d \<and> e' = d'"
proof -
  have "project_label d = project_label d'" "domain_label d = domain_label d'"
    using assms(2) by (simp_all add: fun_eq_iff same_catalogue_def project_label_def domain_label_def
        project_of_def mailbox_of_def domain_of_def split: option.split)
  with assms scoped_rows_own [OF assms(1)] show ?thesis
    by (auto simp: get_metrics_def Let_def overview_dict_def build_overview_def unscoped_keys_def)
qed

theorem project_metrics_are_scoped_witness:
  "\<exists>a a'. get_metrics 0 (9 / 10) 24 (ex_principal\<lparr>pc_project_id := 2\<rparr>) ex_db = Inr (a, ex_db) \<and>
     get_metrics 0 (9 / 10) 24 (ex_principal\<lparr>pc_project_id := 2\<rparr>) (ex_db\<lparr>messages := []\<rparr>) =
       Inr (a', ex_db\<lparr>messages := []\<rparr>) \<and>
     filter (\<lambda>(k, v). k \<notin> set unscoped_keys) a = filter (\<lambda>(k, v). k \<notin> set unscoped_keys) a'"
proof -
  let ?p = "ex_principal\<lparr>pc_project_id := 2\<rparr>"
  obtain a e where a: "get_metrics 0 (9 / 10) 24 ?p ex_db = Inr (a, e)"
    by (simp add: get_metrics_def Let_def)
  obtain a' e' where a': "get_metrics 0 (9 / 10) 24 ?p (ex_db\<lparr>messages := []\<rparr>) = Inr (a', e')"
    by (simp add: get_metrics_def Let_def)
  have "filter (\<lambda>m. ms_project_id m = pc_project_id ?p) (messages ex_db) =
      filter (\<lambda>m. ms_project_id m = pc_project_id ?p) (messages (ex_db\<lparr>messages := []\<rparr>))" by simp
  moreover have "same_catalogue ex_db (ex_db\<lparr>messages := []\<rparr>)" by (simp add: same_catalogue_def)
  ultimately show ?thesis using project_metrics_are_scoped [OF _ _ a a'] a a' by auto
qed

text \<open>
  The two entries outside the property: the queue is counted over the whole installation, and the
  headroom lists every idle sender, whichever project it serves, while a sender that only others
  used in the last hour is missing.
\<close>

lemma queue_is_unscoped:
  "ow_requested (build_overview 0 24 margin (Some 2) ex_db) = 0 \<and>
   qh_pending (ow_queue (build_overview 0 24 margin (Some 2) ex_db)) = 1"
  by (simp add: build_overview_def Let_def scoped_rows_def in_scope_def queue_health_def is_pending_def)

lemma idle_senders_are_disclosed:
  "map hr_sender (rate_headroom 0 ex_db margin (Some 2)) = [''no@a.io'']"
  by (simp add: rate_headroom_def mailbox_headroom_def joined_rows_def attempted_since_def
      row_in_project_def headroom_of_def Let_def List.map_filter_def)

lemma busy_senders_are_hidden:
  "rate_headroom 0 (ex_db\<lparr>messages := [ex_message\<lparr>ms_last_attempt_at := Some 0\<rparr>]\<rparr>) margin (Some 2) = []"
  by (simp add: rate_headroom_def mailbox_headroom_def joined_rows_def attempted_since_def
      row_in_project_def Let_def List.map_filter_def hours_def minutes_def seconds_def)

text \<open>The slices of a grouping add up to the rows that have a label.\<close>

lemma sum_label_counts:
  assumes "finite S"
  shows "(\<Sum>l \<in> S. length (filter (\<lambda>r. label r = Some l) rows)) =
    length (filter (\<lambda>r. \<exists>l \<in> S. label r = Some l) rows)"
proof (induction rows)
  case Nil
  then show ?case by simp
next
  case (Cons r rows)
  have "(\<Sum>l \<in> S. if label r = Some l then 1 else 0) = (if \<exists>l \<in> S. label r = Some l then 1 else (0 :: nat))"
  proof (cases "label r")
    case None
    then show ?thesis by simp
  next
    case (Some k)
    with assms show ?thesis by (simp add: sum.delta)
  qed
  moreover have "(\<Sum>l \<in> S. length (filter (\<lambda>r. label r = Some l) (r # rows))) =
      (\<Sum>l \<in> S. (if label r = Some l then 1 else 0) + length (filter (\<lambda>r. label r = Some l) rows))"
    by (intro sum.cong) auto
  ultimately show ?case using Cons by (simp add: sum.distrib)
qed

lemma slices_add_up:
  "sum_list (map vs_requested (volume_by label rows)) = length (filter (\<lambda>r. label r \<noteq> None) rows)"
proof -
  let ?f = "\<lambda>l. length (filter (\<lambda>r. label r = Some l) rows)"
  let ?ls = "List.map_filter label rows"
  have "sum_list (map vs_requested (volume_by label rows)) = sum_list (map ?f (group_labels label rows))"
    by (simp add: volume_by_def Let_def comp_def)
  also have "\<dots> = sum_list (map ?f (remdups ?ls))"
  proof -
    have "mset (map ?f (group_labels label rows)) = mset (map ?f (remdups ?ls))"
      by (simp only: group_labels_def Let_def mset_map mset_sort)
    then show ?thesis by (metis sum_mset_sum_list)
  qed
  also have "\<dots> = sum ?f (set ?ls)" by (simp add: sum.set_conv_list)
  also have "\<dots> = length (filter (\<lambda>r. \<exists>l \<in> set ?ls. label r = Some l) rows)"
    by (intro sum_label_counts) simp
  also have "filter (\<lambda>r. \<exists>l \<in> set ?ls. label r = Some l) rows = filter (\<lambda>r. label r \<noteq> None) rows"
    by (intro filter_cong) (auto simp: List.map_filter_def image_iff)
  finally show ?thesis .
qed

end
