(* ===== verification/Setup_State.thy ===== *)
theory Setup_State
  imports Models Errors
begin

text \<open>
  What the operator should do next (emaild/dashboard/setup_state.py): the action one domain needs,
  the actions of all domains, and the single next step of the installation.  A character outside
  Latin-1 in a text stands as its UTF-8 bytes.
\<close>

section \<open>The next step\<close>

record next_step_row =
  ns_title :: string
  ns_why :: string
  ns_command :: "string option"
  ns_href :: "string option"
  ns_link_label :: "string option"
  ns_done :: bool

definition step_of :: "string \<Rightarrow> string \<Rightarrow> next_step_row" where
  "step_of title why = \<lparr>ns_title = title, ns_why = why, ns_command = None, ns_href = None,
     ns_link_label = None, ns_done = False\<rparr>"

definition with_link :: "string \<Rightarrow> string \<Rightarrow> next_step_row \<Rightarrow> next_step_row" where
  "with_link href label s = s\<lparr>ns_href := Some href, ns_link_label := Some label\<rparr>"

definition why_suspended :: string where
  "why_suspended = ''Suspension is set deliberately and the automatic DNS sweep will '' @
     ''not clear it. Nothing will send from this domain until it is '' @
     ''lifted.''"

definition why_dns :: string where
  "why_dns = ''Receiving servers check DNS to confirm you may send as this domain. '' @
     ''Until those records resolve, mail would be rejected or land in spam, '' @
     ''so emaild will not send at all.''"

definition why_misconfigured :: string where
  "why_misconfigured = ''This domain was working and its DNS no longer checks out, so '' @
     ''something changed outside emaild. Compare the records below '' @
     ''against your registrar.''"

definition why_listed :: string where
  "why_listed = '' They are listed below; re-check once they resolve.''"

definition why_identity :: "string \<Rightarrow> string" where
  "why_identity name =
     ''DNS is complete '' @ [CHR 0xE2, CHR 0x80, CHR 0x94] @ '' this is the last step. A sender identity is '' @
     ''one real address like noreply@'' @ name @ '', an actual '' @
     ''mailbox with its own 400-per-hour budget, and mail can only be '' @
     ''sent from one that exists. It is the one step that cannot be '' @
     ''done here: creating it needs the MXRoute credential, which this '' @
     ''container deliberately does not hold. Run this on the server, '' @
     ''in the directory holding compose.yaml. The domain becomes '' @
     ''ready by itself once it succeeds.''"

definition why_recheck :: string where
  "why_recheck = ''The domain has a sender identity but is still marked verified '' @
     ''rather than ready. One re-check promotes it.''"

definition domain_next_action :: "domain_row \<Rightarrow> bool \<Rightarrow> next_step_row option" where
  "domain_next_action x has_mailbox =
     (if dm_status x = Ready then None
      else if dm_status x = Suspended then
        Some (step_of (dm_name x @ '' is suspended'') why_suspended)
      else if dm_status x \<in> {Added, Dns_Incomplete, Ownership_Pending, Misconfigured} then
        Some (step_of (''Publish the DNS records for '' @ dm_name x)
               ((if dm_status x = Misconfigured then why_misconfigured else why_dns) @ why_listed))
      else if \<not> has_mailbox then
        Some ((step_of (''Create a sender identity on '' @ dm_name x) (why_identity (dm_name x)))
               \<lparr>ns_command := Some (''./appctl admin mailboxes provision noreply@'' @ dm_name x)\<rparr>)
      else Some (with_link ''/domains'' ''Re-check it'' (step_of (''Re-check '' @ dm_name x) why_recheck)))"

definition domains_with_mailbox :: "db \<Rightarrow> nat list" where
  "domains_with_mailbox d = map mb_domain_id (filter mb_active (mailboxes d))"

definition action_in :: "db \<Rightarrow> domain_row \<Rightarrow> next_step_row option" where
  "action_in d x = domain_next_action x (dm_id x \<in> set (domains_with_mailbox d))"

definition domain_actions :: "db \<Rightarrow> (string \<times> next_step_row) list" where
  "domain_actions d =
     foldl (\<lambda>acc x. case action_in d x of None \<Rightarrow> acc | Some a \<Rightarrow> dict_put (dm_name x) a acc)
       [] (domains d)"

section \<open>The installation\<close>

definition step_add_domain :: next_step_row where
  "step_add_domain = with_link ''/domains'' ''Add one'' (step_of ''Add a sending domain''
     (''A domain is the part after the @ in the address you send from. '' @
      ''Adding it registers it with MXRoute and fetches the DNS records '' @
      ''you need to publish.''))"

definition step_identity :: next_step_row where
  "step_identity = (step_of ''Create a sender identity''
     (''A sender identity is one real address like noreply@yourdomain.com. '' @
      ''It is an actual mailbox with its own 400-per-hour budget, and mail '' @
      ''can only be sent from one that exists.''))
     \<lparr>ns_command := Some ''./appctl admin mailboxes provision noreply@yourdomain.com''\<rparr>"

definition step_project :: next_step_row where
  "step_project = with_link ''/keys'' ''Create one'' (step_of ''Create a project''
     (''A project is one of your applications. Grouping keys under a '' @
      ''project is what keeps one app from reading another app'' @ [CHR 39] @ ''s mail '' @
      ''history.''))"

definition step_key :: next_step_row where
  "step_key = with_link ''/keys'' ''Create one'' (step_of ''Create an API key''
     (''A key is the password your application uses to send. It is '' @
      ''restricted to the sender addresses you tick, so a leaked key '' @
      ''can send as those and nothing else.''))"

definition step_test :: next_step_row where
  "step_test = with_link ''/test'' ''Send one'' (step_of ''Send a test message''
     (''Everything is configured. Sending one message to your own inbox '' @
      ''is what proves it: DNS, the sender identity'' @ [CHR 39] @ ''s SMTP credential, '' @
      ''and delivery through MXRoute are all exercised, and any of them '' @
      ''being wrong is much easier to find now than from inside an '' @
      ''application.''))"

definition step_done :: "string \<Rightarrow> next_step_row" where
  "step_done base_url = (with_link ''/integrate'' ''Get the integration brief'' (step_of ''Ready to send''
     (''Point your application at '' @ base_url @ '' and give it a key. It is '' @
      ''wire-compatible with Resend, so a coding assistant already knows '' @
      ''the shape.'')))\<lparr>ns_done := True\<rparr>"

text \<open>The first action of a domain, in the order of the names; one without command or link is linked.\<close>

definition linked_action :: "next_step_row \<Rightarrow> next_step_row" where
  "linked_action a =
     (if ns_command a = None \<and> ns_href a = None then with_link ''/domains'' ''Open domains'' a else a)"

fun first_some :: "('a \<Rightarrow> 'b option) \<Rightarrow> 'a list \<Rightarrow> 'b option" where
  "first_some f [] = None"
| "first_some f (x # xs) = (case f x of Some y \<Rightarrow> Some y | None \<Rightarrow> first_some f xs)"

definition key_usable :: "api_key_row \<Rightarrow> bool" where
  "key_usable k = (ak_active k \<and> ak_revoked_at k = None)"

definition next_step :: "db \<Rightarrow> string \<Rightarrow> next_step_row" where
  "next_step d base_url =
     (if domains d = [] then step_add_domain
      else case first_some (action_in d) (sort_key dm_name (domains d)) of
        Some a \<Rightarrow> linked_action a
      | None \<Rightarrow>
          if count_where (\<lambda>m. True) (mailboxes d) = 0 then step_identity
          else if count_where (\<lambda>p. True) (projects d) = 0 then step_project
          else if count_where key_usable (api_keys d) = 0 then step_key
          else if count_where (\<lambda>m. True) (messages d) = 0 then step_test
          else step_done base_url)"

section \<open>The advice is right\<close>

lemma first_some_None: "first_some f xs = None \<longleftrightarrow> (\<forall>x \<in> set xs. f x = None)"
  by (induction xs) (auto split: option.splits)

lemma first_some_SomeD: "first_some f xs = Some y \<Longrightarrow> \<exists>x \<in> set xs. f x = Some y"
  by (induction xs) (auto split: option.splits)

lemma count_where_zero: "count_where P t = 0 \<longleftrightarrow> (\<forall>r \<in> set t. \<not> P r)"
  by (induction t) auto

lemma action_in_None [simp]: "action_in d x = None \<longleftrightarrow> dm_status x = Ready"
  by (cases "dm_status x") (simp_all add: action_in_def domain_next_action_def)

lemma step_sel [simp]:
  "\<not> ns_done (step_of t w)" "ns_done (with_link h l s) = ns_done s"
  "ns_href (with_link h l s) = Some h" "ns_command (with_link h l s) = ns_command s"
  "ns_command (step_of t w) = None" "ns_href (step_of t w) = None"
  by (simp_all add: step_of_def with_link_def)

lemma action_not_done: "action_in d x = Some a \<Longrightarrow> \<not> ns_done a"
  by (auto simp: action_in_def domain_next_action_def split: if_splits)

lemma linked_action_sel [simp]:
  "ns_done (linked_action a) = ns_done a"
  "(\<exists>c. ns_command (linked_action a) = Some c) \<or> (\<exists>h. ns_href (linked_action a) = Some h)"
  by (auto simp: linked_action_def)

text \<open>
  The dashboard says ``ready to send'' exactly when nothing is missing: every tracked domain is
  ready and there is at least one, and a mailbox, a project, a usable key and a message that went
  through exist.  Whatever it says, it names a page or a command.
\<close>

theorem ready_iff_nothing_missing:
  "(ns_done (next_step d base_url) \<longleftrightarrow>
      domains d \<noteq> [] \<and> list_all (\<lambda>x. dm_status x = Ready) (domains d) \<and> mailboxes d \<noteq> [] \<and>
      projects d \<noteq> [] \<and> list_ex key_usable (api_keys d) \<and> messages d \<noteq> []) \<and>
   (ns_command (next_step d base_url) \<noteq> None \<or> ns_href (next_step d base_url) \<noteq> None)"
proof (cases "first_some (action_in d) (sort_key dm_name (domains d))")
  case None
  then have "list_all (\<lambda>x. dm_status x = Ready) (domains d)"
    by (simp add: first_some_None list_all_iff)
  with None show ?thesis
    by (simp add: next_step_def count_where_zero list_ex_iff step_add_domain_def step_identity_def
        step_project_def step_key_def step_test_def step_done_def)
next
  case (Some a)
  then obtain x where x: "x \<in> set (domains d)" "action_in d x = Some a"
    using first_some_SomeD by fastforce
  then have "domains d \<noteq> []" "\<not> list_all (\<lambda>x. dm_status x = Ready) (domains d)"
    using action_in_None [of d x] by (auto simp: list_all_iff)
  with Some x action_not_done show ?thesis by (simp add: next_step_def)
qed

text \<open>The two views agree: the step is the listed action of the first unready domain by name.\<close>

lemma map_of_replace:
  "map_of (map (\<lambda>(k', v'). (k', if k' = k then v else v')) kvs) j =
     (if j = k \<and> k \<in> fst ` set kvs then Some v else map_of kvs j)"
proof (induction kvs)
  case Nil
  then show ?case by simp
next
  case (Cons p kvs)
  obtain i w where "p = (i, w)" by (cases p)
  with Cons show ?case by (cases "i = j"; cases "j = k") simp_all
qed

lemma map_of_append_new:
  "k \<notin> fst ` set kvs \<Longrightarrow> map_of (kvs @ [(k, v)]) j = (if j = k then Some v else map_of kvs j)"
  by (induction kvs) auto

lemma dict_put_get: "map_of (dict_put k v kvs) j = (if j = k then Some v else map_of kvs j)"
proof (cases "k \<in> fst ` set kvs")
  case True
  then show ?thesis by (simp only: dict_put_def if_True map_of_replace simp_thms)
next
  case False
  then show ?thesis by (simp only: dict_put_def if_False map_of_append_new [OF False])
qed

lemma domain_actions_fold:
  assumes "unique_on dm_name (xs :: domain_row list)" "x \<in> set xs" "action_in d x = Some a"
  shows "map_of (foldl (\<lambda>acc x. case action_in d x of None \<Rightarrow> acc | Some a \<Rightarrow> dict_put (dm_name x) a acc)
     acc xs) (dm_name x) = Some a"
  using assms
proof (induction xs rule: rev_induct)
  case Nil
  then show ?case by simp
next
  case (snoc y xs)
  from snoc.prems(1) have u: "unique_on dm_name xs" and y: "dm_name y \<notin> dm_name ` set xs"
    by (simp_all add: unique_on_append)
  show ?case
  proof (cases "x = y")
    case True
    with snoc.prems(3) show ?thesis by (simp add: dict_put_get)
  next
    case False
    with snoc.prems(2) have "x \<in> set xs" by simp
    with y have "dm_name x \<noteq> dm_name y" by (metis imageI)
    with snoc.IH [OF u \<open>x \<in> set xs\<close> snoc.prems(3)] show ?thesis
      by (cases "action_in d y") (simp_all add: dict_put_get del: action_in_None)
  qed
qed

lemma first_some_least:
  "sorted (map k xs) \<Longrightarrow> first_some f xs = Some y \<Longrightarrow>
   \<exists>x \<in> set xs. f x = Some y \<and> (\<forall>z \<in> set xs. f z \<noteq> None \<longrightarrow> k x \<le> k z)"
proof (induction xs)
  case Nil
  then show ?case by simp
next
  case (Cons x xs)
  then show ?case by (cases "f x") force+
qed

lemma next_step_is_first_action:
  assumes "unique_on dm_name (domains d)" "\<not> list_all (\<lambda>x. dm_status x = Ready) (domains d)"
  shows "\<exists>x a. x \<in> set (domains d) \<and> dm_status x \<noteq> Ready \<and>
    (\<forall>y \<in> set (domains d). dm_status y \<noteq> Ready \<longrightarrow> dm_name x \<le> dm_name y) \<and>
    map_of (domain_actions d) (dm_name x) = Some a \<and> next_step d base_url = linked_action a"
proof -
  obtain a where a: "first_some (action_in d) (sort_key dm_name (domains d)) = Some a"
    using assms(2) by (cases "first_some (action_in d) (sort_key dm_name (domains d))")
      (auto simp: first_some_None list_all_iff)
  from first_some_least [OF sorted_sort_key this]
  obtain x where x: "x \<in> set (domains d)" "action_in d x = Some a"
    and least: "\<forall>z \<in> set (domains d). dm_status z \<noteq> Ready \<longrightarrow> dm_name x \<le> dm_name z"
    unfolding set_sort action_in_None by blast
  from x have "dm_status x \<noteq> Ready" using action_in_None [of d x] by auto
  moreover have "map_of (domain_actions d) (dm_name x) = Some a"
    unfolding domain_actions_def by (rule domain_actions_fold [OF assms(1) x])
  moreover have "next_step d base_url = linked_action a"
    using a x by (auto simp: next_step_def)
  ultimately show ?thesis using x(1) least by blast
qed

end
