(* ===== verification/Startup.thy ===== *)
theory Startup
  imports Config Models
begin

text \<open>
  The start of the API process (emaild/main.py), the identity of the installation
  (emaild/bootstrap.py) and the health endpoints (emaild/health.py).  The random part of a new
  identity, the row a rival process commits meanwhile, the revisions the build ships and the
  answers of the database to a probe are inputs.
\<close>

section \<open>Identity\<close>

definition installation_id_prefix :: string where "installation_id_prefix = ''inst_''"

definition new_installation_id :: "string \<Rightarrow> string" where
  "new_installation_id hex = installation_id_prefix @ hex"

text \<open>\<open>INSERT .. ON CONFLICT (id) DO NOTHING\<close>.\<close>

definition insert_installation :: "installation_row \<Rightarrow> db \<Rightarrow> db" where
  "insert_installation r d =
     (if in_id r \<in> in_id ` set (installation d) then d
      else d\<lparr>installation := installation d @ [r]\<rparr>)"

definition get_installation :: "db \<Rightarrow> installation_row option result" where
  "get_installation d = scalar_one_or_none (installation d)"

text \<open>
  The lookup, the insert and the re-read; \<open>rival\<close> is what another process commits between the
  lookup and the insert.
\<close>

definition ensure_installation ::
    "time \<Rightarrow> string \<Rightarrow> string \<Rightarrow> installation_row option \<Rightarrow> db \<Rightarrow> (string \<times> db) result" where
  "ensure_installation now version hex rival d =
     bind_result (get_installation d) (\<lambda>existing. case existing of
        Some r \<Rightarrow> Inr (in_installation_id r, d)
      | None \<Rightarrow>
          let d1 = (case rival of None \<Rightarrow> d | Some r \<Rightarrow> insert_installation r d);
              d2 = insert_installation \<lparr>in_id = 1, in_installation_id = new_installation_id hex,
                     in_installed_at = now, in_installed_version = version\<rparr> d1
          in bind_result (get_installation d2) (\<lambda>settled. case settled of
               None \<Rightarrow> Inl (Runtime_Error ''NoResultFound'')
             | Some r \<Rightarrow> Inr (in_installation_id r, d2)))"

section \<open>The API process\<close>

text \<open>The lifespan of the application up to its first request.\<close>

definition lifespan ::
    "time \<Rightarrow> string \<Rightarrow> string \<Rightarrow> installation_row option \<Rightarrow> settings \<Rightarrow> db \<Rightarrow> (string \<times> db) result" where
  "lifespan now version hex rival s d =
     (if st_role s \<noteq> Role_Api then
        Inl (Runtime_Error (''emaild.main serves role=api but EMAILD_ROLE='' @ role_value (st_role s)))
      else ensure_installation now version hex rival d)"

text \<open>\<open>session_scope\<close>: the block's changes are kept when it returns and dropped when it raises.\<close>

definition session_scope :: "('d \<Rightarrow> ('a \<times> 'd) result) \<Rightarrow> 'd \<Rightarrow> 'a result \<times> 'd" where
  "session_scope body d = (case body d of Inl e \<Rightarrow> (Inl e, d) | Inr (x, d') \<Rightarrow> (Inr x, d'))"

section \<open>Health\<close>

definition current_schema_version :: nat where "current_schema_version = 2"
definition min_schema_version :: nat where "min_schema_version = 1"
definition max_schema_version :: nat where "max_schema_version = 2"

definition classify_schema :: "string option \<Rightarrow> string option \<Rightarrow> string list \<Rightarrow> string" where
  "classify_schema applied head known = (case applied of
       None \<Rightarrow> ''no_migrations_applied''
     | Some a \<Rightarrow> (case head of
           None \<Rightarrow> ''unverifiable''
         | Some h \<Rightarrow> if a = h then ''ok''
                     else if a \<notin> set known then ''schema_ahead_of_application''
                     else ''migrations_pending''))"

definition live :: "(string \<times> string) list" where
  "live = [(''status'', ''alive'')]"

record readiness =
  rd_code :: nat
  rd_status :: string
  rd_checks :: "(string \<times> string) list"

text \<open>
  \<open>reachable\<close>: the probe query answered; \<open>applied\<close>: the revision read from the database, or the
  exception that reading it, or the shipped revisions, raised.
\<close>

definition ready :: "bool \<Rightarrow> string option \<times> string list \<Rightarrow> string option result \<Rightarrow> readiness" where
  "ready reachable shipped applied =
     (if \<not> reachable then
        \<lparr>rd_code = 503, rd_status = ''not_ready'',
         rd_checks = [(''database'', ''unavailable''), (''schema'', ''unknown'')]\<rparr>
      else
        let schema = (case applied of Inl e \<Rightarrow> ''unknown''
               | Inr a \<Rightarrow> classify_schema a (fst shipped) (snd shipped));
            healthy = (case applied of Inl e \<Rightarrow> False | Inr a \<Rightarrow> schema \<in> {''ok'', ''unverifiable''})
        in \<lparr>rd_code = (if healthy then 200 else 503),
            rd_status = (if healthy then ''ready'' else ''not_ready''),
            rd_checks = [(''database'', ''ok''), (''schema'', schema)]\<rparr>)"

definition version_view :: "string \<Rightarrow> string \<Rightarrow> string \<Rightarrow> settings \<Rightarrow> (string \<times> json) list" where
  "version_view version commit build_time s =
     [(''application'', JStr ''emaild''), (''version'', JStr version), (''commit'', JStr commit),
      (''build_time'', JStr build_time), (''schema_version'', JInt (int current_schema_version)),
      (''supported_schema'', JObj [(''min'', JInt (int min_schema_version)),
         (''max'', JInt (int max_schema_version))]),
      (''role'', JStr (role_value (st_role s))), (''environment'', JStr (environment_value (st_env s)))]"

section \<open>One identity, for good\<close>

lemma get_installation_ok:
  assumes "installation_ok d"
  shows "get_installation d = Inr (case installation d of [] \<Rightarrow> None | r # rs \<Rightarrow> Some r)"
  using installation_single [OF assms]
  by (cases "installation d") (auto simp: get_installation_def scalar_one_or_none_def)

lemma insert_installation_ok:
  "installation_ok d \<Longrightarrow> in_id r = 1 \<Longrightarrow> installation_ok (insert_installation r d)"
  by (auto simp: insert_installation_def installation_ok_def unique_on_def)

lemma insert_installation_some:
  "in_id r \<in> in_id ` set (installation (insert_installation r d))"
  by (simp add: insert_installation_def)

text \<open>
  An installation has one identity and keeps it: the start of a process ends with exactly one
  identity row, whatever another process commits meanwhile; it reports that row's id, keeps a row that
  was there, and every later start, of any process, reports the same id and changes nothing.
\<close>

theorem installation_identity_is_stable:
  assumes "installation_ok d" "\<And>r. rival = Some r \<Longrightarrow> in_id r = 1"
  shows "\<exists>i d' r. ensure_installation now version hex rival d = Inr (i, d') \<and> installation d' = [r] \<and>
    in_installation_id r = i \<and> installation_ok d' \<and> (installation d \<noteq> [] \<longrightarrow> d' = d) \<and>
    ensure_installation later version' hex' rival' d' = Inr (i, d')"
proof -
  have again: "ensure_installation later version' hex' rival' e = Inr (in_installation_id r, e)"
    if "installation e = [r]" for e r
    using that by (simp add: ensure_installation_def get_installation_def scalar_one_or_none_def)
  show ?thesis
  proof (cases "installation d")
    case (Cons r rs)
    with installation_single [OF assms(1)] have "installation d = [r]" by simp
    with assms(1) again show ?thesis
      by (intro exI [of _ "in_installation_id r"] exI [of _ d] exI [of _ r])
        (simp add: ensure_installation_def get_installation_def scalar_one_or_none_def)
  next
    case Nil
    define row where "row = \<lparr>in_id = 1, in_installation_id = new_installation_id hex,
      in_installed_at = now, in_installed_version = version\<rparr>"
    define d1 where "d1 = (case rival of None \<Rightarrow> d | Some r \<Rightarrow> insert_installation r d)"
    define d2 where "d2 = insert_installation row d1"
    have "installation_ok d1"
      using assms insert_installation_ok by (auto simp: d1_def split: option.split)
    then have ok: "installation_ok d2" by (simp add: d2_def row_def insert_installation_ok)
    moreover have "installation d2 \<noteq> []" using insert_installation_some [of row d1] by (auto simp: d2_def)
    ultimately obtain r where r: "installation d2 = [r]"
      using installation_single [OF ok] by (cases "installation d2") auto
    have "get_installation d = Inr None" "get_installation d2 = Inr (Some r)"
      using Nil r by (simp_all add: get_installation_def scalar_one_or_none_def)
    then have "ensure_installation now version hex rival d = Inr (in_installation_id r, d2)"
      unfolding ensure_installation_def Let_def d1_def [symmetric] row_def [symmetric] d2_def [symmetric]
      by simp
    with r ok Nil again show ?thesis by blast
  qed
qed

theorem installation_identity_is_stable_witness:
  "\<exists>i d' r. ensure_installation 0 ''1'' ''ab'' None empty_db = Inr (i, d') \<and> installation d' = [r]"
proof -
  have "installation_ok empty_db" by (simp add: installation_ok_def empty_db_def unique_on_def)
  from installation_identity_is_stable [OF this, of None 0 "''1''" "''ab''"] show ?thesis by blast
qed

text \<open>A process is ready only with a reachable database whose schema it knows to be its own.\<close>

lemma ready_iff:
  "rd_code (ready reachable shipped applied) = 200 \<longleftrightarrow>
     reachable \<and> (\<exists>a. applied = Inr (Some a) \<and> (fst shipped = None \<or> fst shipped = Some a))"
  by (auto simp: ready_def Let_def classify_schema_def split: sum.split option.split)

end
