(* ===== verification/Dashboard.thy ===== *)
theory Dashboard
  imports Config
begin

text \<open>
  The machinery of the dashboard's pages: authentication (emaild/dashboard/auth.py), protection
  against cross-site requests (emaild/dashboard/csrf.py), and forms with their one-shot values
  (emaild/dashboard/forms.py).  Base64, URL parsing, the keyed hash and the random handles are
  parameters or inputs; a request is its headers, by lower-case name.
\<close>

section \<open>Authentication\<close>

text \<open>\<open>hmac.compare_digest\<close> of two strings, which must be ASCII.\<close>

definition is_ascii :: "string \<Rightarrow> bool" where
  "is_ascii s = list_all (\<lambda>c. ord c < 128) s"

definition compare_digest :: "string \<Rightarrow> string \<Rightarrow> bool result" where
  "compare_digest a b =
     (if is_ascii a \<and> is_ascii b then Inr (a = b)
      else Inl (Type_Error ''comparing strings with non-ASCII characters is not supported''))"

type_synonym headers = "(string \<times> string) list"

definition header :: "headers \<Rightarrow> string \<Rightarrow> string option" where
  "header h name = map_of h name"

definition unauthorised :: nat where "unauthorised = 401"

text \<open>
  \<open>decode\<close> is \<open>b64decode\<close> followed by the decoding of the bytes; \<open>None\<close> is its exception.  The
  result is the status of the refusal, or nothing.
\<close>

definition check_dashboard_auth ::
    "(string \<Rightarrow> string option) \<Rightarrow> headers \<Rightarrow> settings \<Rightarrow> nat option result" where
  "check_dashboard_auth decode h s =
     (if \<not> truthy_str (st_dashboard_token s) then Inr None
      else case partition_at (CHR '' '') (or_empty (header h ''authorization'')) of
        (scheme, _, encoded) \<Rightarrow>
          if py_lower scheme \<noteq> ''basic'' \<or> encoded = [] then Inr (Some unauthorised)
          else (case decode encoded of
              None \<Rightarrow> Inr (Some unauthorised)
            | Some decoded \<Rightarrow>
                bind_result (compare_digest (snd (snd (partition_at (CHR '':'') decoded)))
                               (or_empty (st_dashboard_token s)))
                  (\<lambda>same. Inr (if same then None else Some unauthorised))))"

section \<open>Cross-site requests\<close>

definition derivation_label :: string where "derivation_label = ''emaild-dashboard-csrf-v1''"

definition issue_token :: "(string \<Rightarrow> string \<Rightarrow> string) \<Rightarrow> string \<Rightarrow> settings \<Rightarrow> string" where
  "issue_token hmac process_secret s =
     hmac (if truthy_str (st_dashboard_token s) then or_empty (st_dashboard_token s) else process_secret)
       derivation_label"

definition str_or :: "string option \<Rightarrow> string option \<Rightarrow> string option" where
  "str_or a b = (if truthy_str a then a else b)"

definition origin_is_same :: "(string \<Rightarrow> string) \<Rightarrow> headers \<Rightarrow> bool" where
  "origin_is_same netloc h =
     (let stated = str_or (header h ''origin'') (header h ''referer'') in
      if \<not> truthy_str stated then True
      else if \<not> truthy_str (header h ''host'') then False
      else netloc (or_empty stated) = or_empty (header h ''host''))"

definition msg_other_site :: string where
  "msg_other_site = ''This request came from another site. If you reached this page from '' @
     ''a link somewhere else, open the dashboard directly and try again.''"

definition msg_expired_form :: string where
  "msg_expired_form = ''This form has expired or was not submitted from the dashboard. '' @
     ''Reload the page and try again.''"

definition verify ::
    "(string \<Rightarrow> string \<Rightarrow> string) \<Rightarrow> (string \<Rightarrow> string) \<Rightarrow> string \<Rightarrow> headers \<Rightarrow> string option \<Rightarrow> settings \<Rightarrow>
     string option result" where
  "verify hmac netloc process_secret h submitted s =
     (if \<not> origin_is_same netloc h then Inr (Some msg_other_site)
      else if \<not> truthy_str submitted then Inr (Some msg_expired_form)
      else bind_result (compare_digest (or_empty submitted) (issue_token hmac process_secret s))
             (\<lambda>same. Inr (if same then None else Some msg_expired_form)))"

section \<open>Forms\<close>

text \<open>The fields in the order of their first occurrence, each with all its values.\<close>

definition add_value :: "(string \<times> string list) list \<Rightarrow> string \<times> string \<Rightarrow> (string \<times> string list) list" where
  "add_value form kv = (case kv of (k, v) \<Rightarrow>
     dict_put k ((case dict_get form k of None \<Rightarrow> [] | Some vs \<Rightarrow> vs) @ [v]) form)"

definition parse_form :: "(string \<times> string) list \<Rightarrow> (string \<times> string list) list" where
  "parse_form pairs = foldl add_value [] pairs"

definition form_values :: "(string \<times> string list) list \<Rightarrow> string \<Rightarrow> string list" where
  "form_values form field = (case dict_get form field of None \<Rightarrow> [] | Some vs \<Rightarrow> vs)"

definition form_one :: "(string \<times> string list) list \<Rightarrow> string \<Rightarrow> string" where
  "form_one form field = (case form_values form field of [] \<Rightarrow> [] | v # _ \<Rightarrow> py_strip v)"

definition form_many :: "(string \<times> string list) list \<Rightarrow> string \<Rightarrow> string list" where
  "form_many form field = map py_strip (filter (\<lambda>v. py_strip v \<noteq> []) (form_values form field))"

section \<open>One-shot values\<close>

definition ttl_seconds :: time where "ttl_seconds = seconds 120"

type_synonym 'p one_shot = "(string \<times> time \<times> 'p) list"

definition expire :: "time \<Rightarrow> 'p one_shot \<Rightarrow> 'p one_shot" where
  "expire now store = filter (\<lambda>(h, expires, p). \<not> expires < now) store"

definition stash :: "time \<Rightarrow> time \<Rightarrow> string \<Rightarrow> 'p \<Rightarrow> 'p one_shot \<Rightarrow> string \<times> 'p one_shot" where
  "stash now stored_at handle p store =
     (handle, dict_put handle (stored_at + ttl_seconds, p) (expire now store))"

definition take_value :: "time \<Rightarrow> string option \<Rightarrow> 'p one_shot \<Rightarrow> 'p option \<times> 'p one_shot" where
  "take_value now handle store =
     (if \<not> truthy_str handle then (None, store)
      else
        let live = expire now store; k = or_empty handle
        in (map_option snd (dict_get live k), filter (\<lambda>(h, e). h \<noteq> k) live))"

text \<open>The operations of the store, as the requests of a process run them.\<close>

datatype 'p operation = Stash time time string 'p | Take time "string option"

fun run_operation :: "'p operation \<Rightarrow> 'p one_shot \<Rightarrow> 'p option \<times> 'p one_shot" where
  "run_operation (Stash now stored_at handle p) store = (None, snd (stash now stored_at handle p store))"
| "run_operation (Take now handle) store = take_value now handle store"

fun run_operations :: "'p operation list \<Rightarrow> 'p one_shot \<Rightarrow> 'p option list \<times> 'p one_shot" where
  "run_operations [] store = ([], store)"
| "run_operations (x # xs) store =
     (case run_operation x store of (r, store') \<Rightarrow>
        (case run_operations xs store' of (rs, store'') \<Rightarrow> (r # rs, store'')))"

fun stashed_handle :: "'p operation \<Rightarrow> string option" where
  "stashed_handle (Stash _ _ h _) = Some h"
| "stashed_handle (Take _ _) = None"

section \<open>A value is read at most once\<close>

lemma expire_absent: "h \<notin> fst ` set store \<Longrightarrow> h \<notin> fst ` set (expire now store)"
  by (auto simp: expire_def)

lemma dict_put_keys: "fst ` set (dict_put k v kvs) = insert k (fst ` set kvs)"
  by (auto simp: dict_put_def image_iff split: if_splits) force+

lemma run_operation_absent:
  assumes "h \<notin> fst ` set store" "stashed_handle x \<noteq> Some h"
  shows "h \<notin> fst ` set (snd (run_operation x store))"
    and "x = Take now (Some h) \<Longrightarrow> fst (run_operation x store) = None"
proof -
  show "h \<notin> fst ` set (snd (run_operation x store))"
    using assms expire_absent [OF assms(1)]
    by (cases x) (auto simp: stash_def dict_put_keys take_value_def Let_def)
  show "x = Take now (Some h) \<Longrightarrow> fst (run_operation x store) = None"
    using expire_absent [OF assms(1), of now]
    by (auto simp: take_value_def Let_def dict_get_def or_empty_def map_of_eq_None_iff)
qed

lemma run_operations_absent:
  assumes "h \<notin> fst ` set store" "\<forall>x \<in> set xs. stashed_handle x \<noteq> Some h"
  shows "\<forall>i < length xs. (\<exists>now. xs ! i = Take now (Some h)) \<longrightarrow> fst (run_operations xs store) ! i = None"
  using assms
proof (induction xs arbitrary: store)
  case Nil
  then show ?case by simp
next
  case (Cons x xs)
  have x: "stashed_handle x \<noteq> Some h" using Cons.prems(2) by simp
  have later: "\<forall>i < length xs. (\<exists>now. xs ! i = Take now (Some h)) \<longrightarrow>
      fst (run_operations xs (snd (run_operation x store))) ! i = None"
    using Cons.prems(2) by (intro Cons.IH run_operation_absent(1) [OF Cons.prems(1) x]) simp
  show ?case
  proof (intro allI impI)
    fix i assume "i < length (x # xs)" "\<exists>now. (x # xs) ! i = Take now (Some h)"
    with later run_operation_absent(2) [OF Cons.prems(1) x] show
      "fst (run_operations (x # xs) store) ! i = None"
      by (cases i) (auto split: prod.splits)
  qed
qed

lemma take_removes: "h \<notin> fst ` set (snd (take_value now (Some h) store))" if "h \<noteq> []"
  using that by (auto simp: take_value_def Let_def truthy_str_def or_empty_def)

lemma run_operations_append:
  "run_operations (xs @ ys) store =
     (case run_operations xs store of (rs, store') \<Rightarrow>
        (case run_operations ys store' of (qs, store'') \<Rightarrow> (rs @ qs, store'')))"
  by (induction xs arbitrary: store) (auto split: prod.splits)

lemma length_run_operations [simp]: "length (fst (run_operations xs store)) = length xs"
proof (induction xs arbitrary: store)
  case Nil
  then show ?case by simp
next
  case (Cons x xs)
  obtain r s1 where x: "run_operation x store = (r, s1)" by (cases "run_operation x store")
  obtain rs s2 where xs: "run_operations xs s1 = (rs, s2)" by (cases "run_operations xs s1")
  from Cons [of s1] x xs show ?case by simp
qed

text \<open>What was stored is read within its time, and is gone then.\<close>

lemma map_of_dict_put: "map_of (dict_put h v kvs) h = Some v"
proof (cases "h \<in> fst ` set kvs")
  case True
  then have "map_of (map (\<lambda>(k', v'). (k', if k' = h then v else v')) kvs) h = Some v"
    by (induction kvs) auto
  with True show ?thesis by (simp add: dict_put_def)
next
  case False
  then show ?thesis by (induction kvs) (auto simp: dict_put_def)
qed

lemma expire_keeps:
  "map_of kvs h = Some v \<Longrightarrow> \<not> fst v < now \<Longrightarrow> map_of (expire now kvs) h = Some v"
  by (induction kvs) (auto simp: expire_def split: if_splits)

lemma take_stashed:
  assumes "h \<noteq> []" "later \<le> stored_at + ttl_seconds"
  shows "fst (take_value later (Some h) (snd (stash now stored_at h p store))) = Some p"
    and "fst (take_value again (Some h) (snd (take_value later (Some h) (snd (stash now stored_at h p store))))) = None"
proof -
  have "map_of (expire later (dict_put h (stored_at + ttl_seconds, p) (expire now store))) h =
      Some (stored_at + ttl_seconds, p)"
    using assms(2) by (intro expire_keeps map_of_dict_put) simp
  then show "fst (take_value later (Some h) (snd (stash now stored_at h p store))) = Some p"
    using assms(1) by (simp add: take_value_def stash_def truthy_str_def or_empty_def Let_def dict_get_def)
  show "fst (take_value again (Some h) (snd (take_value later (Some h) (snd (stash now stored_at h p store))))) = None"
    using run_operation_absent(2) [OF take_removes [OF assms(1)], where x = "Take again (Some h)" and now = again]
    by simp
qed

text \<open>
  A one-shot value (the plaintext of a new key) is shown once: it can be read until its time has
  run out, and in any sequence of requests a handle that has been read gives nothing to any later
  read, unless a new value is stored under it.
\<close>

theorem one_shot_read_once:
  assumes "h \<noteq> []"
  shows "(later \<le> stored_at + ttl_seconds \<longrightarrow>
      fst (take_value later (Some h) (snd (stash now stored_at h p store))) = Some p) \<and>
    ((\<forall>x \<in> set ys. stashed_handle x \<noteq> Some h) \<longrightarrow> i < length ys \<longrightarrow> ys ! i = Take again (Some h) \<longrightarrow>
      fst (run_operations (xs @ Take later (Some h) # ys) store) ! (length xs + 1 + i) = None)"
proof (intro conjI impI)
  assume "later \<le> stored_at + ttl_seconds"
  with assms show "fst (take_value later (Some h) (snd (stash now stored_at h p store))) = Some p"
    by (rule take_stashed)
next
  assume ys: "\<forall>x \<in> set ys. stashed_handle x \<noteq> Some h" "i < length ys" "ys ! i = Take again (Some h)"
  obtain rs s1 where xs: "run_operations xs store = (rs, s1)" by (cases "run_operations xs store")
  let ?s2 = "snd (take_value later (Some h) s1)"
  have len: "length rs = length xs" using length_run_operations [of xs store] xs by simp
  have "fst (run_operations ys ?s2) ! i = None"
    using run_operations_absent [OF take_removes [OF assms] ys(1)] ys(2,3) by blast
  moreover have "fst (run_operations (xs @ Take later (Some h) # ys) store) =
      rs @ fst (take_value later (Some h) s1) # fst (run_operations ys ?s2)"
    by (simp add: run_operations_append xs split: prod.splits)
  ultimately show "fst (run_operations (xs @ Take later (Some h) # ys) store) ! (length xs + 1 + i) = None"
    using len by (simp add: nth_append)
qed

text \<open>The comparison raises on a character outside ASCII: such credentials are an internal error.\<close>

lemma non_ascii_password_raises:
  "check_dashboard_auth (\<lambda>e. Some (''u:'' @ [CHR 0xE9])) [(''authorization'', ''Basic x'')]
     (s\<lparr>st_dashboard_token := Some ''t''\<rparr>) =
   Inl (Type_Error ''comparing strings with non-ASCII characters is not supported'')"
proof -
  have "partition_at (CHR '' '') ''Basic x'' = (''Basic'', '' '', ''x'')"
    "partition_at (CHR '':'') (''u:'' @ [CHR 0xE9]) = (''u'', '':'', [CHR 0xE9])"
    "py_lower ''Basic'' = ''basic''" "\<not> is_ascii [CHR 0xE9]" by code_simp+
  then show ?thesis
    by (simp add: check_dashboard_auth_def truthy_str_def or_empty_def header_def compare_digest_def)
qed

theorem one_shot_read_once_witness:
  "fst (run_operations [Take (0 :: time) (Some ''a''), Take 1 (Some ''a'')] [(''a'', 5, ''key'')]) = [Some ''key'', None]"
proof -
  have "fst (run_operations ([] @ Take 0 (Some ''a'') # [Take 1 (Some ''a'')]) [(''a'', 5, ''key'')])
      ! (length ([] :: string operation list) + 1 + 0) = None"
    using one_shot_read_once [of "''a''" 0 0 0 "''k''" "[(''a'', 5, ''key'')]" "[Take 1 (Some ''a'')]" 0 1 "[]"] by simp
  then show ?thesis
    by (simp add: take_value_def truthy_str_def or_empty_def expire_def dict_get_def split: prod.splits)
qed

section \<open>What a mutation needs\<close>

text \<open>
  A page that changes something needs the dashboard's own form: with a dashboard password set, a
  request is let through only with the password in its Basic credentials, and a form only with the
  token derived from the password and, if it states where it comes from, from the same host.
\<close>

theorem mutation_needs_password_and_token:
  assumes "st_dashboard_token s = Some t" "t \<noteq> []"
    and "check_dashboard_auth decode h s = Inr None" "verify hmac netloc secret h submitted s = Inr None"
  shows "(\<exists>scheme sep encoded decoded user colon. partition_at (CHR '' '') (or_empty (header h ''authorization'')) =
        (scheme, sep, encoded) \<and> py_lower scheme = ''basic'' \<and> decode encoded = Some decoded \<and>
        partition_at (CHR '':'') decoded = (user, colon, t)) \<and>
    submitted = Some (hmac t derivation_label) \<and>
    (let stated = str_or (header h ''origin'') (header h ''referer'') in
       truthy_str stated \<longrightarrow> header h ''host'' = Some (netloc (or_empty stated)))"
proof -
  obtain scheme sep encoded where p: "partition_at (CHR '' '') (or_empty (header h ''authorization'')) = (scheme, sep, encoded)"
    by (cases "partition_at (CHR '' '') (or_empty (header h ''authorization''))")
  with assms obtain decoded where d: "py_lower scheme = ''basic''" "decode encoded = Some decoded"
      "compare_digest (snd (snd (partition_at (CHR '':'') decoded))) t = Inr True"
    by (auto simp: check_dashboard_auth_def truthy_str_def or_empty_def bind_result_eq_Inr
        split: if_splits option.splits)
  obtain user colon x where x: "partition_at (CHR '':'') decoded = (user, colon, x)"
    by (cases "partition_at (CHR '':'') decoded")
  with d(3) have "x = t" by (simp add: compare_digest_def split: if_splits)
  moreover have "submitted = Some (hmac t derivation_label)"
    using assms by (auto simp: verify_def bind_result_eq_Inr compare_digest_def issue_token_def truthy_str_def
        or_empty_def split: if_splits option.splits)
  moreover have "origin_is_same netloc h" using assms(4) by (auto simp: verify_def split: if_splits)
  then have "let stated = str_or (header h ''origin'') (header h ''referer'') in
      truthy_str stated \<longrightarrow> header h ''host'' = Some (netloc (or_empty stated))"
    by (auto simp: origin_is_same_def Let_def truthy_str_def or_empty_def split: if_splits option.splits)
  ultimately show ?thesis using p d x by blast
qed

theorem mutation_needs_password_and_token_witness:
  "Some ''t#emaild-dashboard-csrf-v1'' = Some ((\<lambda>k m. k @ ''#'' @ m) ''t'' derivation_label)"
proof -
  let ?s = "(default_settings ''d'')\<lparr>st_dashboard_token := Some ''t''\<rparr>"
  let ?h = "[(''authorization'', ''Basic x'')]"
  let ?hmac = "\<lambda>k m. k @ ''#'' @ m"
  have parts: "partition_at (CHR '' '') ''Basic x'' = (''Basic'', '' '', ''x'')"
    "partition_at (CHR '':'') ''u:t'' = (''u'', '':'', ''t'')" "py_lower ''Basic'' = ''basic''"
    "is_ascii ''t''" "is_ascii ''t#emaild-dashboard-csrf-v1''" by code_simp+
  then have a: "check_dashboard_auth (\<lambda>e. Some ''u:t'') ?h ?s = Inr None"
    by (simp add: check_dashboard_auth_def truthy_str_def or_empty_def header_def compare_digest_def)
  have v: "verify ?hmac (\<lambda>u. u) ''p'' ?h (Some ''t#emaild-dashboard-csrf-v1'') ?s = Inr None"
    using parts by (simp add: verify_def origin_is_same_def str_or_def header_def truthy_str_def or_empty_def
        compare_digest_def issue_token_def derivation_label_def)
  have "st_dashboard_token ?s = Some ''t''" by simp
  from mutation_needs_password_and_token [OF this _ a v] show ?thesis by blast
qed

end
