(* ===== verification/Routes.thy ===== *)
theory Routes
  imports Testsend Jobs Management Metrics Setup_State Startup Dashboard
begin

text \<open>
  The forms of the dashboard (emaild/dashboard/routes.py, the POST handlers).  A handler takes what the
  process and the libraries supply (\<open>page_env\<close>), the request and the state, which is the database and
  the store of one-shot values; it returns a response, or an exception, which the framework answers
  with 500.  The pages, which only read, are in the theory \<open>Pages\<close>.
\<close>

section \<open>Requests and state\<close>

type_synonym form = "(string \<times> string list) list"

record http_request =
  hr_headers :: headers
  hr_scheme :: string
  hr_base_url :: string
  hr_flash :: "string option"
  hr_pairs :: "(string \<times> string) list"

type_synonym flash = "(string \<times> string option) list"

record app_state =
  as_db :: db
  as_shots :: "flash one_shot"

record page_env =
  pe_settings :: settings
  pe_decode :: "string \<Rightarrow> string option"
  pe_hmac :: "string \<Rightarrow> string \<Rightarrow> string"
  pe_netloc :: "string \<Rightarrow> string"
  pe_process_secret :: string
  pe_hash :: "string \<Rightarrow> string"
  pe_pydantic :: pydantic
  pe_now :: time
  pe_clock :: time
  pe_stored_at :: time
  pe_handle :: string
  pe_urlsafe :: string
  pe_ulid :: string
  pe_lost_race :: bool
  pe_rival :: "suppression_row option"

datatype response = Refused nat | See_Other string

definition py_guard :: "page_env \<Rightarrow> http_request \<Rightarrow> nat option result" where
  "py_guard env rq =
     (if \<not> st_dashboard_enabled (pe_settings env) then Inr (Some 404)
      else check_dashboard_auth (pe_decode env) (hr_headers rq) (pe_settings env))"

definition mutation_guard :: "page_env \<Rightarrow> http_request \<Rightarrow> nat option result" where
  "mutation_guard env rq = bind_result (py_guard env rq) (\<lambda>refused. Inr refused)"

text \<open>\<open>_back\<close>: the payload is stored under a fresh handle and the browser is sent to read it.\<close>

definition back_to :: "page_env \<Rightarrow> string \<Rightarrow> flash \<Rightarrow> app_state \<Rightarrow> response result \<times> app_state" where
  "back_to env path payload st =
     (case stash (pe_clock env) (pe_stored_at env) (pe_handle env) payload (as_shots st) of
        (h, store) \<Rightarrow> (Inr (See_Other (path @ ''?f='' @ h)), st\<lparr>as_shots := store\<rparr>))"

definition ok_payload :: "string \<Rightarrow> flash" where
  "ok_payload m = [(''ok'', Some m), (''error'', None)]"

definition error_payload :: "string \<Rightarrow> flash" where
  "error_payload m = [(''ok'', None), (''error'', Some m)]"

definition csrf_field :: string where "csrf_field = ''csrf_token''"

definition reject_bad_csrf ::
    "page_env \<Rightarrow> http_request \<Rightarrow> form \<Rightarrow> string \<Rightarrow> app_state \<Rightarrow> response option result \<times> app_state" where
  "reject_bad_csrf env rq form path st =
     bind_state (verify (pe_hmac env) (pe_netloc env) (pe_process_secret env) (hr_headers rq)
        (Some (form_one form csrf_field)) (pe_settings env), st) (\<lambda>reason st.
       case reason of
         None \<Rightarrow> (Inr None, st)
       | Some m \<Rightarrow> bind_state (back_to env path (error_payload m) st) (\<lambda>r st. (Inr (Some r), st)))"

text \<open>The URL an application should call: the Host header, or the URL of the request itself.\<close>

definition base_url_of :: "http_request \<Rightarrow> string" where
  "base_url_of rq =
     (if \<not> truthy_str (header (hr_headers rq) ''host'') then rstrip_chars ''/'' (hr_base_url rq)
      else or_empty (str_or (header (hr_headers rq) ''x-forwarded-proto'') (Some (hr_scheme rq))) @
        ''://'' @ or_empty (header (hr_headers rq) ''host''))"

section \<open>Forms\<close>

text \<open>How every form handler begins: authentication, the form, its token.\<close>

definition mutation ::
    "page_env \<Rightarrow> http_request \<Rightarrow> string \<Rightarrow> (form \<Rightarrow> app_state \<Rightarrow> response result \<times> app_state) \<Rightarrow>
     app_state \<Rightarrow> response result \<times> app_state" where
  "mutation env rq path body st =
     bind_state (mutation_guard env rq, st) (\<lambda>refused st. case refused of
       Some code \<Rightarrow> (Inr (Refused code), st)
     | None \<Rightarrow>
         let form = parse_form (hr_pairs rq) in
         bind_state (reject_bad_csrf env rq form path st) (\<lambda>bad st. case bad of
           Some r \<Rightarrow> (Inr r, st)
         | None \<Rightarrow> body form st))"

text \<open>
  How it goes on: the operation in a session of its own.  An exception of the caught kind is a
  message for the page; the handler returns from inside the session, which commits what there is (the
  operations raise it before they write).  Any other exception rolls back and is the caller's.
\<close>

definition catching :: "(exn \<Rightarrow> bool) \<Rightarrow> (db \<Rightarrow> ('a \<times> db) result) \<Rightarrow> db \<Rightarrow> ((string + 'a) \<times> db) result" where
  "catching caught act d = (case act d of
       Inr (x, d') \<Rightarrow> Inr (Inr x, d')
     | Inl e \<Rightarrow> if caught e then Inr (Inl (exn_text e), d) else Inl e)"

definition perform ::
    "page_env \<Rightarrow> string \<Rightarrow> (exn \<Rightarrow> bool) \<Rightarrow> (db \<Rightarrow> ('a \<times> db) result) \<Rightarrow>
     ('a \<Rightarrow> app_state \<Rightarrow> response result \<times> app_state) \<Rightarrow> app_state \<Rightarrow> response result \<times> app_state" where
  "perform env path caught act done_with st =
     (case session_scope (catching caught act) (as_db st) of (r, d) \<Rightarrow>
        bind_state (r, st\<lparr>as_db := d\<rparr>) (\<lambda>outcome st. case outcome of
          Inl m \<Rightarrow> back_to env path (error_payload m) st
        | Inr x \<Rightarrow> done_with x st))"

definition is_management_error :: "exn \<Rightarrow> bool" where
  "is_management_error e = (case e of Management_Error _ \<Rightarrow> True | _ \<Rightarrow> False)"

definition is_send_refused :: "exn \<Rightarrow> bool" where
  "is_send_refused e = (case e of Send_Refused _ \<Rightarrow> True | _ \<Rightarrow> False)"

definition is_invalid_address :: "exn \<Rightarrow> bool" where
  "is_invalid_address e = (case e of Invalid_Address _ \<Rightarrow> True | _ \<Rightarrow> False)"

definition domains_add :: "page_env \<Rightarrow> http_request \<Rightarrow> app_state \<Rightarrow> response result \<times> app_state" where
  "domains_add env rq = mutation env rq ''/domains'' (\<lambda>form.
     perform env ''/domains'' is_job_error
       (enqueue (pe_now env) Add_Domain [(''domain'', JStr (form_one form ''domain''))] ''dashboard'')
       (\<lambda>_. back_to env ''/domains'' (ok_payload (''Queued. It runs on the server within a few seconds '' @
          em_dash @ '' refresh to see the result.''))))"

definition domains_verify :: "page_env \<Rightarrow> http_request \<Rightarrow> app_state \<Rightarrow> response result \<times> app_state" where
  "domains_verify env rq = mutation env rq ''/domains'' (\<lambda>form.
     let domain = form_one form ''domain'' in
     perform env ''/domains'' is_job_error
       (enqueue (pe_now env) Verify_Domain [(''domain'', JStr domain)] ''dashboard'')
       (\<lambda>_. back_to env ''/domains'' (ok_payload (''Re-checking '' @ domain @ '' '' @ em_dash @
          '' refresh in a moment.''))))"

definition created_payload :: "string \<Rightarrow> string \<Rightarrow> string list \<Rightarrow> flash" where
  "created_payload name plaintext scoped = ok_payload (''Created key '' @ in_quotes name @ ''.'') @
     [(''secret'', Some plaintext), (''secret_label'', Some (''Scoped to '' @ py_join '', '' scoped))]"

definition keys_create :: "page_env \<Rightarrow> http_request \<Rightarrow> app_state \<Rightarrow> response result \<times> app_state" where
  "keys_create env rq = mutation env rq ''/keys'' (\<lambda>form.
     let name = form_one form ''name''; project = form_one form ''project'';
         senders = form_many form ''mailbox'' in
     perform env ''/keys'' is_management_error
       (create_api_key (pe_hash env) (pe_now env) (pe_urlsafe env) name project senders)
       (\<lambda>(row, plaintext, scoped). back_to env ''/keys'' (created_payload name plaintext scoped)))"

definition keys_revoke :: "page_env \<Rightarrow> http_request \<Rightarrow> app_state \<Rightarrow> response result \<times> app_state" where
  "keys_revoke env rq = mutation env rq ''/keys'' (\<lambda>form.
     perform env ''/keys'' is_management_error (revoke_api_key (pe_now env) (form_one form ''name''))
       (\<lambda>m. back_to env ''/keys'' (ok_payload m)))"

definition projects_create :: "page_env \<Rightarrow> http_request \<Rightarrow> app_state \<Rightarrow> response result \<times> app_state" where
  "projects_create env rq = mutation env rq ''/keys'' (\<lambda>form.
     let name = form_one form ''name'' in
     perform env ''/keys'' is_management_error
       (create_project (pe_now env) (pe_lost_race env) name (Some (form_one form ''description'')))
       (\<lambda>_. back_to env ''/keys'' (ok_payload (''Created project '' @ in_quotes name @ ''.''))))"

definition test_send :: "page_env \<Rightarrow> http_request \<Rightarrow> app_state \<Rightarrow> response result \<times> app_state" where
  "test_send env rq = mutation env rq ''/test'' (\<lambda>form.
     perform env ''/test'' is_send_refused
       (send_test_message (pe_hash env) (pe_pydantic env) (pe_now env) (pe_ulid env)
          (st_idempotency_ttl_hours (pe_settings env)) (form_one form ''option'')
          (form_one form ''recipient'') (base_url_of rq))
       (\<lambda>public_id. back_to env (''/messages/'' @ public_id)
          (ok_payload (''Test message queued. Watch the timeline below: it should reach '' @
             ''accepted_by_provider within a few seconds. Refresh to update.''))))"

definition reshape :: "('a \<times> 'b \<times> 'd) result \<Rightarrow> (('a \<times> 'b) \<times> 'd) result" where
  "reshape r = bind_result r (\<lambda>(a, b, d). Inr ((a, b), d))"

definition suppressions_add :: "page_env \<Rightarrow> http_request \<Rightarrow> app_state \<Rightarrow> response result \<times> app_state" where
  "suppressions_add env rq = mutation env rq ''/suppressions'' (\<lambda>form.
     let address = form_one form ''address'' in
     perform env ''/suppressions'' is_invalid_address
       (\<lambda>d. reshape (add_suppression (pe_now env) (pe_rival env) d d address Manual
          (str_or (Some (form_one form ''reason'')) (Some ''added from the dashboard'')) None))
       (\<lambda>(row, created). back_to env ''/suppressions'' (ok_payload
          (if created then ''Suppressed '' @ address @ ''.''
           else address @ '' was already suppressed; nothing changed.''))))"

definition suppressions_remove :: "page_env \<Rightarrow> http_request \<Rightarrow> app_state \<Rightarrow> response result \<times> app_state" where
  "suppressions_remove env rq = mutation env rq ''/suppressions'' (\<lambda>form.
     let address = form_one form ''address'' in
     perform env ''/suppressions'' (\<lambda>e. False) (\<lambda>d. remove_suppression d address)
       (\<lambda>removed. back_to env ''/suppressions''
          (if removed then ok_payload (''Resumed sending to '' @ address @ ''.'')
           else error_payload (address @ '' is not on the suppression list.''))))"

text \<open>The form routes.\<close>

datatype form_route =
    Post_Domains_Add | Post_Domains_Verify | Post_Keys_Create | Post_Keys_Revoke | Post_Projects_Create
  | Post_Test_Send | Post_Suppressions_Add | Post_Suppressions_Remove

fun post :: "form_route \<Rightarrow> page_env \<Rightarrow> http_request \<Rightarrow> app_state \<Rightarrow> response result \<times> app_state" where
  "post Post_Domains_Add = domains_add"
| "post Post_Domains_Verify = domains_verify"
| "post Post_Keys_Create = keys_create"
| "post Post_Keys_Revoke = keys_revoke"
| "post Post_Projects_Create = projects_create"
| "post Post_Test_Send = test_send"
| "post Post_Suppressions_Add = suppressions_add"
| "post Post_Suppressions_Remove = suppressions_remove"

section \<open>What a form can change\<close>

lemma back_to_db [simp]: "as_db (snd (back_to env path payload st)) = as_db st"
  by (simp add: back_to_def stash_def)

lemma back_to_result:
  "back_to env path payload st = (r, st') \<Longrightarrow> r = Inr (See_Other (path @ ''?f='' @ pe_handle env)) \<and>
     as_shots st' = snd (stash (pe_clock env) (pe_stored_at env) (pe_handle env) payload (as_shots st))"
  by (auto simp: back_to_def stash_def)

lemma reject_bad_csrf_db [simp]: "as_db (snd (reject_bad_csrf env rq form path st)) = as_db st"
  by (auto simp: reject_bad_csrf_def bind_state_def split: sum.splits option.splits)

text \<open>The prologue of a form handler: it either lets the request through or leaves the database.\<close>

lemma mutation_cases:
  obtains
    (passed) "py_guard env rq = Inr None"
      "verify (pe_hmac env) (pe_netloc env) (pe_process_secret env) (hr_headers rq)
         (Some (form_one (parse_form (hr_pairs rq)) csrf_field)) (pe_settings env) = Inr None"
      "mutation env rq path body st = body (parse_form (hr_pairs rq)) st"
  | (stopped) "as_db (snd (mutation env rq path body st)) = as_db st"
      "\<forall>loc. fst (mutation env rq path body st) = Inr (See_Other loc) \<longrightarrow> loc = path @ ''?f='' @ pe_handle env"
proof -
  let ?f = "parse_form (hr_pairs rq)"
  let ?v = "verify (pe_hmac env) (pe_netloc env) (pe_process_secret env) (hr_headers rq)
         (Some (form_one ?f csrf_field)) (pe_settings env)"
  consider (ok) "py_guard env rq = Inr None" "?v = Inr None"
    | (code) c where "py_guard env rq = Inr (Some c)"
    | (raises) e where "py_guard env rq = Inl e"
    | (token) m where "py_guard env rq = Inr None" "?v = Inr (Some m)"
    | (token_raises) e where "py_guard env rq = Inr None" "?v = Inl e"
    by (cases "py_guard env rq"; cases ?v) (metis option.exhaust)+
  then show thesis
  proof cases
    case ok
    then show thesis by (intro passed) (simp_all add: mutation_def mutation_guard_def reject_bad_csrf_def)
  next
    case token
    then have "mutation env rq path body st = back_to env path (error_payload m) st"
      by (simp add: mutation_def mutation_guard_def reject_bad_csrf_def back_to_def stash_def)
    then show thesis by (intro stopped) (auto simp: back_to_def stash_def)
  qed (auto intro!: stopped simp: mutation_def mutation_guard_def reject_bad_csrf_def)
qed

lemma perform_db:
  assumes "\<And>x st. as_db (snd (done_with x st)) = as_db st"
    and "as_db (snd (perform env path caught act done_with st)) \<noteq> as_db st"
  shows "\<exists>x. act (as_db st) = Inr (x, as_db (snd (perform env path caught act done_with st))) \<and>
    perform env path caught act done_with st =
      done_with x (st\<lparr>as_db := as_db (snd (perform env path caught act done_with st))\<rparr>)"
proof (cases "act (as_db st)")
  case (Inl e)
  with assms(2) show ?thesis
    by (auto simp: perform_def session_scope_def catching_def split: if_splits)
next
  case (Inr r)
  obtain x d where r: "r = (x, d)" by (cases r)
  with Inr have p: "perform env path caught act done_with st = done_with x (st\<lparr>as_db := d\<rparr>)"
    by (simp add: perform_def session_scope_def catching_def)
  have "as_db (snd (perform env path caught act done_with st)) = d"
    unfolding p by (simp add: assms(1))
  with Inr r p show ?thesis by simp
qed

text \<open>A form that changed the database: its operation succeeded, and the response is the page's.\<close>

lemma form_outcome:
  assumes "mutation env rq path (\<lambda>form. perform env path caught (act form) (done_with form)) st = (r, st')"
    and "as_db st' \<noteq> as_db st" and "\<And>form x st. as_db (snd (done_with form x st)) = as_db st"
  shows "\<exists>x. act (parse_form (hr_pairs rq)) (as_db st) = Inr (x, as_db st') \<and>
    done_with (parse_form (hr_pairs rq)) x (st\<lparr>as_db := as_db st'\<rparr>) = (r, st')"
proof (cases rule: mutation_cases [of env rq path "\<lambda>form. perform env path caught (act form) (done_with form)" st])
  case passed
  show ?thesis
    using perform_db [of "done_with (parse_form (hr_pairs rq))" env path caught "act (parse_form (hr_pairs rq))" st]
      assms(2,3) assms(1) [unfolded passed(3)] by (auto simp: eq_commute)
next
  case stopped
  with assms(1,2) show ?thesis by simp
qed

lemma form_changes:
  assumes "as_db (snd (mutation env rq path (\<lambda>form. perform env path caught (act form) (done_with form)) st)) \<noteq> as_db st"
    and "\<And>form x st. as_db (snd (done_with form x st)) = as_db st"
  shows "\<exists>x. act (parse_form (hr_pairs rq)) (as_db st) = Inr (x, as_db (snd
    (mutation env rq path (\<lambda>form. perform env path caught (act form) (done_with form)) st)))"
  using form_outcome [OF prod.collapse [symmetric] assms] by blast

lemma post_guarded:
  assumes "as_db (snd (post r env rq st)) \<noteq> as_db st"
  shows "st_dashboard_enabled (pe_settings env) \<and>
    check_dashboard_auth (pe_decode env) (hr_headers rq) (pe_settings env) = Inr None \<and>
    verify (pe_hmac env) (pe_netloc env) (pe_process_secret env) (hr_headers rq)
      (Some (form_one (parse_form (hr_pairs rq)) csrf_field)) (pe_settings env) = Inr None"
proof -
  have "\<exists>path body. post r env rq st = mutation env rq path body st"
    by (cases r) (auto simp: domains_add_def domains_verify_def keys_create_def keys_revoke_def
      projects_create_def test_send_def suppressions_add_def suppressions_remove_def)
  then obtain path body where p: "post r env rq st = mutation env rq path body st" by blast
  show ?thesis
  proof (cases rule: mutation_cases [of env rq path body st])
    case passed
    then show ?thesis by (simp add: py_guard_def split: if_splits)
  next
    case stopped
    with p assms show ?thesis by simp
  qed
qed

text \<open>
  C15 No form changes anything for a stranger.  With a dashboard password set, whichever form a request
  is for, the database differs afterwards only if the dashboard is on, the request's Basic credentials
  carry the password, its form carries the token derived from the password, and the page it states it
  comes from is on the host it was sent to.
\<close>

theorem changes_need_password_and_form:
  assumes "st_dashboard_token (pe_settings env) = Some t" "t \<noteq> []"
    and "as_db (snd (post r env rq st)) \<noteq> as_db st"
  shows "st_dashboard_enabled (pe_settings env) \<and>
    (\<exists>scheme sep encoded decoded user colon.
       partition_at (CHR '' '') (or_empty (header (hr_headers rq) ''authorization'')) = (scheme, sep, encoded) \<and>
       py_lower scheme = ''basic'' \<and> pe_decode env encoded = Some decoded \<and>
       partition_at (CHR '':'') decoded = (user, colon, t)) \<and>
    form_one (parse_form (hr_pairs rq)) ''csrf_token'' = pe_hmac env t derivation_label \<and>
    (let stated = str_or (header (hr_headers rq) ''origin'') (header (hr_headers rq) ''referer'') in
       truthy_str stated \<longrightarrow> header (hr_headers rq) ''host'' = Some (pe_netloc env (or_empty stated)))"
  using post_guarded [OF assms(3)] mutation_needs_password_and_token [OF assms(1,2)]
  unfolding csrf_field_def option.inject by blast

section \<open>What no form can change\<close>

lemma enqueue_frame:
  "enqueue now t p by_whom d = Inr (j, d') \<Longrightarrow> \<exists>js n. d' = d\<lparr>provisioning_jobs := js, next_id := n\<rparr>"
proof -
  have "\<exists>js n. d = d\<lparr>provisioning_jobs := js, next_id := n\<rparr>"
    by (rule exI [of _ "provisioning_jobs d"], rule exI [of _ "next_id d"]) simp
  then show "enqueue now t p by_whom d = Inr (j, d') \<Longrightarrow> ?thesis"
    by (auto simp: enqueue_def Let_def result_simps split: option.splits)
qed

lemma send_test_frame:
  assumes "send_test_message h px now ulid ttl opt to base d = Inr (i, d')"
  shows "\<exists>ms es n. d' = d\<lparr>messages := ms, events := es, next_id := n\<rparr>"
proof -
  obtain k sender p where kp: "parse_option opt = Inr (k, sender)" "py_strip to \<noteq> []" "principal_for d k = Inr p"
    using assms by (auto simp: send_test_message_def result_simps split: if_splits)
  obtain rq where rq: "validate_request px (test_body sender (py_strip to) (test_content now sender base)) = Inr rq"
    using assms kp
    by (cases "validate_request px (test_body sender (py_strip to) (test_content now sender base))")
       (simp_all add: send_test_message_def)
  obtain r where "refused (ingest_message h now ulid None ttl d p rq None) = Inr (r, d')"
    using assms kp rq by (auto simp: send_test_message_def result_simps)
  then have "ingest_message h now ulid None ttl d p rq None = Inr (r, d')"
    by (auto simp: refused_def split: sum.splits exn.splits)
  then show ?thesis
    by (cases rule: ingest_messageE)
       (auto simp: truthy_str_def store_message_def Let_def split: option.splits if_splits)
qed

text \<open>The operation behind each form, as the rest of the program knows it, without its page.\<close>

fun form_operation :: "form_route \<Rightarrow> page_env \<Rightarrow> http_request \<Rightarrow> form \<Rightarrow> db \<Rightarrow> db result" where
  "form_operation Post_Domains_Add env rq form d = bind_result
     (enqueue (pe_now env) Add_Domain [(''domain'', JStr (form_one form ''domain''))] ''dashboard'' d) (Inr \<circ> snd)"
| "form_operation Post_Domains_Verify env rq form d = bind_result
     (enqueue (pe_now env) Verify_Domain [(''domain'', JStr (form_one form ''domain''))] ''dashboard'' d) (Inr \<circ> snd)"
| "form_operation Post_Keys_Create env rq form d = bind_result
     (create_api_key (pe_hash env) (pe_now env) (pe_urlsafe env) (form_one form ''name'')
        (form_one form ''project'') (form_many form ''mailbox'') d) (Inr \<circ> snd)"
| "form_operation Post_Keys_Revoke env rq form d = bind_result
     (revoke_api_key (pe_now env) (form_one form ''name'') d) (Inr \<circ> snd)"
| "form_operation Post_Projects_Create env rq form d = bind_result
     (create_project (pe_now env) (pe_lost_race env) (form_one form ''name'')
        (Some (form_one form ''description'')) d) (Inr \<circ> snd)"
| "form_operation Post_Test_Send env rq form d = bind_result
     (send_test_message (pe_hash env) (pe_pydantic env) (pe_now env) (pe_ulid env)
        (st_idempotency_ttl_hours (pe_settings env)) (form_one form ''option'')
        (form_one form ''recipient'') (base_url_of rq) d) (Inr \<circ> snd)"
| "form_operation Post_Suppressions_Add env rq form d = bind_result
     (add_suppression (pe_now env) (pe_rival env) d d (form_one form ''address'') Manual
        (str_or (Some (form_one form ''reason'')) (Some ''added from the dashboard'')) None) (Inr \<circ> snd \<circ> snd)"
| "form_operation Post_Suppressions_Remove env rq form d = bind_result
     (remove_suppression d (form_one form ''address'')) (Inr \<circ> snd)"

lemma changed_form:
  assumes "as_db (snd (post r env rq st)) \<noteq> as_db st"
  shows "form_operation r env rq (parse_form (hr_pairs rq)) (as_db st) = Inr (as_db (snd (post r env rq st)))"
  using assms
  by (cases r)
     (force simp: domains_add_def domains_verify_def keys_create_def keys_revoke_def projects_create_def
        test_send_def suppressions_add_def suppressions_remove_def Let_def reshape_def bind_result_eq_Inr
        dest!: form_changes split: prod.splits if_splits)+

text \<open>The tables a form may change; all others are as before.\<close>

definition confined :: "form_route \<Rightarrow> db \<Rightarrow> db \<Rightarrow> bool" where
  "confined r d d' \<longleftrightarrow>
     domains d' = domains d \<and> mailboxes d' = mailboxes d \<and> installation d' = installation d \<and>
     idempotency_keys d' = idempotency_keys d \<and> worker_heartbeats d' = worker_heartbeats d \<and>
     (r \<in> {Post_Keys_Create, Post_Keys_Revoke} \<or> api_keys d' = api_keys d) \<and>
     (r = Post_Keys_Create \<or> api_key_scopes d' = api_key_scopes d) \<and>
     (r = Post_Projects_Create \<or> projects d' = projects d) \<and>
     (r = Post_Test_Send \<or> messages d' = messages d \<and> events d' = events d) \<and>
     (r \<in> {Post_Suppressions_Add, Post_Suppressions_Remove} \<or> suppressions d' = suppressions d) \<and>
     (r \<in> {Post_Domains_Add, Post_Domains_Verify} \<or> provisioning_jobs d' = provisioning_jobs d)"

lemma form_operation_confined:
  assumes "form_operation r env rq form d = Inr d'"
  shows "confined r d d'"
proof (cases r)
  case Post_Keys_Create
  with assms show ?thesis by (auto simp: bind_result_eq_Inr confined_def elim!: create_api_keyE)
next
  case Post_Suppressions_Add
  with assms show ?thesis by (auto simp: bind_result_eq_Inr confined_def elim!: add_suppression_cases)
next
  case Post_Suppressions_Remove
  with assms show ?thesis by (auto simp: bind_result_eq_Inr confined_def remove_suppression_def)
qed (use assms in \<open>auto simp: bind_result_eq_Inr confined_def
    dest!: enqueue_frame send_test_frame revoke_frame create_project_frame\<close>)

text \<open>
  C40 The dashboard cannot reach what needs the provider's credential: no form changes a domain, a
  sender identity, a stored idempotency key or the installation's identity, and each changes only the
  tables of its own operation; only the test page adds a message.
\<close>

theorem forms_keep_to_their_tables: "confined r (as_db st) (as_db (snd (post r env rq st)))"
proof (cases "as_db (snd (post r env rq st)) = as_db st")
  case True
  then show ?thesis by (simp add: confined_def)
next
  case False
  then show ?thesis by (rule form_operation_confined [OF changed_form])
qed

section \<open>A new key\<close>

lemma keys_create_result:
  assumes "keys_create env rq st = (r, st')" "as_db st' \<noteq> as_db st"
  shows "\<exists>row key scoped. create_api_key (pe_hash env) (pe_now env) (pe_urlsafe env)
      (form_one (parse_form (hr_pairs rq)) ''name'') (form_one (parse_form (hr_pairs rq)) ''project'')
      (form_many (parse_form (hr_pairs rq)) ''mailbox'') (as_db st) = Inr ((row, key, scoped), as_db st') \<and>
    back_to env ''/keys'' (created_payload (form_one (parse_form (hr_pairs rq)) ''name'') key scoped)
      (st\<lparr>as_db := as_db st'\<rparr>) = (r, st')"
  using form_outcome [OF assms(1) [unfolded keys_create_def Let_def] assms(2)] by (auto split: prod.splits)

text \<open>
  C17 A new key is shown once and nowhere else.  When the form creates a key, the browser is sent to an
  address that holds only the random handle; the page behind it is given the plaintext, whose hash is
  all the database has, within the time of a one-shot value; and any page asked for it again is given
  nothing.
\<close>

theorem new_key_is_shown_once:
  assumes "keys_create env rq st = (r, st')" "as_db st' \<noteq> as_db st" "pe_handle env \<noteq> []"
    and "t1 \<le> pe_stored_at env + ttl_seconds"
  shows "r = Inr (See_Other (''/keys?f='' @ pe_handle env)) \<and>
    (\<exists>key shown. map ak_key_hash (api_keys (as_db st')) = map ak_key_hash (api_keys (as_db st)) @ [pe_hash env key] \<and>
       (let first_page = take_value t1 (Some (pe_handle env)) (as_shots st') in
          fst first_page = Some shown \<and> dict_get shown ''secret'' = Some (Some key) \<and>
          fst (take_value t2 (Some (pe_handle env)) (snd first_page)) = None))"
proof -
  let ?f = "parse_form (hr_pairs rq)"
  obtain row key scoped where made: "create_api_key (pe_hash env) (pe_now env) (pe_urlsafe env)
      (form_one ?f ''name'') (form_one ?f ''project'') (form_many ?f ''mailbox'') (as_db st) =
      Inr ((row, key, scoped), as_db st')"
    and sent: "back_to env ''/keys'' (created_payload (form_one ?f ''name'') key scoped) (st\<lparr>as_db := as_db st'\<rparr>) = (r, st')"
    using keys_create_result [OF assms(1,2)] by blast
  have hash: "map ak_key_hash (api_keys (as_db st')) = map ak_key_hash (api_keys (as_db st)) @ [pe_hash env key]"
    using made by (elim create_api_keyE) (simp add: new_api_key_def)
  have shots: "as_shots st' = snd (stash (pe_clock env) (pe_stored_at env) (pe_handle env)
      (created_payload (form_one ?f ''name'') key scoped) (as_shots st))"
    and "r = Inr (See_Other (''/keys?f='' @ pe_handle env))"
    using back_to_result [OF sent] by simp_all
  moreover have "dict_get (created_payload (form_one ?f ''name'') key scoped) ''secret'' = Some (Some key)"
    by (simp add: created_payload_def ok_payload_def dict_get_def)
  ultimately show ?thesis
    using hash take_stashed [OF assms(3,4), where p = "created_payload (form_one ?f ''name'') key scoped"]
    by (intro conjI exI [of _ key] exI [of _ "created_payload (form_one ?f ''name'') key scoped"])
       (simp_all add: Let_def)
qed

section \<open>A form on concrete data\<close>

definition ex_env :: page_env where
  "ex_env = \<lparr>pe_settings = (default_settings ''d'')\<lparr>st_dashboard_token := Some ''t''\<rparr>,
     pe_decode = (\<lambda>e. Some ''u:t''), pe_hmac = (\<lambda>k m. k @ ''#'' @ m), pe_netloc = (\<lambda>u. u),
     pe_process_secret = ''p'', pe_hash = (\<lambda>s. s), pe_pydantic = \<lparr>px_trim = \<lambda>s. s, px_text = \<lambda>s. s\<rparr>, pe_now = 9, pe_clock = 100,
     pe_stored_at = 100, pe_handle = ''h'', pe_urlsafe = ''tok'', pe_ulid = ''u'', pe_lost_race = False,
     pe_rival = None\<rparr>"

definition ex_form_request :: http_request where
  "ex_form_request = \<lparr>hr_headers = [(''authorization'', ''Basic x'')], hr_scheme = ''http'',
     hr_base_url = ''http://h/'', hr_flash = None,
     hr_pairs = [(''name'', ''app''), (''project'', ''shop''), (''mailbox'', ''no@a.io''),
       (''csrf_token'', ''t#emaild-dashboard-csrf-v1'')]\<rparr>"

definition ex_state :: app_state where "ex_state = \<lparr>as_db = ex_db, as_shots = []\<rparr>"

lemma ex_form_creates: "length (api_keys (as_db (snd (keys_create ex_env ex_form_request ex_state)))) = 2"
  by code_simp

lemma ex_form_changes: "as_db (snd (keys_create ex_env ex_form_request ex_state)) \<noteq> as_db ex_state"
proof
  assume "as_db (snd (keys_create ex_env ex_form_request ex_state)) = as_db ex_state"
  with ex_form_creates show False by (simp add: ex_state_def)
qed

theorem changes_need_password_and_form_witness:
  "form_one (parse_form (hr_pairs ex_form_request)) ''csrf_token'' = pe_hmac ex_env ''t'' derivation_label"
proof -
  have "st_dashboard_token (pe_settings ex_env) = Some ''t''" by (simp add: ex_env_def)
  moreover have "as_db (snd (post Post_Keys_Create ex_env ex_form_request ex_state)) \<noteq> as_db ex_state"
    using ex_form_changes by simp
  ultimately show ?thesis using changes_need_password_and_form [of ex_env "''t''"] by blast
qed

theorem new_key_is_shown_once_witness:
  "fst (keys_create ex_env ex_form_request ex_state) = Inr (See_Other ''/keys?f=h'')"
proof -
  obtain r st' where run: "keys_create ex_env ex_form_request ex_state = (r, st')"
    by (cases "keys_create ex_env ex_form_request ex_state")
  with ex_form_changes have "as_db st' \<noteq> as_db ex_state" by simp
  moreover have "pe_handle ex_env = ''h''" "100 \<le> pe_stored_at ex_env + ttl_seconds"
    by (simp_all add: ex_env_def ttl_seconds_def seconds_def)
  ultimately show ?thesis using new_key_is_shown_once [OF run, of 100] run by simp
qed

end
