(* ===== verification/Pages.thy ===== *)
theory Pages
  imports Routes
begin

text \<open>
  What the pages of the dashboard read (emaild/dashboard/routes.py, the GET handlers).  A page is the
  values handed to its template: the base every page has, and its own.  Queries are folds over the
  tables; the search of the message page is SQL's \<open>LIKE\<close>.
\<close>

section \<open>What every page has\<close>

record page_base =
  bv_page :: string
  bv_version :: string
  bv_environment :: string
  bv_csrf_token :: string
  bv_flash :: "flash option"

definition fmt_time :: "time option \<Rightarrow> string option" where
  "fmt_time t = map_option minute_text t"

definition base_view :: "page_env \<Rightarrow> http_request \<Rightarrow> string \<Rightarrow> app_state \<Rightarrow> page_base \<times> app_state" where
  "base_view env rq page st =
     (case take_value (pe_clock env) (hr_flash rq) (as_shots st) of (shown, store) \<Rightarrow>
        (\<lparr>bv_page = page, bv_version = app_version,
          bv_environment = environment_value (st_env (pe_settings env)),
          bv_csrf_token = issue_token (pe_hmac env) (pe_process_secret env) (pe_settings env),
          bv_flash = shown\<rparr>, st\<lparr>as_shots := store\<rparr>))"

datatype 'v got = Got_Refused nat | Got_Redirect string | Got_Page page_base 'v

text \<open>
  A page: the guard, then the queries, then the base, whose one-shot value is read only when the
  queries have succeeded.  \<open>None\<close> stands for a redirect instead of a page.
\<close>

definition show_page ::
    "string \<Rightarrow> (page_env \<Rightarrow> http_request \<Rightarrow> db \<Rightarrow> (string + 'v) result) \<Rightarrow> page_env \<Rightarrow> http_request \<Rightarrow> app_state \<Rightarrow>
     'v got result \<times> app_state" where
  "show_page page content env rq st =
     bind_state (py_guard env rq, st) (\<lambda>refused st. case refused of
       Some code \<Rightarrow> (Inr (Got_Refused code), st)
     | None \<Rightarrow> bind_state (content env rq (as_db st), st) (\<lambda>v st. case v of
         Inl path \<Rightarrow> (Inr (Got_Redirect path), st)
       | Inr x \<Rightarrow> (case base_view env rq page st of (b, st) \<Rightarrow> (Inr (Got_Page b x), st))))"

section \<open>Overview and integration\<close>

definition overview_content :: "page_env \<Rightarrow> http_request \<Rightarrow> db \<Rightarrow> (string + overview \<times> next_step_row) result" where
  "overview_content env rq d = Inr (Inr
     (build_overview (pe_now env) 24 (st_rate_limit_safety_margin (pe_settings env)) None d,
      next_step d (base_url_of rq)))"

text \<open>Active sender identities on ready domains, by address.\<close>

definition ready_mailboxes :: "db \<Rightarrow> mailbox_row list" where
  "ready_mailboxes d = sort_key mb_address
     (filter (\<lambda>m. mb_active m \<and>
        (case domain_of d (mb_domain_id m) of None \<Rightarrow> False | Some x \<Rightarrow> dm_status x = Ready)) (mailboxes d))"

definition integration_brief :: "string \<Rightarrow> string list \<Rightarrow> string" where
  "integration_brief base_url senders =
     (let sender = (case senders of [] \<Rightarrow> ''noreply@yourdomain.com'' | s # _ \<Rightarrow> s);
          allowed = (if py_join '', '' senders = [] then sender else py_join '', '' senders)
      in py_join newline [
       ''We send transactional email through a self-hosted service called emaild.'',
       [],
       ''DO NOT install the `resend` package. emaild copies Resend'' @ [CHR 39] @ ''s HTTP shape, not'',
       ''its SDK, and that library sends to api.resend.com -- it would appear to work'',
       ''and deliver nothing to us. Call the endpoint below directly with whatever HTTP'',
       ''client the project already uses (fetch, axios, requests, httpx).'',
       [],
       ''Everything else you know about Resend'' @ [CHR 39] @ ''s REST API applies, with these'',
       ''differences:'',
       [],
       ''  Base URL:  '' @ base_url,
       ''  Endpoint:  POST '' @ base_url @ ''/v1/emails'',
       ''  Auth:      Authorization: Bearer <the key I will give you>'',
       ''  From:      must be exactly one of: '' @ allowed,
       [],
       ''Put the base URL and the key in environment variables (EMAILD_URL and'',
       ''EMAILD_API_KEY). Do not hardcode the key in source and do not commit it: it'',
       ''sends mail signed as our domain, and anything holding it can do the same.'',
       [],
       ''Request body:'',
       ''  {'',
       ''    '' @ quoted ''from'' @ '': '' @ quoted (''Acme <'' @ sender @ ''>'') @ '','',
       ''    '' @ quoted ''to'' @ '': '' @ quoted ''customer@example.com'' @ '','',
       ''    '' @ quoted ''subject'' @ '': '' @ quoted ''Verify your email'' @ '','',
       ''    '' @ quoted ''html'' @ '': '' @ quoted ''<p>Click to verify.</p>'' @ '','',
       ''    '' @ quoted ''text'' @ '': '' @ quoted ''Click to verify.'',
       ''  }'',
       [],
       ''  `from` may be the bare address or `Display Name <address>`, but the address'',
       ''  part must match one of the senders above exactly. `to`, `cc`, `bcc` accept a'',
       ''  string or an array. `reply_to` is supported and is where replies should go if'',
       ''  the sender above is unattended. Send both `html` and `text` when you can --'',
       ''  HTML-only scores worse with spam filters. Unknown fields are rejected rather'',
       ''  than ignored.'',
       [],
       ''Response is 200 with:'',
       ''  { '' @ quoted ''id'' @ '': '' @ quoted ''email_01...'' @ '', '' @ quoted ''status'' @ '': '' @ quoted ''queued'' @ '' }'',
       [],
       ''IMPORTANT -- statuses differ from Resend:'',
       [],
       ''  queued                 stored durably, NOT yet sent'',
       ''  sending                a worker is delivering it now'',
       ''  accepted_by_provider   TERMINAL. The mail provider took custody and'',
       ''                         answered 250. It does NOT mean delivered.'',
       ''  temporarily_failed     will be retried automatically'',
       ''  permanently_rejected   will not be retried'',
       [],
       ''  There is NO `delivered` status and there never will be -- this provider'',
       ''  cannot prove delivery, so the API does not claim it. Do not poll waiting for'',
       ''  one. Treat accepted_by_provider as success.'',
       [],
       ''Retries and idempotency:'',
       ''  Send an `Idempotency-Key` header on anything you might retry. The same key'',
       ''  with the same body returns the original response; the same key with a'',
       ''  different body is rejected. Do not implement your own send-retry loop --'',
       ''  emaild owns delivery retries.'',
       [],
       ''  The VALUE matters. Derive it from the thing being emailed about, so that a'',
       ''  retry of the same logical send produces the same key:'',
       [],
       ''      Idempotency-Key: pwreset-user-1234-20260827'',
       [],
       ''  Do NOT generate a fresh UUID per attempt. A random key is a different key,'',
       ''  so a retry after a timeout sends a second real email -- which is the exact'',
       ''  duplicate this header exists to prevent, and it will not be noticed in'',
       ''  testing because the first attempt usually succeeds.'',
       [],
       ''Errors are JSON: { '' @ quoted ''error'' @ '': { '' @ quoted ''type'' @ '': ..., '' @ quoted ''message'' @ '': ..., '' @ quoted ''param'' @ '': ... } }'',
       ''  authentication_error   key missing, malformed, or revoked'',
       ''  authorization_error    the key may not send as that `from`'',
       ''  domain_not_ready       the sending domain'' @ [CHR 39] @ ''s DNS is incomplete'',
       ''  validation_error       `param` names the bad field'',
       ''  suppressed_recipient   that address previously bounced or complained. Do not'',
       ''                         retry it; only an operator can clear it.'',
       [],
       ''Rate limit: 400 messages per hour per sender address. emaild holds messages'',
       ''back rather than letting them fail, so a 200 does not mean it left immediately.'',
       [],
       ''Do not block a user-facing action on this call. It is fast and durable, but it'',
       ''is still a network hop to another machine: if emaild is unreachable, a signup'',
       ''should still succeed and the email should be retried or reported, not turned'',
       ''into a 500 for the user.'',
       [],
       ''Set an explicit timeout on the request -- 10 seconds is plenty. Without one,'',
       ''many HTTP clients wait far longer or forever, and '' @ quoted ''do not block signup'' @ '' becomes'',
       ''a blocked signup the first time this host is down. On timeout or connection'',
       ''failure, record it and move on; if you retry later, reuse the SAME'',
       ''Idempotency-Key so a send that actually succeeded is not duplicated.'',
       [],
       ''Check one message: GET '' @ base_url @ ''/v1/emails/{id} -- returns status and a'',
       ''timeline. It never returns the body, by design.'',
       []])"

record integrate_view =
  iv_base_url :: string
  iv_senders :: "string list"
  iv_brief :: string

definition integrate_content :: "page_env \<Rightarrow> http_request \<Rightarrow> db \<Rightarrow> (string + integrate_view) result" where
  "integrate_content env rq d =
     (let base_url = base_url_of rq; senders = map mb_address (ready_mailboxes d)
      in Inr (Inr \<lparr>iv_base_url = base_url, iv_senders = senders, iv_brief = integration_brief base_url senders\<rparr>))"

section \<open>Domains\<close>

definition upper_char :: "char \<Rightarrow> char" where
  "upper_char c = (let n = ord c in
     if (97 \<le> n \<and> n \<le> 122) \<or> (224 \<le> n \<and> n \<le> 254 \<and> n \<noteq> 247) then char_of (n - 32) else c)"

text \<open>
  Which check a required record belongs to.  The capitals of the three letters that leave Latin-1 do not
  matter: the type is only compared with ASCII names.
\<close>

definition field_text :: "(string \<times> json) list \<Rightarrow> string \<Rightarrow> string" where
  "field_text r k = json_str (case dict_get r k of None \<Rightarrow> JStr [] | Some v \<Rightarrow> v)"

definition check_for_record :: "(string \<times> json) list \<Rightarrow> string option" where
  "check_for_record r =
     (let rtype = map upper_char (field_text r ''type''); name = py_lower (field_text r ''name'');
          content = field_text r ''value''
      in if rtype = ''MX'' then Some ''mx''
         else if rtype \<noteq> ''TXT'' then None
         else if py_in ''_domainkey'' name then Some ''dkim''
         else if starts_with ''_dmarc'' name then Some ''dmarc''
         else if starts_with ''_da-verify'' name \<or> py_in ''domain-verified'' content then Some ''ownership''
         else if starts_with ''v=spf1'' content then Some ''spf''
         else None)"

definition dict_items :: "json \<Rightarrow> (string \<times> json) list result" where
  "dict_items j = (case j of JObj kvs \<Rightarrow> Inr kvs | _ \<Rightarrow> Inl (no_method j ''items''))"

text \<open>The result of each check; a domain never checked, or with a state that is not an object, has none.\<close>

definition check_results :: "json option \<Rightarrow> (string \<times> string) list result" where
  "check_results state = (case state of
       Some (JObj kvs) \<Rightarrow>
         bind_result (get_or (JObj kvs) ''checks'' (JObj [])) (\<lambda>checks.
         bind_result (dict_items checks) (map_result (\<lambda>(name, info).
           bind_result (json_get_default info ''result'' (JStr ''?'')) (\<lambda>r. Inr (name, json_str r)))))
     | _ \<Rightarrow> Inr [])"

definition missing_checks :: "(string \<times> string) list \<Rightarrow> string list" where
  "missing_checks checks = map fst (filter (\<lambda>(name, r). r \<noteq> ''pass'' \<and> name \<noteq> ''dmarc'') checks)"

definition record_line :: "(string \<times> string) list \<Rightarrow> (string \<times> json) list \<Rightarrow> (string \<times> json) list" where
  "record_line checks r =
     (let check = check_for_record r in
      dict_put ''result'' (json_of_str_option (dict_get checks (or_empty check)))
        (dict_put ''check'' (json_of_str_option check) r))"

record domain_view =
  dv_name :: string
  dv_status :: string
  dv_smtp_host :: "string option"
  dv_checked :: "string option"
  dv_checks :: "(string \<times> string) list"
  dv_missing :: "string list"
  dv_records :: "(string \<times> json) list list"

definition required_list :: "json option \<Rightarrow> json list result" where
  "required_list j = json_list_or_empty (case j of None \<Rightarrow> JNull | Some r \<Rightarrow> r)"

definition view_domain :: "domain_row \<Rightarrow> domain_view result" where
  "view_domain x =
     bind_result (check_results (dm_dns_state x)) (\<lambda>checks.
     bind_result (required_list (dm_required_records x)) (\<lambda>rs.
       Inr \<lparr>dv_name = dm_name x, dv_status = domain_status_value (dm_status x), dv_smtp_host = dm_smtp_host x,
            dv_checked = fmt_time (dm_dns_checked_at x), dv_checks = checks,
            dv_missing = missing_checks checks,
            dv_records = List.map_filter
              (\<lambda>r. case r of JObj kvs \<Rightarrow> Some (record_line checks kvs) | _ \<Rightarrow> None) rs\<rparr>))"

record job_view =
  jv_type :: string
  jv_domain :: json
  jv_status :: string
  jv_result :: "string option"
  jv_created :: "string option"

definition view_job :: "job_row \<Rightarrow> job_view" where
  "view_job j = \<lparr>jv_type = replace_char (CHR ''_'') '' '' (job_type_value (jb_job_type j)),
     jv_domain = payload_domain j (JStr ''?''), jv_status = job_status_value (jb_status j),
     jv_result = jb_result j, jv_created = fmt_time (Some (jb_created_at j))\<rparr>"

record domains_view =
  dp_domains :: "domain_view list"
  dp_jobs :: "job_view list"
  dp_actions :: "(string \<times> next_step_row) list"

definition domains_content :: "page_env \<Rightarrow> http_request \<Rightarrow> db \<Rightarrow> (string + domains_view) result" where
  "domains_content env rq d =
     bind_result (map_result view_domain (sort_key dm_name (domains d))) (\<lambda>vs.
       Inr (Inr \<lparr>dp_domains = vs, dp_jobs = map view_job (recent 8 d), dp_actions = domain_actions d\<rparr>))"

section \<open>Messages\<close>

text \<open>
  SQL's \<open>LIKE\<close>: a percent sign stands for any text, an underscore for any character, and a backslash
  makes the next character stand for itself.  \<open>ILIKE\<close> ignores case.
\<close>

fun sql_like :: "string \<Rightarrow> string \<Rightarrow> bool" where
  "sql_like [] s = (s = [])"
| "sql_like (p # ps) s =
     (if p = CHR ''%'' then sql_like ps s \<or> (case s of [] \<Rightarrow> False | c # cs \<Rightarrow> sql_like (p # ps) cs)
      else if p = CHR ''_'' then (case s of [] \<Rightarrow> False | c # cs \<Rightarrow> sql_like ps cs)
      else if p = char_of (92 :: nat) then
        (case ps of [] \<Rightarrow> False
         | q # qs \<Rightarrow> (case s of [] \<Rightarrow> False | c # cs \<Rightarrow> c = q \<and> sql_like qs cs))
      else (case s of [] \<Rightarrow> False | c # cs \<Rightarrow> c = p \<and> sql_like ps cs))"

definition sql_ilike :: "string \<Rightarrow> string \<Rightarrow> bool" where
  "sql_ilike p s = sql_like (py_lower p) (py_lower s)"

text \<open>A list of strings as the text of a JSONB value.\<close>

definition jsonb_escape :: "char \<Rightarrow> string" where
  "jsonb_escape c = (if 126 < ord c then [c] else json_escape c)"

definition jsonb_text :: "string list \<Rightarrow> string" where
  "jsonb_text xs = ''['' @ py_join '', '' (map (\<lambda>s. quoted (concat (map jsonb_escape s))) xs) @ '']''"

record message_query =
  mq_q :: "string option"
  mq_status :: "string option"
  mq_review :: int

definition search_pattern :: "string \<Rightarrow> string" where
  "search_pattern q = ''%'' @ py_lower (py_strip q) @ ''%''"

definition found_by :: "string \<Rightarrow> message_row \<Rightarrow> bool" where
  "found_by q m =
     (let p = search_pattern q in
      sql_ilike p (ms_public_id m) \<or>
      (case ms_subject m of None \<Rightarrow> False | Some x \<Rightarrow> sql_like p (py_lower x)) \<or>
      sql_like p (py_lower (jsonb_text (ms_to_addresses m))))"

text \<open>The type of the status column: a name that is not one of its values is refused by the database.\<close>

definition message_status_of :: "string \<Rightarrow> message_status option" where
  "message_status_of s = find (\<lambda>x. message_status_value x = s) enum_class.enum"

definition status_filter :: "string option \<Rightarrow> (message_row \<Rightarrow> bool) result" where
  "status_filter wanted =
     (if \<not> truthy_str wanted then Inr (\<lambda>m. True)
      else case message_status_of (or_empty wanted) of
        None \<Rightarrow> Inl (Value_Error (''invalid input value for enum message_status: '' @ quoted (or_empty wanted)))
      | Some x \<Rightarrow> Inr (\<lambda>m. ms_status m = x))"

definition status_pill :: "message_status \<Rightarrow> string" where
  "status_pill s = (case s of
       Accepted_By_Provider \<Rightarrow> ''ok''
     | Permanently_Rejected \<Rightarrow> ''bad''
     | Temporarily_Failed \<Rightarrow> ''warn''
     | Sending \<Rightarrow> ''warn''
     | Queued \<Rightarrow> []
     | Canceled \<Rightarrow> [])"

record message_line =
  ml_public_id :: string
  ml_status :: string
  ml_pill :: string
  ml_needs_review :: bool
  ml_from_address :: string
  ml_to_summary :: string
  ml_subject :: "string option"
  ml_created :: "string option"

definition to_summary :: "string list \<Rightarrow> string" where
  "to_summary to = (case to of
       [] \<Rightarrow> em_dash
     | a # rest \<Rightarrow> a @ (if rest = [] then [] else '' +'' @ str_of_nat (length rest)))"

definition view_message_line :: "message_row \<Rightarrow> message_line" where
  "view_message_line m =
     \<lparr>ml_public_id = ms_public_id m, ml_status = message_status_value (ms_status m),
      ml_pill = status_pill (ms_status m), ml_needs_review = ms_needs_review m,
      ml_from_address = ms_from_address m, ml_to_summary = to_summary (ms_to_addresses m),
      ml_subject = ms_subject m, ml_created = fmt_time (Some (ms_created_at m))\<rparr>"

record messages_view =
  mv_messages :: "message_line list"
  mv_total :: nat
  mv_query :: message_query
  mv_statuses :: "string list"

definition messages_content ::
    "message_query \<Rightarrow> page_env \<Rightarrow> http_request \<Rightarrow> db \<Rightarrow> (string + messages_view) result" where
  "messages_content mq env rq d =
     bind_result (status_filter (mq_status mq)) (\<lambda>in_status.
       let wanted = filter (\<lambda>m. (if truthy_str (mq_q mq) then found_by (or_empty (mq_q mq)) m else True) \<and>
             in_status m \<and> (if mq_review mq \<noteq> 0 then ms_needs_review m else True)) (messages d)
       in Inr (Inr \<lparr>mv_messages = map view_message_line (take 100 (sort_key (\<lambda>m. - ms_created_at m) wanted)),
                    mv_total = length wanted, mv_query = mq,
                    mv_statuses = map message_status_value enum_class.enum\<rparr>))"

record event_line =
  evw_type :: string
  evw_at :: "string option"
  evw_detail :: "json option"

record message_page =
  mw_line :: message_line
  mw_attempts :: nat
  mw_from_display :: string
  mw_to_addresses :: "string list"
  mw_cc_addresses :: "string list"
  mw_bcc_addresses :: "string list"
  mw_project :: string
  mw_message_id_header :: string
  mw_completed :: "string option"
  mw_provider_latency_ms :: "int option"
  mw_failure_class :: "string option"
  mw_failure_code :: "int option"
  mw_provider_response :: "string option"
  mw_events :: "event_line list"

definition view_event_line :: "event_row \<Rightarrow> event_line" where
  "view_event_line e = \<lparr>evw_type = ev_event_type e, evw_at = fmt_time (Some (ev_occurred_at e)), evw_detail = ev_detail e\<rparr>"

definition view_message_page :: "db \<Rightarrow> message_row \<Rightarrow> project_row \<Rightarrow> message_page result" where
  "view_message_page d m p = (case after_first (CHR ''@'') (ms_from_address m) of
       None \<Rightarrow> Inl Index_Error
     | Some dmn \<Rightarrow> Inr \<lparr>mw_line = view_message_line m, mw_attempts = ms_attempts m,
         mw_from_display = (if truthy_str (ms_from_name m)
            then or_empty (ms_from_name m) @ '' <'' @ ms_from_address m @ ''>'' else ms_from_address m),
         mw_to_addresses = ms_to_addresses m, mw_cc_addresses = or_list (ms_cc_addresses m),
         mw_bcc_addresses = or_list (ms_bcc_addresses m), mw_project = pr_name p,
         mw_message_id_header = ''<'' @ ms_public_id m @ ''@'' @ dmn @ ''>'',
         mw_completed = fmt_time (ms_completed_at m),
         mw_provider_latency_ms = ms_provider_latency_ms m,
         mw_failure_class = map_option failure_class_value (ms_failure_class m),
         mw_failure_code = ms_failure_code m, mw_provider_response = ms_provider_response m,
         mw_events = map view_event_line
           (sort_key ev_sequence (filter (\<lambda>e. ev_message_id e = ms_id m) (events d)))\<rparr>)"

definition message_content ::
    "string \<Rightarrow> page_env \<Rightarrow> http_request \<Rightarrow> db \<Rightarrow> (string + message_page) result" where
  "message_content public_id env rq d =
     bind_result (scalar_one_or_none (List.map_filter
        (\<lambda>m. map_option (Pair m) (project_of d (ms_project_id m)))
        (filter (\<lambda>m. ms_public_id m = public_id) (messages d)))) (\<lambda>row. case row of
       None \<Rightarrow> Inr (Inl ''/messages'')
     | Some (m, p) \<Rightarrow> bind_result (view_message_page d m p) (\<lambda>v. Inr (Inr v)))"

section \<open>Keys, the test page, suppressions\<close>

record key_line =
  kl_name :: string
  kl_project :: string
  kl_key_prefix :: string
  kl_state :: string
  kl_last_used :: "string option"
  kl_scopes :: "string list"

definition view_key :: "db \<Rightarrow> api_key_row \<Rightarrow> project_row \<Rightarrow> key_line" where
  "view_key d k p = \<lparr>kl_name = ak_name k, kl_project = pr_name p, kl_key_prefix = ak_key_prefix k,
     kl_state = (if ak_revoked_at k \<noteq> None then ''revoked'' else if ak_active k then ''active'' else ''inactive''),
     kl_last_used = fmt_time (ak_last_used_at k),
     kl_scopes = map (\<lambda>s. case mailbox_of d (sc_mailbox_id s) of None \<Rightarrow> ''?'' | Some m \<Rightarrow> mb_address m)
       (scopes_of d k)\<rparr>"

record keys_view =
  kv_keys :: "key_line list"
  kv_projects :: "string list"
  kv_senders :: "string list"

definition keys_content :: "page_env \<Rightarrow> http_request \<Rightarrow> db \<Rightarrow> (string + keys_view) result" where
  "keys_content env rq d = Inr (Inr
     \<lparr>kv_keys = List.map_filter (\<lambda>k. map_option (view_key d k) (project_of d (ak_project_id k)))
        (sort_key (\<lambda>k. - ak_created_at k) (api_keys d)),
      kv_projects = sort (map pr_name (filter pr_active (projects d))),
      kv_senders = map mb_address (ready_mailboxes d)\<rparr>)"

record test_view =
  tv_options :: "send_option list"
  tv_blocked :: "blocked_row list"
  tv_base_url :: string

definition test_content_of_page :: "page_env \<Rightarrow> http_request \<Rightarrow> db \<Rightarrow> (string + test_view) result" where
  "test_content_of_page env rq d =
     bind_result (send_options d) (\<lambda>os. bind_result (blocked_senders d) (\<lambda>bs.
       Inr (Inr \<lparr>tv_options = os, tv_blocked = bs, tv_base_url = base_url_of rq\<rparr>)))"

record suppression_line =
  sl_address :: string
  sl_source :: string
  sl_reason :: "string option"
  sl_created :: "string option"
  sl_project :: "string option"

definition view_suppression_line :: "db \<Rightarrow> suppression_row \<Rightarrow> suppression_line" where
  "view_suppression_line d s = \<lparr>sl_address = su_address s, sl_source = suppression_source_value (su_source s),
     sl_reason = su_reason s, sl_created = fmt_time (Some (su_created_at s)),
     sl_project = (case su_project_id s of None \<Rightarrow> None | Some i \<Rightarrow>
       if i = 0 then None else map_option pr_name (project_of d i))\<rparr>"

record suppressions_view =
  sv_suppressions :: "suppression_line list"
  sv_total :: nat

definition suppressions_content :: "page_env \<Rightarrow> http_request \<Rightarrow> db \<Rightarrow> (string + suppressions_view) result" where
  "suppressions_content env rq d =
     bind_result (list_suppressions d 200 0 None) (\<lambda>rows.
       Inr (Inr \<lparr>sv_suppressions = map (view_suppression_line d) rows, sv_total = count_suppressions d None\<rparr>))"

text \<open>The pages by route.\<close>

datatype page_view =
    Overview_View overview next_step_row
  | Integrate_View integrate_view
  | Domains_View domains_view
  | Messages_View messages_view
  | Message_View message_page
  | Keys_View keys_view
  | Test_View test_view
  | Suppressions_View suppressions_view

datatype page_route =
    Get_Overview | Get_Integrate | Get_Domains | Get_Messages message_query | Get_Message string
  | Get_Keys | Get_Test | Get_Suppressions

definition as_page :: "('v \<Rightarrow> page_view) \<Rightarrow> (string + 'v) result \<Rightarrow> (string + page_view) result" where
  "as_page f r = bind_result r (\<lambda>v. Inr (map_sum (\<lambda>p. p) f v))"

fun page_content :: "page_route \<Rightarrow> page_env \<Rightarrow> http_request \<Rightarrow> db \<Rightarrow> (string + page_view) result" where
  "page_content Get_Overview env rq d = as_page (\<lambda>(o1, n). Overview_View o1 n) (overview_content env rq d)"
| "page_content Get_Integrate env rq d = as_page Integrate_View (integrate_content env rq d)"
| "page_content Get_Domains env rq d = as_page Domains_View (domains_content env rq d)"
| "page_content (Get_Messages mq) env rq d = as_page Messages_View (messages_content mq env rq d)"
| "page_content (Get_Message i) env rq d = as_page Message_View (message_content i env rq d)"
| "page_content Get_Keys env rq d = as_page Keys_View (keys_content env rq d)"
| "page_content Get_Test env rq d = as_page Test_View (test_content_of_page env rq d)"
| "page_content Get_Suppressions env rq d = as_page Suppressions_View (suppressions_content env rq d)"

fun page_name :: "page_route \<Rightarrow> string" where
  "page_name Get_Overview = ''overview''"
| "page_name Get_Integrate = ''integrate''"
| "page_name Get_Domains = ''domains''"
| "page_name (Get_Messages mq) = ''messages''"
| "page_name (Get_Message i) = ''messages''"
| "page_name Get_Keys = ''keys''"
| "page_name Get_Test = ''test''"
| "page_name Get_Suppressions = ''suppressions''"

definition get_page :: "page_route \<Rightarrow> page_env \<Rightarrow> http_request \<Rightarrow> app_state \<Rightarrow> page_view got result \<times> app_state" where
  "get_page r = show_page (page_name r) (page_content r)"

section \<open>What no page shows\<close>

text \<open>A database with other secrets: other message bodies, mailbox passwords and key hashes.\<close>

definition mask_message :: "(message_row \<Rightarrow> string option \<times> string option) \<Rightarrow> message_row \<Rightarrow> message_row" where
  "mask_message b m = m\<lparr>ms_body_html := fst (b m), ms_body_text := snd (b m)\<rparr>"

definition mask_mailbox :: "(mailbox_row \<Rightarrow> string) \<Rightarrow> mailbox_row \<Rightarrow> mailbox_row" where
  "mask_mailbox pw m = m\<lparr>mb_password_encrypted := pw m\<rparr>"

definition mask_key :: "(api_key_row \<Rightarrow> string) \<Rightarrow> api_key_row \<Rightarrow> api_key_row" where
  "mask_key h k = k\<lparr>ak_key_hash := h k\<rparr>"

definition with_secrets ::
    "(message_row \<Rightarrow> string option \<times> string option) \<Rightarrow> (mailbox_row \<Rightarrow> string) \<Rightarrow> (api_key_row \<Rightarrow> string) \<Rightarrow>
     db \<Rightarrow> db" where
  "with_secrets b pw h d = d\<lparr>messages := map (mask_message b) (messages d),
     mailboxes := map (mask_mailbox pw) (mailboxes d), api_keys := map (mask_key h) (api_keys d)\<rparr>"

lemma mask_sel [simp]:
  "ms_id (mask_message b m) = ms_id m" "ms_public_id (mask_message b m) = ms_public_id m"
  "ms_project_id (mask_message b m) = ms_project_id m" "ms_mailbox_id (mask_message b m) = ms_mailbox_id m"
  "ms_status (mask_message b m) = ms_status m" "ms_from_address (mask_message b m) = ms_from_address m"
  "ms_from_name (mask_message b m) = ms_from_name m" "ms_to_addresses (mask_message b m) = ms_to_addresses m"
  "ms_cc_addresses (mask_message b m) = ms_cc_addresses m" "ms_bcc_addresses (mask_message b m) = ms_bcc_addresses m"
  "ms_subject (mask_message b m) = ms_subject m" "ms_created_at (mask_message b m) = ms_created_at m"
  "ms_last_attempt_at (mask_message b m) = ms_last_attempt_at m" "ms_attempts (mask_message b m) = ms_attempts m"
  "ms_provider_response (mask_message b m) = ms_provider_response m"
  "ms_provider_latency_ms (mask_message b m) = ms_provider_latency_ms m"
  "ms_failure_class (mask_message b m) = ms_failure_class m" "ms_failure_code (mask_message b m) = ms_failure_code m"
  "ms_needs_review (mask_message b m) = ms_needs_review m" "ms_completed_at (mask_message b m) = ms_completed_at m"
  "mb_id (mask_mailbox pw x) = mb_id x" "mb_domain_id (mask_mailbox pw x) = mb_domain_id x"
  "mb_address (mask_mailbox pw x) = mb_address x" "mb_active (mask_mailbox pw x) = mb_active x"
  "mb_hourly_limit (mask_mailbox pw x) = mb_hourly_limit x"
  "ak_id (mask_key h k) = ak_id k" "ak_project_id (mask_key h k) = ak_project_id k"
  "ak_name (mask_key h k) = ak_name k" "ak_key_prefix (mask_key h k) = ak_key_prefix k"
  "ak_active (mask_key h k) = ak_active k" "ak_created_at (mask_key h k) = ak_created_at k"
  "ak_last_used_at (mask_key h k) = ak_last_used_at k" "ak_revoked_at (mask_key h k) = ak_revoked_at k"
  by (simp_all add: mask_message_def mask_mailbox_def mask_key_def)

lemma with_secrets_sel [simp]:
  "messages (with_secrets b pw h d) = map (mask_message b) (messages d)"
  "mailboxes (with_secrets b pw h d) = map (mask_mailbox pw) (mailboxes d)"
  "api_keys (with_secrets b pw h d) = map (mask_key h) (api_keys d)"
  "domains (with_secrets b pw h d) = domains d" "projects (with_secrets b pw h d) = projects d"
  "api_key_scopes (with_secrets b pw h d) = api_key_scopes d" "events (with_secrets b pw h d) = events d"
  "suppressions (with_secrets b pw h d) = suppressions d"
  "provisioning_jobs (with_secrets b pw h d) = provisioning_jobs d"
  "worker_heartbeats (with_secrets b pw h d) = worker_heartbeats d"
  by (simp_all add: with_secrets_def)

text \<open>Queries over a table of changed rows.\<close>

lemma sort_key_map: "sort_key f (map g xs) = map g (sort_key (\<lambda>x. f (g x)) xs)"
proof -
  have "insort_key f (g x) (map g ys) = map g (insort_key (\<lambda>x. f (g x)) x ys)" for x ys
    by (induction ys) auto
  then show ?thesis by (induction xs) (simp_all add: sort_key_def)
qed

lemma count_where_map: "count_where P (map g xs) = count_where (\<lambda>x. P (g x)) xs"
  by (induction xs) auto

lemma find_map: "find P (map g xs) = map_option g (find (\<lambda>x. P (g x)) xs)"
  by (induction xs) auto

lemma map_filter_map: "List.map_filter f (map g xs) = List.map_filter (\<lambda>x. f (g x)) xs"
  by (induction xs) (simp_all add: List.map_filter_simps split: option.split)

lemma map_result_map: "map_result f (map g xs) = map_result (\<lambda>x. f (g x)) xs"
  by (induction xs) simp_all

lemmas mapped_queries = sort_key_map count_where_map find_map map_filter_map map_result_map filter_map comp_def

lemma lookups_masked [simp]:
  "domain_of (with_secrets b pw h d) i = domain_of d i" "project_of (with_secrets b pw h d) i = project_of d i"
  "mailbox_of (with_secrets b pw h d) i = map_option (mask_mailbox pw) (mailbox_of d i)"
  by (simp_all add: domain_of_def project_of_def mailbox_of_def mapped_queries)

lemma row_tests_masked [simp]:
  "is_accepted (mask_message b m) = is_accepted m" "is_failed (mask_message b m) = is_failed m"
  "is_pending (mask_message b m) = is_pending m" "in_scope c p (mask_message b m) = in_scope c p m"
  "attempted_since i c (mask_message b m) = attempted_since i c m" "found_by q (mask_message b m) = found_by q m"
  "view_message_line (mask_message b m) = view_message_line m"
  by (simp_all add: is_accepted_def is_failed_def is_pending_def in_scope_def attempted_since_def found_by_def
      view_message_line_def split: option.split)

lemma labels_masked [simp]:
  "project_label (with_secrets b pw h d) = project_label d" "domain_label (with_secrets b pw h d) = domain_label d"
  "project_label d (mask_message b m) = project_label d m" "domain_label d (mask_message b m) = domain_label d m"
  by (auto simp: fun_eq_iff project_label_def domain_label_def split: option.split)

lemma group_labels_masked:
  "(\<And>m. label (g m) = label m) \<Longrightarrow> group_labels label (map g rows) = group_labels label rows"
  by (simp add: group_labels_def mapped_queries)

lemma volume_masked:
  "(\<And>m. label (mask_message b m) = label m) \<Longrightarrow> volume_by label (map (mask_message b) rows) = volume_by label rows"
  by (simp add: volume_by_def group_labels_masked mapped_queries Let_def)

lemma headroom_masked:
  "rate_headroom now (with_secrets b pw h d) margin p = rate_headroom now d margin p"
proof -
  have "headroom_of margin (mask_mailbox pw x) n = headroom_of margin x n" for x n
    by (simp add: headroom_of_def)
  moreover have "joined_rows now (with_secrets b pw h d) (mask_mailbox pw x) =
      map (map_option (mask_message b)) (joined_rows now d x)" for x
    by (simp add: joined_rows_def mapped_queries Let_def)
  moreover have "row_in_project p (map_option (mask_message b) r) = row_in_project p r" for r
    by (auto simp: row_in_project_def split: option.split)
  ultimately have "mailbox_headroom now margin p (with_secrets b pw h d) (mask_mailbox pw x) =
      mailbox_headroom now margin p d x" for x
    by (simp add: mailbox_headroom_def mapped_queries Let_def)
  then show ?thesis by (simp add: rate_headroom_def mapped_queries)
qed

lemma overview_masked:
  "build_overview now w margin p (with_secrets b pw h d) = build_overview now w margin p d"
  by (simp add: build_overview_def scoped_rows_def mapped_queries volume_masked headroom_masked Let_def
      provider_latency_def failures_by_class_def queue_health_def worker_status_def group_labels_masked)

lemma guidance_masked [simp]:
  "domains_with_mailbox (with_secrets b pw h d) = domains_with_mailbox d"
  "action_in (with_secrets b pw h d) = action_in d"
  "key_usable (mask_key h k) = key_usable k"
  by (simp_all add: domains_with_mailbox_def mapped_queries fun_eq_iff action_in_def key_usable_def)

lemma setup_masked:
  "next_step (with_secrets b pw h d) url = next_step d url"
  "domain_actions (with_secrets b pw h d) = domain_actions d"
  by (simp_all add: next_step_def domain_actions_def mapped_queries)

lemma ready_masked: "map mb_address (ready_mailboxes (with_secrets b pw h d)) = map mb_address (ready_mailboxes d)"
  by (simp add: ready_mailboxes_def mapped_queries)

lemma testsend_masked:
  "send_options (with_secrets b pw h d) = send_options d"
  "blocked_senders (with_secrets b pw h d) = blocked_senders d"
proof -
  have s: "scopes_of (with_secrets b pw h d) (mask_key h k) = scopes_of d k" for k
    by (simp add: scopes_of_def)
  have u: "usable_keys (with_secrets b pw h d) = map (mask_key h) (usable_keys d)"
    by (simp add: usable_keys_def mapped_queries)
  have "sendable (with_secrets b pw h d) = sendable d"
    by (simp add: sendable_def mapped_queries)
  then have "options_of_key (with_secrets b pw h d) (mask_key h k) = options_of_key d k" for k
    by (simp add: options_of_key_def s split: option.split)
  then show "send_options (with_secrets b pw h d) = send_options d"
    by (simp add: send_options_def u mapped_queries)
  have "scoped_of_key (with_secrets b pw h d) (mask_key h k) = scoped_of_key d k" for k
    by (simp add: scoped_of_key_def s split: option.split)
  moreover have "blocked_mailbox (with_secrets b pw h d) ids (mask_mailbox pw m) = blocked_mailbox d ids m" for ids m
    by (simp add: blocked_mailbox_def split: option.split)
  moreover have "blocked_domain (with_secrets b pw h d) = blocked_domain d"
    by (simp add: fun_eq_iff blocked_domain_def image_image)
  ultimately show "blocked_senders (with_secrets b pw h d) = blocked_senders d"
    by (simp add: blocked_senders_def u mapped_queries)
qed

lemma messages_masked: "messages_content mq env rq (with_secrets b pw h d) = messages_content mq env rq d"
proof (cases "status_filter (mq_status mq)")
  case (Inr f)
  then have "f (mask_message b m) = f m" for m
    by (auto simp: status_filter_def split: if_splits option.splits)
  with Inr show ?thesis by (simp add: messages_content_def mapped_queries take_map Let_def)
qed (simp add: messages_content_def)

lemma message_masked: "message_content i env rq (with_secrets b pw h d) = message_content i env rq d"
proof -
  have v: "view_message_page (with_secrets b pw h d) (mask_message b m) p = view_message_page d m p" for m p
    by (simp add: view_message_page_def split: option.split)
  let ?rows = "\<lambda>e. List.map_filter (\<lambda>m. map_option (Pair m) (project_of e (ms_project_id m)))
    (filter (\<lambda>m. ms_public_id m = i) (messages e))"
  have "List.map_filter (\<lambda>m. map_option (Pair (mask_message b m)) (project_of d (ms_project_id m))) ms =
      map (map_prod (mask_message b) (\<lambda>p. p)) (List.map_filter (\<lambda>m. map_option (Pair m) (project_of d (ms_project_id m))) ms)"
    for ms
    by (induction ms) (simp_all add: List.map_filter_simps split: option.split)
  then have "?rows (with_secrets b pw h d) = map (map_prod (mask_message b) (\<lambda>p. p)) (?rows d)"
    by (simp add: mapped_queries)
  then show ?thesis
    by (cases "?rows d" rule: remdups_adj.cases)
       (auto simp: message_content_def scalar_one_or_none_def v)
qed

lemma keys_masked: "keys_content env rq (with_secrets b pw h d) = keys_content env rq d"
proof -
  have "view_key (with_secrets b pw h d) (mask_key h k) = view_key d k" for k
    by (auto simp: fun_eq_iff view_key_def scopes_of_def split: option.split)
  then show ?thesis by (simp add: keys_content_def ready_masked mapped_queries)
qed

text \<open>
  C16 No page of the dashboard shows a secret.  Two databases that differ only in message bodies, stored
  mailbox passwords and key hashes give the same response to every page request, with or without a
  search.
\<close>

theorem pages_show_no_secrets:
  "get_page r env rq \<lparr>as_db = with_secrets b pw h d, as_shots = shots\<rparr> =
   (case get_page r env rq \<lparr>as_db = d, as_shots = shots\<rparr> of (response, st) \<Rightarrow>
      (response, st\<lparr>as_db := with_secrets b pw h d\<rparr>))"
proof -
  have "view_suppression_line (with_secrets b pw h d) = view_suppression_line d"
    by (simp add: fun_eq_iff view_suppression_line_def split: option.split)
  then have "page_content r env rq (with_secrets b pw h d) = page_content r env rq d"
    by (cases r) (simp_all add: overview_content_def overview_masked setup_masked integrate_content_def
        ready_masked domains_content_def recent_def messages_masked message_masked keys_masked
        test_content_of_page_def testsend_masked suppressions_content_def list_suppressions_def
        count_suppressions_def)
  then show ?thesis
    by (cases "py_guard env rq"; cases "page_content r env rq d")
       (auto simp: get_page_def show_page_def base_view_def split: option.split sum.split prod.split)
qed

section \<open>The search\<close>

definition plain_pattern :: "string \<Rightarrow> bool" where
  "plain_pattern q = list_all (\<lambda>c. c \<noteq> CHR ''%'' \<and> c \<noteq> CHR ''_'' \<and> c \<noteq> char_of (92 :: nat)) q"

lemma like_anything: "sql_like ''%'' s"
  by (induction s) simp_all

lemma like_prefix: "plain_pattern q \<Longrightarrow> sql_like (q @ ''%'') s = starts_with q s"
proof (induction q arbitrary: s)
  case Nil
  show ?case using like_anything [of s] by (simp add: starts_with_def)
next
  case (Cons c q)
  then show ?case
    by (cases s) (auto simp: plain_pattern_def starts_with_def)
qed

text \<open>Between two percent signs, a pattern without special characters is a substring test.\<close>

lemma like_substring: "plain_pattern q \<Longrightarrow> sql_like (''%'' @ q @ ''%'') s = py_in q s"
proof (induction s)
  case Nil
  then show ?case by (auto simp: like_prefix starts_with_iff)
next
  case (Cons c s)
  then show ?case using like_prefix [OF Cons.prems, of "c # s"] by simp
qed

text \<open>What a reader of the page takes a search for.\<close>

definition contains_text :: "string \<Rightarrow> message_row \<Rightarrow> bool" where
  "contains_text q m =
     (py_in q (py_lower (ms_public_id m)) \<or>
      (case ms_subject m of None \<Rightarrow> False | Some x \<Rightarrow> py_in q (py_lower x)) \<or>
      py_in q (py_lower (jsonb_text (ms_to_addresses m))))"

lemma found_by_substring:
  assumes "plain_pattern (py_lower (py_strip q))"
  shows "found_by q m = contains_text (py_lower (py_strip q)) m"
proof -
  have "py_lower (search_pattern q) = search_pattern q"
  proof -
    have "lower_char (CHR ''%'') = CHR ''%''" by code_simp
    then show ?thesis by (simp add: search_pattern_def py_lower_def comp_def)
  qed
  then show ?thesis
    using like_substring [OF assms]
    by (simp add: found_by_def contains_text_def sql_ilike_def Let_def search_pattern_def split: option.split)
qed

text \<open>
  The message page finds by substring.  For a search text without the special characters of a
  pattern, the messages it lists are the newest hundred of exactly those whose public id, subject or
  recipient list contains the text in any case, with the chosen status and, on request, only those
  awaiting a person; the total counts all of them.
\<close>

theorem search_is_by_substring:
  assumes "mq_q mq = Some q" "q \<noteq> []" "plain_pattern (py_lower (py_strip q))"
    and "mq_status mq = Some (message_status_value s)" "messages_content mq env rq d = Inr r"
  shows "\<exists>v. r = Inr v \<and> (let hits = filter (\<lambda>m. contains_text (py_lower (py_strip q)) m \<and> ms_status m = s \<and>
          (mq_review mq = 0 \<or> ms_needs_review m)) (messages d) in
      mv_total v = length hits \<and>
      mv_messages v = map view_message_line (take 100 (sort_key (\<lambda>m. - ms_created_at m) hits)))"
proof -
  have "status_filter (Some (message_status_value s)) = Inr (\<lambda>m. ms_status m = s)"
    by (cases s) (simp_all add: status_filter_def truthy_str_def or_empty_def message_status_of_def
        message_status_value_def enum_message_status_def)
  moreover have "(\<lambda>m. contains_text t m \<and> ms_status m = s \<and> (if mq_review mq \<noteq> 0 then ms_needs_review m else True)) =
      (\<lambda>m. contains_text t m \<and> ms_status m = s \<and> (mq_review mq = 0 \<or> ms_needs_review m))" for t
    by auto
  ultimately show ?thesis
    using assms
    by (simp only: messages_content_def truthy_str_def or_empty_def found_by_substring Let_def bind_result_simps
        option.case if_True) (auto simp: found_by_substring)
qed

theorem search_is_by_substring_witness:
  "\<exists>v. messages_content \<lparr>mq_q = Some '' U@ '', mq_status = Some ''queued'', mq_review = 0\<rparr> ex_env ex_form_request ex_db =
     Inr (Inr v) \<and> mv_total v = 1"
proof -
  let ?mq = "\<lparr>mq_q = Some '' U@ '', mq_status = Some ''queued'', mq_review = 0\<rparr>"
  have q: "py_lower (py_strip '' U@ '') = ''u@''" and plain: "plain_pattern ''u@''"
    and hit: "contains_text ''u@'' ex_message" by code_simp+
  have queued: "message_status_value Queued = ''queued''" by (simp add: message_status_value_def)
  have "\<not> isl (messages_content ?mq ex_env ex_form_request ex_db)" by code_simp
  then obtain r where r: "messages_content ?mq ex_env ex_form_request ex_db = Inr r"
    by (cases "messages_content ?mq ex_env ex_form_request ex_db") auto
  have "ms_status ex_message = Queued" by (simp add: ex_message_def)
  with search_is_by_substring [where mq = ?mq and q = "'' U@ ''" and s = Queued, OF _ _ _ _ r] r q plain hit queued
  show ?thesis by (auto simp: Let_def)
qed

text \<open>An underscore in the text is not itself: it stands for any character.\<close>

lemma underscore_is_a_wildcard:
  "sql_like (search_pattern ''a_b@c.io'') ''axb@c.io'' \<and> \<not> py_in ''a_b@c.io'' ''axb@c.io''"
  by code_simp

end
