(* ===== verification/Admin.thy ===== *)
theory Admin
  imports Provisioning Management Metrics Startup
begin

text \<open>
  The administration command line (emaild/admin.py), the only process with the provider's root
  credential.  A command is what the argument parser made of the arguments; running it gives an exit
  code or an exception, the lines printed, and the world (database and provider) it leaves.  The clock,
  the connection, the cipher, the random password and key, and the loss of a race are inputs.
\<close>

section \<open>Commands\<close>

definition exit_ok :: nat where "exit_ok = 0"
definition exit_usage :: nat where "exit_usage = 2"
definition exit_failed :: nat where "exit_failed = 1"
definition exit_policy :: nat where "exit_policy = 3"

datatype command =
    Cmd_Domains_List
  | Cmd_Domains_Token
  | Cmd_Domains_Add string
  | Cmd_Domains_Records string
  | Cmd_Domains_Verify "string option"
  | Cmd_Mailboxes_List
  | Cmd_Mailboxes_Provision string "string option" bool
  | Cmd_Mailboxes_Usage string
  | Cmd_Mailboxes_Rotate string
  | Cmd_Projects_List
  | Cmd_Projects_Create string "string option"
  | Cmd_Keys_List
  | Cmd_Keys_Revoke string
  | Cmd_Keys_Create string string "string list"
  | Cmd_Status int
  | Cmd_Suppressions_List int
  | Cmd_Suppressions_Add string "string option"
  | Cmd_Suppressions_Remove string bool

text \<open>A line goes to standard output or to standard error.\<close>

datatype console_line = Out string | Err string

type_synonym 'p run = "(nat result \<times> console_line list) \<times> 'p world"

record 'p admin_env =
  ad_settings :: settings
  ad_now :: time
  ad_connect :: "string \<times> string \<times> string \<Rightarrow> 'p requester"
  ad_dns :: resolver
  ad_encrypt :: "string \<Rightarrow> string \<Rightarrow> string"
  ad_password :: string
  ad_hash :: "string \<Rightarrow> string"
  ad_urlsafe :: string
  ad_lost_race :: bool
  ad_rival :: "suppression_row option"

definition finish :: "nat \<Rightarrow> console_line list \<Rightarrow> 'p world \<Rightarrow> 'p run" where
  "finish code lines w = ((Inr code, lines), w)"

text \<open>\<open>_provider\<close>: the credentials, all three of which a command that talks to the provider needs.\<close>

definition missing_credentials :: "settings \<Rightarrow> string list" where
  "missing_credentials s = map fst (filter (\<lambda>(name, v). \<not> truthy_str v)
     [(''EMAILD_MXROUTE_SERVER'', st_mxroute_server s), (''EMAILD_MXROUTE_USERNAME'', st_mxroute_username s),
      (''EMAILD_MXROUTE_API_KEY'', st_mxroute_api_key s)])"

definition provider_credentials :: "settings \<Rightarrow> (string \<times> string \<times> string) result" where
  "provider_credentials s =
     (let missing = missing_credentials s in
      if missing \<noteq> [] then
        Inl (Credentials_Missing (''This command talks to MXRoute, which needs credentials that are not '' @
          ''set: '' @ py_join '', '' missing @ ''.'' @ newline @ newline @
          ''Add them to .env and restart. Commands that do not reach the '' @
          ''provider -- keys, projects, suppressions, status -- work without them.''))
      else Inr (or_empty (st_mxroute_server s), or_empty (st_mxroute_username s), or_empty (st_mxroute_api_key s)))"

definition with_provider :: "'p admin_env \<Rightarrow> ('p requester \<Rightarrow> 'p world \<Rightarrow> 'p run) \<Rightarrow> 'p world \<Rightarrow> 'p run" where
  "with_provider env body w = (case provider_credentials (ad_settings env) of
       Inl e \<Rightarrow> ((Inl e, []), w)
     | Inr c \<Rightarrow> body (ad_connect env c) w)"

definition cipher_key :: "settings \<Rightarrow> string result" where
  "cipher_key s = (if truthy_str (st_mailbox_encryption_key s) then Inr (or_empty (st_mailbox_encryption_key s))
     else Inl (Runtime_Error ''EMAILD_MAILBOX_ENCRYPTION_KEY is required to handle credentials''))"

text \<open>
  A session: what the command raises rolls the database back, not the provider; a command that returns
  from within it commits.
\<close>

definition in_session :: "('p world \<Rightarrow> 'p run) \<Rightarrow> 'p world \<Rightarrow> 'p run" where
  "in_session body w = (case body w of
       ((Inl e, out), w1) \<Rightarrow> ((Inl e, out), (fst w, snd w1))
     | ((Inr code, out), w1) \<Rightarrow> ((Inr code, out), w1))"

text \<open>An operation on the database alone; a caught exception becomes an exit code.\<close>

definition db_command ::
    "(exn \<Rightarrow> (nat \<times> console_line list) option) \<Rightarrow> (db \<Rightarrow> ('a \<times> db) result) \<Rightarrow> ('a \<Rightarrow> console_line list) \<Rightarrow>
     'p world \<Rightarrow> 'p run" where
  "db_command caught act printed w = (case act (fst w) of
       Inr (x, d) \<Rightarrow> finish exit_ok (printed x) (d, snd w)
     | Inl e \<Rightarrow> (case caught e of
         Some (code, lines) \<Rightarrow> finish code lines w
       | None \<Rightarrow> ((Inl e, []), w)))"

definition query_command :: "(db \<Rightarrow> (nat \<times> console_line list) result) \<Rightarrow> 'p world \<Rightarrow> 'p run" where
  "query_command ask w = (case ask (fst w) of
       Inl e \<Rightarrow> ((Inl e, []), w)
     | Inr (code, lines) \<Rightarrow> finish code lines w)"

definition management_failure :: "exn \<Rightarrow> (nat \<times> console_line list) option" where
  "management_failure e = (case e of Management_Error m \<Rightarrow> Some (exit_failed, [Err m]) | _ \<Rightarrow> None)"

definition address_failure :: "exn \<Rightarrow> (nat \<times> console_line list) option" where
  "address_failure e = (case e of Invalid_Address m \<Rightarrow> Some (exit_failed, [Err (''Failed: '' @ m)]) | _ \<Rightarrow> None)"

section \<open>Tables\<close>

definition ljust :: "nat \<Rightarrow> string \<Rightarrow> string" where
  "ljust n s = s @ replicate (n - length s) (CHR '' '')"

definition rjust :: "nat \<Rightarrow> string \<Rightarrow> string" where
  "rjust n s = replicate (n - length s) (CHR '' '') @ s"

definition column_widths :: "string list list \<Rightarrow> string list \<Rightarrow> nat list" where
  "column_widths rows headers =
     map (\<lambda>i. Max (set (map (\<lambda>r. length (r ! i)) (headers # rows)))) [0..<length headers]"

definition table_row :: "nat list \<Rightarrow> string list \<Rightarrow> string" where
  "table_row widths r = py_join ''  '' (map (\<lambda>i. ljust (widths ! i) (r ! i)) [0..<length widths])"

definition table_lines :: "string list list \<Rightarrow> string list \<Rightarrow> string list" where
  "table_lines rows headers =
     (let widths = column_widths rows headers in
      table_row widths headers # py_join ''  '' (map (\<lambda>w. replicate w (CHR ''-'')) widths) #
      map (table_row widths) rows)"

definition text_table :: "string list list \<Rightarrow> string list \<Rightarrow> string" where
  "text_table rows headers = py_join newline (table_lines rows headers)"

definition yes_no :: "bool \<Rightarrow> string" where "yes_no b = (if b then ''yes'' else ''no'')"

definition or_dash :: "string option \<Rightarrow> string" where
  "or_dash s = (if truthy_str s then or_empty s else ''-'')"

definition time_or_never :: "time option \<Rightarrow> string" where
  "time_or_never t = (case t of None \<Rightarrow> ''never'' | Some x \<Rightarrow> minute_text x)"

section \<open>Domains\<close>

definition cmd_domains_list :: "'p world \<Rightarrow> 'p run" where
  "cmd_domains_list = query_command (\<lambda>d. Inr (exit_ok,
     if domains d = [] then [Out ''No domains tracked. Add one with: domains add <name>'']
     else [Out (text_table
       (map (\<lambda>x. [dm_name x, domain_status_value (dm_status x), or_dash (dm_smtp_host x),
                  time_or_never (dm_dns_checked_at x)]) (sort_key dm_name (domains d)))
       [''DOMAIN'', ''STATUS'', ''SMTP HOST'', ''LAST CHECKED''])]))"

text \<open>A call that only reads from the provider, and what is printed of its answer.\<close>

definition provider_query ::
    "'p admin_env \<Rightarrow> ('p requester \<Rightarrow> 'p \<Rightarrow> 'a result \<times> 'p) \<Rightarrow> ('a \<Rightarrow> console_line list result) \<Rightarrow> 'p world \<Rightarrow> 'p run" where
  "provider_query env ask printed = with_provider env (\<lambda>rq w.
     case on_provider (ask rq) w of
       (Inl e, w1) \<Rightarrow> ((Inl e, []), w1)
     | (Inr x, w1) \<Rightarrow> (case printed x of
         Inl e \<Rightarrow> ((Inl e, []), w1)
       | Inr lines \<Rightarrow> finish exit_ok lines w1))"

definition cmd_domains_token :: "'p admin_env \<Rightarrow> 'p world \<Rightarrow> 'p run" where
  "cmd_domains_token env = provider_query env get_verification_record (\<lambda>r. Inr
     [Out (''Publish this TXT record BEFORE adding any new domain:'' @ newline),
      Out (''  Type:  '' @ json_str (vr_type r)), Out (''  Name:  '' @ json_str (vr_name r)),
      Out (''  Value: '' @ json_str (vr_value r) @ newline),
      Out (''Then wait for propagation (MXRoute suggests 5-15 minutes) before '' @ in_quotes ''domains add'' @ ''.'')])"

definition cmd_domains_add :: "'p admin_env \<Rightarrow> string \<Rightarrow> 'p world \<Rightarrow> 'p run" where
  "cmd_domains_add env name = with_provider env (\<lambda>rq. in_session (\<lambda>w.
     case add_domain rq (ad_now env) name w of
       (Inr r, w1) \<Rightarrow> finish exit_ok
         [Out (''Tracking '' @ dm_name r @ '' (status: '' @ domain_status_value (dm_status r) @ '')''),
          Out (newline @ ''Next: python -m emaild.admin domains records '' @ name)] w1
     | (Inl e, w1) \<Rightarrow>
         if is_mx_error e then finish exit_failed
           [Err (''Failed to add '' @ name @ '': '' @ exn_text e), Err (newline @ domain_add_advice e name)] w1
         else ((Inl e, []), w1)))"

definition record_lines :: "json \<Rightarrow> console_line list result" where
  "record_lines r =
     bind_result (json_get r ''type'') (\<lambda>kind. bind_result (json_get r ''name'') (\<lambda>name.
     bind_result (json_get r ''value'') (\<lambda>v. bind_result (json_get r ''priority'') (\<lambda>priority.
       Inr [Out (''  '' @ ljust 4 (json_str kind) @ '' '' @ json_str name @
              (if json_truthy priority then ''  (priority '' @ json_str priority @ '')'' else [])),
            Out (''       '' @ json_str v @ newline)]))))"

definition dkim_value :: "json \<Rightarrow> json result" where
  "dkim_value dns_info = bind_result (get_or dns_info ''dkim'' (JObj [])) (\<lambda>dkim. json_get dkim ''value'')"

definition cmd_domains_records :: "'p admin_env \<Rightarrow> string \<Rightarrow> 'p world \<Rightarrow> 'p run" where
  "cmd_domains_records env name = provider_query env (\<lambda>rq. get_dns rq name) (\<lambda>dns_info.
     bind_result (required_dns_records name dns_info) (\<lambda>records.
     bind_result (map_result record_lines records) (\<lambda>lines.
     bind_result (dkim_value dns_info) (\<lambda>dkim.
       Inr ([Out (''DNS records required for '' @ name @ '':'' @ newline)] @ concat lines @
         (if json_truthy dkim then [] else
           [Out ''WARNING: MXRoute has not generated a DKIM key for this domain.'',
            Out (''         The domain cannot reach '' @ in_quotes ''ready'' @ '' until it exists.'' @ newline)]) @
         [Out ''Paste values WITHOUT surrounding quotes -- most registrars add their own.''])))))"

definition check_mark :: "check_result \<Rightarrow> string" where
  "check_mark r = (case r of Pass \<Rightarrow> ''ok  '' | Fail \<Rightarrow> ''FAIL'' | Missing \<Rightarrow> ''MISS'' | Errored \<Rightarrow> ''ERR '')"

definition refresh_lines :: "domain_refresh \<Rightarrow> string \<Rightarrow> console_line list" where
  "refresh_lines f name =
     [Out (newline @ name @ '': '' @
        (if rf_changed f then domain_status_value (rf_previous f) @ '' -> '' @ domain_status_value (rf_current f)
         else domain_status_value (rf_current f)))] @
     (if truthy_str (rf_note f) then [Out (''  '' @ or_empty (rf_note f))] else []) @
     (case rf_report f of None \<Rightarrow> [] | Some rep \<Rightarrow>
        map (\<lambda>(k, c). Out (''    ['' @ check_mark (rc_result c) @ ''] '' @ k @
          (if truthy_str (rc_detail c) then ''  ('' @ or_empty (rc_detail c) @ '')'' else []))) (rp_checks rep))"

definition refresh_ok :: "domain_refresh \<Rightarrow> bool" where
  "refresh_ok f = (case rf_report f of None \<Rightarrow> False | Some rep \<Rightarrow> report_can_send rep)"

fun verify_each ::
    "'p requester \<Rightarrow> resolver \<Rightarrow> time \<Rightarrow> string list \<Rightarrow> nat \<Rightarrow> 'p world \<Rightarrow> 'p run" where
  "verify_each rq dns now [] worst w = finish worst [] w"
| "verify_each rq dns now (name # names) worst w =
     (case refresh_domain rq dns now name w of
        (Inl e, w1) \<Rightarrow> ((Inl e, []), w1)
      | (Inr f, w1) \<Rightarrow>
          (case verify_each rq dns now names (if refresh_ok f then worst else exit_failed) w1 of
             ((r, out), w2) \<Rightarrow> ((r, refresh_lines f name @ out), w2)))"

definition cmd_domains_verify :: "'p admin_env \<Rightarrow> string option \<Rightarrow> 'p world \<Rightarrow> 'p run" where
  "cmd_domains_verify env name = with_provider env (\<lambda>rq. in_session (\<lambda>w.
     let targets = (if truthy_str name then [or_empty name] else map dm_name (domains (fst w))) in
     if targets = [] then finish exit_ok [Out ''No domains tracked.''] w
     else verify_each rq (ad_dns env) (ad_now env) targets exit_ok w))"

section \<open>Mailboxes\<close>

definition cmd_mailboxes_list :: "'p world \<Rightarrow> 'p run" where
  "cmd_mailboxes_list = query_command (\<lambda>d.
     let rows = List.map_filter (\<lambda>m. map_option (Pair m) (domain_of d (mb_domain_id m)))
           (sort_key mb_address (mailboxes d))
     in Inr (exit_ok, if rows = [] then [Out ''No mailboxes provisioned.'']
       else [Out (text_table (map (\<lambda>(m, x). [mb_address m, domain_status_value (dm_status x),
           str_of_int (mb_hourly_limit m), yes_no (mb_active m)]) rows)
         [''ADDRESS'', ''DOMAIN STATUS'', ''HOURLY'', ''ACTIVE''])]))"

definition cmd_mailboxes_provision :: "'p admin_env \<Rightarrow> string \<Rightarrow> string option \<Rightarrow> bool \<Rightarrow> 'p world \<Rightarrow> 'p run" where
  "cmd_mailboxes_provision env address display_name additional = with_provider env (\<lambda>rq. in_session (\<lambda>w.
     case cipher_key (ad_settings env) of
       Inl e \<Rightarrow> ((Inl e, []), w)
     | Inr key \<Rightarrow>
         (case provision_mailbox rq (ad_encrypt env key) (ad_now env) (ad_password env) address display_name 1024
             additional w of
            (Inr (m, password), w1) \<Rightarrow> finish exit_ok
              [Out (''Provisioned '' @ mb_address m), Out (''  SMTP password: '' @ password),
               Out (newline @ ''  Shown once. It is stored encrypted and never logged.''),
               Out ''  The envelope sender is pinned to this exact address by MXRoute.''] w1
          | (Inl (Policy_Violation m), w1) \<Rightarrow> finish exit_policy [Err (''REFUSED: '' @ m)] w1
          | (Inl (Provisioning_Error m), w1) \<Rightarrow> finish exit_failed [Err (''Failed: '' @ m)] w1
          | (Inl e, w1) \<Rightarrow> ((Inl e, []), w1))))"

definition py_bool :: "bool \<Rightarrow> string" where "py_bool b = (if b then ''True'' else ''False'')"

definition cmd_mailboxes_usage :: "'p admin_env \<Rightarrow> string \<Rightarrow> 'p world \<Rightarrow> 'p run" where
  "cmd_mailboxes_usage env address = provider_query env (\<lambda>rq. provider_usage rq address) (\<lambda>u. Inr
     [Out address,
      Out (''  sent today : '' @ str_of_int (us_sent_today u) @ '' / '' @ str_of_int (us_daily_limit u)),
      Out (''  suspended  : '' @ py_bool (us_suspended u)),
      Out (newline @ ''  Note: this is the provider'' @ [CHR 39] @ ''s DAILY counter. The binding constraint''),
      Out ''  is 400/hour, which MXRoute does not expose -- we track it locally.''])"

text \<open>\<open>PolicyViolation\<close> is a \<open>ProvisioningError\<close>.\<close>

definition provisioning_failure :: "exn \<Rightarrow> bool" where
  "provisioning_failure e = (case e of Provisioning_Error _ \<Rightarrow> True | Policy_Violation _ \<Rightarrow> True | _ \<Rightarrow> False)"

definition cmd_mailboxes_rotate :: "'p admin_env \<Rightarrow> string \<Rightarrow> 'p world \<Rightarrow> 'p run" where
  "cmd_mailboxes_rotate env address = with_provider env (\<lambda>rq. in_session (\<lambda>w.
     case cipher_key (ad_settings env) of
       Inl e \<Rightarrow> ((Inl e, []), w)
     | Inr key \<Rightarrow>
         (case rotate_mailbox_password rq (ad_encrypt env key) (ad_password env) address w of
            (Inr password, w1) \<Rightarrow> finish exit_ok
              [Out (''Rotated password for '' @ address), Out (''  New SMTP password: '' @ password)] w1
          | (Inl e, w1) \<Rightarrow>
              if provisioning_failure e then finish exit_failed [Err (''Failed: '' @ exn_text e)] w1
              else ((Inl e, []), w1))))"

section \<open>Projects and keys\<close>

definition cmd_projects_create :: "'p admin_env \<Rightarrow> string \<Rightarrow> string option \<Rightarrow> 'p world \<Rightarrow> 'p run" where
  "cmd_projects_create env name description = db_command management_failure
     (create_project (ad_now env) (ad_lost_race env) name description) (\<lambda>_. [Out (''Created project '' @ name)])"

definition cmd_projects_list :: "'p world \<Rightarrow> 'p run" where
  "cmd_projects_list = query_command (\<lambda>d. Inr (exit_ok,
     if projects d = [] then [Out ''No projects.'']
     else [Out (text_table (map (\<lambda>x. [pr_name x, or_dash (pr_description x), yes_no (pr_active x)])
         (sort_key pr_name (projects d))) [''PROJECT'', ''DESCRIPTION'', ''ACTIVE''])]))"

definition cmd_keys_create :: "'p admin_env \<Rightarrow> string \<Rightarrow> string \<Rightarrow> string list \<Rightarrow> 'p world \<Rightarrow> 'p run" where
  "cmd_keys_create env name project senders = db_command management_failure
     (create_api_key (ad_hash env) (ad_now env) (ad_urlsafe env) name project senders)
     (\<lambda>(_, full_key, scoped).
       [Out (''Created key '' @ in_quotes name @ '' for project '' @ project),
        Out (newline @ ''  '' @ full_key @ newline),
        Out ''  Shown once and never recoverable -- only a SHA-256 hash is stored.'',
        Out (''  Scoped to: '' @ py_join '', '' scoped)])"

definition cmd_keys_revoke :: "'p admin_env \<Rightarrow> string \<Rightarrow> 'p world \<Rightarrow> 'p run" where
  "cmd_keys_revoke env name = db_command management_failure (revoke_api_key (ad_now env) name) (\<lambda>m. [Out m])"

definition cmd_keys_list :: "'p world \<Rightarrow> 'p run" where
  "cmd_keys_list = query_command (\<lambda>d.
     let rows = List.map_filter (\<lambda>k. map_option (Pair k) (project_of d (ak_project_id k)))
           (sort_key ak_name (api_keys d))
     in Inr (exit_ok, if rows = [] then [Out ''No API keys.'']
       else [Out (text_table (map (\<lambda>(k, x). [ak_name k, pr_name x, ak_key_prefix k @ ''...'', key_state k,
           time_or_never (ak_last_used_at k)]) rows)
         [''NAME'', ''PROJECT'', ''PREFIX'', ''STATE'', ''LAST USED''])]))"

section \<open>Suppressions\<close>

definition cmd_suppressions_list :: "int \<Rightarrow> 'p world \<Rightarrow> 'p run" where
  "cmd_suppressions_list limit = query_command (\<lambda>d.
     bind_result (list_suppressions d limit 0 None) (\<lambda>rows. Inr (exit_ok,
       if rows = [] then [Out ''No suppressions.'']
       else [Out (text_table (map (\<lambda>r. [su_address r, suppression_source_value (su_source r),
             take 60 (or_dash (su_reason r)), minute_text (su_created_at r)]) rows)
           [''ADDRESS'', ''SOURCE'', ''REASON'', ''ADDED'']),
         Out (newline @ ''Showing '' @ str_of_nat (length rows) @ '' of '' @
           str_of_nat (count_suppressions d None) @ ''.'')])))"

definition cmd_suppressions_add :: "'p admin_env \<Rightarrow> string \<Rightarrow> string option \<Rightarrow> 'p world \<Rightarrow> 'p run" where
  "cmd_suppressions_add env address reason = db_command address_failure
     (\<lambda>d. bind_result (add_suppression (ad_now env) (ad_rival env) d d address Manual
        (Some (if truthy_str reason then or_empty reason else ''added by operator'')) None)
        (\<lambda>(r, created, d'). Inr ((r, created), d')))
     (\<lambda>(r, created). [Out (if created then ''Suppressed '' @ su_address r
        else su_address r @ '' was already suppressed (source='' @ suppression_source_value (su_source r) @ '')'')])"

text \<open>The removal looks the address up among the newest thousand entries and asks for confirmation.\<close>

definition cmd_suppressions_remove :: "string \<Rightarrow> bool \<Rightarrow> 'p world \<Rightarrow> 'p run" where
  "cmd_suppressions_remove address yes w = (case list_suppressions (fst w) 1000 0 None of
       Inl e \<Rightarrow> (case address_failure e of
           Some (code, lines) \<Rightarrow> finish code lines w
         | None \<Rightarrow> ((Inl e, []), w))
     | Inr existing \<Rightarrow>
         (case find (\<lambda>r. su_address r = py_lower (py_strip address)) existing of
            None \<Rightarrow> finish exit_failed [Err (''Not suppressed: '' @ address)] w
          | Some r \<Rightarrow>
              if \<not> yes then finish exit_usage
                [Out (''About to resume sending to '' @ su_address r),
                 Out (''  suppressed '' @ minute_text (su_created_at r) @ '' (source='' @
                   suppression_source_value (su_source r) @ '')''),
                 Out (''  reason: '' @ or_dash (su_reason r)), Out (newline @ ''Re-run with --yes to confirm.'')] w
              else db_command (\<lambda>e. None) (\<lambda>d. remove_suppression d address)
                (\<lambda>removed. [Out (if removed then ''Removed suppression for '' @ address else ''Nothing removed'')]) w))"

section \<open>Status\<close>

text \<open>A number with a fixed count of decimals, and a share as a percentage.\<close>

definition format_fixed :: "nat \<Rightarrow> rat \<Rightarrow> string" where
  "format_fixed k x =
     (let n = nat (round_half_even (\<bar>x\<bar> * 10 ^ k)); sign = (if x < 0 then ''-'' else [])
      in sign @ str_of_nat (n div 10 ^ k) @
         (if k = 0 then [] else ''.'' @ pad_to k (int (n mod 10 ^ k))))"

definition format_percent :: "nat \<Rightarrow> rat \<Rightarrow> string" where
  "format_percent k x = format_fixed k (x * 100) @ ''%''"

text \<open>Entries of the dictionaries the metrics build, whose shape is fixed.\<close>

definition num_of :: "(string \<times> dict_value) list \<Rightarrow> string \<Rightarrow> rat" where
  "num_of d k = (case dict_get d k of Some (DNum x) \<Rightarrow> x | _ \<Rightarrow> 0)"

definition str_at :: "(string \<times> dict_value) list \<Rightarrow> string \<Rightarrow> string" where
  "str_at d k = (case dict_get d k of Some (DStr s) \<Rightarrow> s | _ \<Rightarrow> [])"

definition bool_at :: "(string \<times> dict_value) list \<Rightarrow> string \<Rightarrow> bool" where
  "bool_at d k = (case dict_get d k of Some (DBool b) \<Rightarrow> b | _ \<Rightarrow> False)"

definition entries_of :: "dict_value \<Rightarrow> (string \<times> dict_value) list" where
  "entries_of v = (case v of DDict d \<Rightarrow> d | _ \<Rightarrow> [])"

definition middle_dot :: string where "middle_dot = [CHR 0xB7]"

definition installation_lines :: "installation_row option \<Rightarrow> console_line list" where
  "installation_lines i = (case i of None \<Rightarrow> [] | Some x \<Rightarrow>
     [Out (''  installation '' @ in_installation_id x @ ''  '' @ middle_dot @ ''  installed '' @
        take 10 (isoformat (in_installed_at x)) @ '' on v'' @ in_installed_version x)])"

definition queue_lines :: "queue_health_row \<Rightarrow> console_line list" where
  "queue_lines q =
     [Out ''QUEUE'', Out (''  pending          '' @ str_of_nat (qh_pending q)),
      Out (''  sending          '' @ str_of_nat (qh_sending q)),
      Out (''  oldest pending   '' @ (case qh_oldest_pending_seconds q of
          None \<Rightarrow> ''-'' | Some a \<Rightarrow> if a = 0 then ''-'' else format_fixed 1 (a / 60) @ '' min'')),
      Out (''  needs review     '' @ str_of_nat (qh_needs_review q))] @
     (if truthy_str (qh_reason q) then [Out (''  ! '' @ or_empty (qh_reason q))] else [])"

definition volume_lines :: "overview \<Rightarrow> console_line list" where
  "volume_lines o1 =
     [Out (newline @ ''VOLUME''), Out (''  requested        '' @ str_of_nat (ow_requested o1)),
      Out (''  accepted         '' @ str_of_nat (ow_accepted o1)),
      Out (''  failed           '' @ str_of_nat (ow_failed o1)),
      Out (''  failure rate     '' @ format_percent 1 (ow_failure_rate o1))]"

definition latency_lines :: "(string \<times> dict_value) list \<Rightarrow> console_line list" where
  "latency_lines lat =
     (if num_of lat ''samples'' = 0 then [] else
       [Out (newline @ ''PROVIDER LATENCY''),
        Out (''  p50 '' @ format_fixed 0 (num_of lat ''p50'') @ '' ms   p95 '' @ format_fixed 0 (num_of lat ''p95'') @
          '' ms   max '' @ format_fixed 0 (num_of lat ''max'') @ '' ms'' @
          ''   (n='' @ format_fixed 0 (num_of lat ''samples'') @ '')'')])"

definition worker_line :: "(string \<times> dict_value) list \<Rightarrow> console_line" where
  "worker_line w = Out (''  ['' @ (if bool_at w ''alive'' then ''alive'' else ''STALE'') @ ''] '' @
     str_at w ''worker_id'' @ ''  last seen '' @ format_fixed 0 (num_of w ''last_seen_seconds_ago'') @ ''s ago'' @
     ''  processed='' @ format_fixed 0 (num_of w ''messages_processed''))"

definition worker_lines :: "dict_value list \<Rightarrow> console_line list" where
  "worker_lines ws = (if ws = []
     then [Out (newline @ ''WORKERS'' @ newline @ ''  ! none have ever reported -- is the worker running?'')]
     else Out (newline @ ''WORKERS'') # map (worker_line \<circ> entries_of) ws)"

definition headroom_line :: "headroom_row \<Rightarrow> console_line" where
  "headroom_line r = Out (''  '' @ ljust 34 (hr_sender r) @ '' '' @ rjust 4 (str_of_nat (hr_used_this_hour r)) @ ''/'' @
     ljust 4 (str_of_int (hr_our_ceiling r)) @ '' '' @
     ljust 20 (replicate (nat (py_trunc (hr_utilisation r * 20))) (CHR ''#'')) @ '' '' @
     format_percent 0 (hr_utilisation r))"

definition headroom_lines :: "headroom_row list \<Rightarrow> console_line list" where
  "headroom_lines rs = (if rs = [] then [] else
     Out (newline @ ''HOURLY HEADROOM (over-limit is a permanent rejection, not a deferral)'') # map headroom_line rs)"

definition domain_volume_lines :: "volume_slice list \<Rightarrow> console_line list" where
  "domain_volume_lines vs = (if vs = [] then [] else
     [Out (newline @ ''BY DOMAIN''),
      Out (text_table (map (\<lambda>v. [vs_name v, str_of_nat (vs_requested v), str_of_nat (vs_accepted v),
          str_of_nat (vs_failed v), format_percent 1 (failure_rate v)]) vs)
        [''DOMAIN'', ''REQ'', ''ACCEPTED'', ''FAILED'', ''FAIL RATE''])])"

definition failure_lines :: "(string \<times> dict_value) list \<Rightarrow> console_line list" where
  "failure_lines fs = (if fs = [] then [] else
     Out (newline @ ''FAILURES BY CLASS'') #
     map (\<lambda>(name, v). Out (''  '' @ ljust 24 name @ '' '' @ format_fixed 0 (num_of fs name))) fs)"

definition status_lines :: "overview \<Rightarrow> dict_value list \<Rightarrow> installation_row option \<Rightarrow> console_line list" where
  "status_lines o1 keys installed =
     (let q = ow_queue o1; active = filter (\<lambda>k. str_at (entries_of k) ''state'' = ''active'') keys in
      [Out (''emaild '' @ (if qh_healthy q then ''HEALTHY'' else ''ATTENTION'') @ ''   (window: last '' @
         str_of_int (ow_window_hours o1) @ ''h)'')] @
      installation_lines installed @ [Out []] @ queue_lines q @ volume_lines o1 @ latency_lines (ow_latency_ms o1) @
      worker_lines (ow_workers o1) @ headroom_lines (ow_rate_headroom o1) @
      domain_volume_lines (ow_by_domain o1) @ failure_lines (ow_failures_by_class o1) @
      [Out (newline @ ''KEYS  '' @ str_of_nat (length active) @ '' active of '' @ str_of_nat (length keys) @ '' total'')])"

definition cmd_status :: "'p admin_env \<Rightarrow> int \<Rightarrow> 'p world \<Rightarrow> 'p run" where
  "cmd_status env window_hours = query_command (\<lambda>d.
     let o1 = build_overview (ad_now env) window_hours (st_rate_limit_safety_margin (ad_settings env)) None d in
     bind_result (get_installation d) (\<lambda>installed.
       Inr (if qh_healthy (ow_queue o1) then exit_ok else exit_failed, status_lines o1 (active_keys d) installed)))"

section \<open>The program\<close>

fun command_run :: "'p admin_env \<Rightarrow> command \<Rightarrow> 'p world \<Rightarrow> 'p run" where
  "command_run env Cmd_Domains_List = cmd_domains_list"
| "command_run env Cmd_Domains_Token = cmd_domains_token env"
| "command_run env (Cmd_Domains_Add name) = cmd_domains_add env name"
| "command_run env (Cmd_Domains_Records name) = cmd_domains_records env name"
| "command_run env (Cmd_Domains_Verify name) = cmd_domains_verify env name"
| "command_run env Cmd_Mailboxes_List = cmd_mailboxes_list"
| "command_run env (Cmd_Mailboxes_Provision a n additional) = cmd_mailboxes_provision env a n additional"
| "command_run env (Cmd_Mailboxes_Usage a) = cmd_mailboxes_usage env a"
| "command_run env (Cmd_Mailboxes_Rotate a) = cmd_mailboxes_rotate env a"
| "command_run env Cmd_Projects_List = cmd_projects_list"
| "command_run env (Cmd_Projects_Create name description) = cmd_projects_create env name description"
| "command_run env Cmd_Keys_List = cmd_keys_list"
| "command_run env (Cmd_Keys_Revoke name) = cmd_keys_revoke env name"
| "command_run env (Cmd_Keys_Create name project senders) = cmd_keys_create env name project senders"
| "command_run env (Cmd_Status n) = cmd_status env n"
| "command_run env (Cmd_Suppressions_List n) = cmd_suppressions_list n"
| "command_run env (Cmd_Suppressions_Add a reason) = cmd_suppressions_add env a reason"
| "command_run env (Cmd_Suppressions_Remove a yes) = cmd_suppressions_remove a yes"

definition role_message :: "role \<Rightarrow> string" where
  "role_message r = ''This CLI requires EMAILD_ROLE=admin (currently '' @ in_quotes (role_value r) @ ''). '' @
     ''It is the only role permitted to hold the MXRoute account-root key.''"

definition run_as_admin :: "'p admin_env \<Rightarrow> command \<Rightarrow> 'p world \<Rightarrow> 'p run" where
  "run_as_admin env c w =
     (if st_role (ad_settings env) \<noteq> Role_Admin
      then finish exit_usage [Err (role_message (st_role (ad_settings env)))] w
      else command_run env c w)"

text \<open>The exceptions that are answered here; any other ends the program with a traceback.\<close>

definition main_failure :: "exn \<Rightarrow> (nat \<times> console_line list) option" where
  "main_failure e = (case e of
       Credentials_Missing m \<Rightarrow> Some (exit_usage, [Err m])
     | _ \<Rightarrow> if is_mx_error e then Some (exit_failed, [Err (''Provider error: '' @ exn_text e)]) else None)"

definition main :: "'p admin_env \<Rightarrow> command \<Rightarrow> 'p world \<Rightarrow> 'p run" where
  "main env c w = (case run_as_admin env c w of
       ((Inr code, out), w1) \<Rightarrow> ((Inr code, out), w1)
     | ((Inl e, out), w1) \<Rightarrow> (case main_failure e of
         Some (code, lines) \<Rightarrow> ((Inr code, out @ lines), w1)
       | None \<Rightarrow> ((Inl e, out), w1)))"

section \<open>What a command leaves\<close>

lemma fst_on_provider: "fst (snd (on_provider f w)) = fst w"
  by (simp add: on_provider_def split: prod.split)

lemma add_domain_frame:
  assumes "add_domain rq now n w = (r, w')"
  shows "fst w' = fst w \<or> (\<exists>row. r = Inr row \<and> fst w' = insert_domain row (fst w))"
proof (cases "scalar_one_or_none (filter (\<lambda>r. dm_name r = clean_name n) (domains (fst w)))")
  case (Inl e)
  with assms show ?thesis by (simp add: add_domain_def Let_def)
next
  case (Inr found)
  show ?thesis
  proof (cases found)
    case (Some x)
    with assms Inr show ?thesis by (simp add: add_domain_def Let_def)
  next
    case None
    obtain a w1 where 1: "on_provider (register_domain rq (clean_name n)) w = (a, w1)"
      by (cases "on_provider (register_domain rq (clean_name n)) w")
    obtain b w2 where 2: "on_provider (capture_records rq (clean_name n)
        (new_domain (next_id (fst w1)) now (clean_name n))) w1 = (b, w2)"
      by (cases "on_provider (capture_records rq (clean_name n) (new_domain (next_id (fst w1)) now (clean_name n))) w1")
    have "fst w1 = fst w" "fst w2 = fst w"
      using fst_on_provider [of "register_domain rq (clean_name n)" w] 1
        fst_on_provider [of "capture_records rq (clean_name n) (new_domain (next_id (fst w1)) now (clean_name n))" w1] 2
      by simp_all
    with assms Inr None 1 2 show ?thesis
      by (cases a; cases b) (auto simp: add_domain_def Let_def)
  qed
qed

lemma provision_frame:
  assumes "provision_mailbox rq enc now pw a n q extra w = (r, w')"
  shows "fst w' = fst w \<or> (\<exists>x. r = Inr x) \<and> suppressions (fst w') = suppressions (fst w)"
proof (cases "check_identity (py_lower (py_strip a)) extra (fst w)")
  case (Inl e)
  with assms show ?thesis by (simp add: provision_mailbox_def Let_def)
next
  case (Inr x)
  obtain l row where x: "x = (l, row)" by (cases x)
  obtain b w1 where 1: "on_provider (ensure_account rq (dm_name row) l pw q) w = (b, w1)"
    by (cases "on_provider (ensure_account rq (dm_name row) l pw q) w")
  have "fst w1 = fst w" using fst_on_provider [of "ensure_account rq (dm_name row) l pw q" w] 1 by simp
  with assms Inr x 1 show ?thesis
    by (cases b) (auto simp: provision_mailbox_def Let_def update_domain_def insert_mailbox_def)
qed

lemma rotate_frame:
  assumes "rotate_mailbox_password rq enc pw a w = (r, w')"
  shows "fst w' = fst w \<or> (\<exists>x. r = Inr x) \<and> suppressions (fst w') = suppressions (fst w)"
proof (cases "scalar_one_or_none (filter (\<lambda>m. mb_address m = a) (mailboxes (fst w)))")
  case (Inl e)
  with assms show ?thesis by (simp add: rotate_mailbox_password_def)
next
  case (Inr found)
  obtain l sep dmn where p: "partition_at (CHR ''@'') a = (l, sep, dmn)" by (cases "partition_at (CHR ''@'') a")
  obtain b w1 where 1: "on_provider (update_email_account rq dmn l (Some pw) None None) w = (b, w1)"
    by (cases "on_provider (update_email_account rq dmn l (Some pw) None None) w")
  have "fst w1 = fst w" using fst_on_provider [of "update_email_account rq dmn l (Some pw) None None" w] 1 by simp
  with assms Inr p 1 show ?thesis
    by (cases found; cases b) (auto simp: rotate_mailbox_password_def)
qed

lemma refresh_suppressions:
  assumes "refresh_domain rq dns now n w = (r, w')"
  shows "suppressions (fst w') = suppressions (fst w)"
proof -
  have ed: "suppressions (fst v') = suppressions (fst v)" if "edits i v v'" for i and v v' :: "'a world"
    using that by (auto simp: edits_def update_domain_def)
  have st: "suppressions (fst v') = suppressions (fst v)"
    if "store_refresh i n info now rep s v = (a, v')" for i info rep s a and v v' :: "'a world"
    using that by (cases rule: store_refresh_shape) (auto simp: update_domain_def dest: ed)
  show ?thesis
  proof (cases "scalar_one_or_none (filter (\<lambda>r. dm_name r = n) (domains (fst w)))")
    case (Inl e)
    with assms show ?thesis by (simp add: refresh_domain_def)
  next
    case (Inr found)
    obtain b w1 where 1: "on_provider (get_dns rq n) w = (b, w1)" by (cases "on_provider (get_dns rq n) w")
    have w1: "fst w1 = fst w" using fst_on_provider [of "get_dns rq n" w] 1 by simp
    show ?thesis
    proof (cases found)
      case None
      with assms Inr show ?thesis by (simp add: refresh_domain_def)
    next
      case (Some row)
      show ?thesis
      proof (cases b)
        case (Inl e)
        with assms Inr Some 1 w1 show ?thesis by (simp add: refresh_domain_def Let_def split: if_splits)
      next
        case b: (Inr info)
        show ?thesis
        proof (cases "verify_domain dns n info")
          case (Inl e)
          with assms Inr Some 1 w1 b show ?thesis by (simp add: refresh_domain_def Let_def)
        next
          case rep: (Inr report)
          obtain s note1 where ns: "next_status (dm_status row) report (0 < mailbox_count (fst w1) (dm_id row)) = (s, note1)"
            by (cases "next_status (dm_status row) report (0 < mailbox_count (fst w1) (dm_id row))")
          obtain a w2 where 2: "store_refresh (dm_id row) n info now report s w1 = (a, w2)"
            by (cases "store_refresh (dm_id row) n info now report s w1")
          with assms Inr Some 1 b rep ns have "w' = w2"
            by (cases a) (simp_all add: refresh_domain_def Let_def)
          with st [OF 2] w1 show ?thesis by simp
        qed
      qed
    qed
  qed
qed

lemma verify_each_suppressions:
  "verify_each rq dns now names worst w = (x, w') \<Longrightarrow> suppressions (fst w') = suppressions (fst w)"
proof (induction names arbitrary: worst w x w')
  case Nil
  then show ?case by (auto simp: finish_def)
next
  case (Cons n names)
  obtain a w1 where 1: "refresh_domain rq dns now n w = (a, w1)" by (cases "refresh_domain rq dns now n w")
  show ?case
  proof (cases a)
    case (Inl e)
    with Cons.prems 1 refresh_suppressions [OF 1] show ?thesis by simp
  next
    case (Inr f)
    obtain y w2 where 2: "verify_each rq dns now names (if refresh_ok f then worst else exit_failed) w1 = (y, w2)"
      by (cases "verify_each rq dns now names (if refresh_ok f then worst else exit_failed) w1")
    with Cons.prems 1 Inr have "w' = w2" by (simp split: prod.splits)
    with Cons.IH [OF 2] refresh_suppressions [OF 1] show ?thesis by simp
  qed
qed

text \<open>The four shapes of a command.\<close>

lemma query_command_same: "query_command ask w = (x, w') \<Longrightarrow> w' = w"
  by (auto simp: query_command_def finish_def split: sum.splits)

lemma db_command_frame:
  assumes "db_command caught act printed w = (x, w')" "\<And>e lines. caught e \<noteq> Some (exit_ok, lines)"
  shows "w' = w \<and> fst x \<noteq> Inr exit_ok \<or>
    fst x = Inr exit_ok \<and> snd w' = snd w \<and> (\<exists>a. act (fst w) = Inr (a, fst w'))"
  using assms by (auto simp: db_command_def finish_def split: sum.splits option.splits)

lemma with_provider_frame:
  assumes "with_provider env body w = (x, w')"
  shows "(\<exists>m. x = (Inl (Credentials_Missing m), []) \<and> w' = w \<and> missing_credentials (ad_settings env) \<noteq> []) \<or>
    missing_credentials (ad_settings env) = [] \<and> (\<exists>c. body (ad_connect env c) w = (x, w'))"
  using assms by (auto simp: with_provider_def provider_credentials_def Let_def split: if_splits)

lemma in_session_frame:
  assumes "in_session body w = ((r, out), w')"
  shows "fst w' = fst w \<and> (\<exists>e. r = Inl e) \<or> (\<exists>code. r = Inr code \<and> body w = ((Inr code, out), w'))"
  using assms by (auto simp: in_session_def split: prod.splits sum.splits)

lemma provider_query_db:
  assumes "provider_query env ask printed w = (x, w')"
  shows "fst w' = fst w"
proof -
  have "fst v = fst w" if "(case on_provider (ask rq) w of
       (Inl e, w1) \<Rightarrow> ((Inl e, []), w1)
     | (Inr x, w1) \<Rightarrow> (case printed x of
         Inl e \<Rightarrow> ((Inl e, []), w1)
       | Inr lines \<Rightarrow> finish exit_ok lines w1)) = (x, v)" for rq v
    using that fst_on_provider [of "ask rq" w] by (auto simp: finish_def split: prod.splits sum.splits)
  with with_provider_frame [OF assms [unfolded provider_query_def]] show ?thesis by blast
qed

lemma no_ok_failures:
  "management_failure e \<noteq> Some (exit_ok, lines)" "address_failure e \<noteq> Some (exit_ok, lines)"
  by (auto simp: management_failure_def address_failure_def exit_failed_def exit_ok_def split: exn.splits)

text \<open>Commands that open a session with the provider at hand.\<close>

lemma session_command_frame:
  assumes "with_provider env (\<lambda>rq. in_session (body rq)) w = ((r, out), w')"
  shows "(\<exists>e. r = Inl e) \<and> fst w' = fst w \<or> (\<exists>rq code. r = Inr code \<and> body rq w = ((Inr code, out), w'))"
  using with_provider_frame [OF assms]
proof (elim disjE exE conjE)
  fix c assume "in_session (body (ad_connect env c)) w = ((r, out), w')"
  from in_session_frame [OF this] show ?thesis by blast
qed auto

lemma add_command_frame:
  assumes "cmd_domains_add env n w = ((r, out), w')"
  shows "(fst w' = fst w \<or> r = Inr exit_ok) \<and> suppressions (fst w') = suppressions (fst w)"
  using session_command_frame [OF assms [unfolded cmd_domains_add_def]]
proof (elim disjE exE conjE)
  fix rq code
  obtain a w1 where 1: "add_domain rq (ad_now env) n w = (a, w1)" by (cases "add_domain rq (ad_now env) n w")
  assume "r = Inr code" and "(case add_domain rq (ad_now env) n w of
       (Inr r, w1) \<Rightarrow> finish exit_ok
         [Out (''Tracking '' @ dm_name r @ '' (status: '' @ domain_status_value (dm_status r) @ '')''),
          Out (newline @ ''Next: python -m emaild.admin domains records '' @ n)] w1
     | (Inl e, w1) \<Rightarrow>
         if is_mx_error e then finish exit_failed
           [Err (''Failed to add '' @ n @ '': '' @ exn_text e), Err (newline @ domain_add_advice e n)] w1
         else ((Inl e, []), w1)) = ((Inr code, out), w')"
  with add_domain_frame [OF 1] 1 show ?thesis
    by (cases a) (auto simp: finish_def insert_domain_def split: if_splits)
qed simp

lemma provision_command_frame:
  assumes "cmd_mailboxes_provision env a n extra w = ((r, out), w')"
  shows "(fst w' = fst w \<or> r = Inr exit_ok) \<and> suppressions (fst w') = suppressions (fst w)"
proof -
  note f = session_command_frame [OF assms [unfolded cmd_mailboxes_provision_def]]
  show ?thesis
  proof (cases "cipher_key (ad_settings env)")
    case (Inl e)
    with f show ?thesis by auto
  next
    case (Inr key)
    from f [unfolded Inr sum.case] show ?thesis
    proof (elim disjE exE conjE)
      fix rq code
      obtain b w1 where 1: "provision_mailbox rq (ad_encrypt env key) (ad_now env) (ad_password env) a n 1024 extra w = (b, w1)"
        by (cases "provision_mailbox rq (ad_encrypt env key) (ad_now env) (ad_password env) a n 1024 extra w")
      assume "r = Inr code" "(case provision_mailbox rq (ad_encrypt env key) (ad_now env) (ad_password env) a n 1024
             extra w of
            (Inr (m, password), w1) \<Rightarrow> finish exit_ok
              [Out (''Provisioned '' @ mb_address m), Out (''  SMTP password: '' @ password),
               Out (newline @ ''  Shown once. It is stored encrypted and never logged.''),
               Out ''  The envelope sender is pinned to this exact address by MXRoute.''] w1
          | (Inl (Policy_Violation m), w1) \<Rightarrow> finish exit_policy [Err (''REFUSED: '' @ m)] w1
          | (Inl (Provisioning_Error m), w1) \<Rightarrow> finish exit_failed [Err (''Failed: '' @ m)] w1
          | (Inl e, w1) \<Rightarrow> ((Inl e, []), w1)) = ((Inr code, out), w')"
      with provision_frame [OF 1] 1 show ?thesis
        by (auto simp: finish_def split: sum.splits exn.splits)
    qed simp
  qed
qed

lemma rotate_command_frame:
  assumes "cmd_mailboxes_rotate env a w = ((r, out), w')"
  shows "(fst w' = fst w \<or> r = Inr exit_ok) \<and> suppressions (fst w') = suppressions (fst w)"
proof -
  note f = session_command_frame [OF assms [unfolded cmd_mailboxes_rotate_def]]
  show ?thesis
  proof (cases "cipher_key (ad_settings env)")
    case (Inl e)
    with f show ?thesis by auto
  next
    case (Inr key)
    from f [unfolded Inr sum.case] show ?thesis
    proof (elim disjE exE conjE)
      fix rq code
      obtain b w1 where 1: "rotate_mailbox_password rq (ad_encrypt env key) (ad_password env) a w = (b, w1)"
        by (cases "rotate_mailbox_password rq (ad_encrypt env key) (ad_password env) a w")
      assume "r = Inr code" "(case rotate_mailbox_password rq (ad_encrypt env key) (ad_password env) a w of
            (Inr password, w1) \<Rightarrow> finish exit_ok
              [Out (''Rotated password for '' @ a), Out (''  New SMTP password: '' @ password)] w1
          | (Inl e, w1) \<Rightarrow>
              if provisioning_failure e then finish exit_failed [Err (''Failed: '' @ exn_text e)] w1
              else ((Inl e, []), w1)) = ((Inr code, out), w')"
      with rotate_frame [OF 1] 1 show ?thesis
        by (cases b) (auto simp: finish_def split: if_splits)
    qed simp
  qed
qed

lemma verify_command_frame:
  assumes "cmd_domains_verify env n w = ((r, out), w')"
  shows "suppressions (fst w') = suppressions (fst w)"
  using session_command_frame [OF assms [unfolded cmd_domains_verify_def]]
  by (auto simp: Let_def finish_def simp del: verify_each.simps split: if_splits dest: verify_each_suppressions)

lemma suppress_command_frame:
  assumes "cmd_suppressions_add env a reason w = (x, w')"
  shows "(w' = w \<or> fst x = Inr exit_ok) \<and> snd w' = snd w \<and> suppressed_set (fst w) \<subseteq> suppressed_set (fst w')"
  using db_command_frame [OF assms [unfolded cmd_suppressions_add_def] no_ok_failures(2)]
  by (auto simp: bind_result_eq_Inr suppressed_set_def elim!: add_suppression_cases)

lemma unsuppress_command_frame:
  assumes "cmd_suppressions_remove a yes w = (x, w')"
  shows "w' = w \<and> fst x \<noteq> Inr exit_ok \<or>
    yes \<and> fst x = Inr exit_ok \<and> snd w' = snd w \<and> (\<exists>b. remove_suppression (fst w) a = Inr (b, fst w'))"
proof (cases "list_suppressions (fst w) 1000 0 None")
  case (Inl e)
  with assms show ?thesis
    by (auto simp: cmd_suppressions_remove_def finish_def no_ok_failures split: option.splits)
next
  case (Inr rows)
  show ?thesis
  proof (cases "yes \<and> find (\<lambda>r. su_address r = py_lower (py_strip a)) rows \<noteq> None")
    case True
    then have "\<exists>printed. db_command (\<lambda>e. None) (\<lambda>d. remove_suppression d a) printed w = (x, w')"
      using assms Inr by (auto simp: cmd_suppressions_remove_def)
    then obtain printed where run: "db_command (\<lambda>e. None) (\<lambda>d. remove_suppression d a) printed w = (x, w')" by blast
    show ?thesis using db_command_frame [OF run] True by auto
  next
    case False
    with assms Inr show ?thesis
      by (auto simp: cmd_suppressions_remove_def finish_def exit_ok_def exit_failed_def exit_usage_def split: option.splits)
  qed
qed

lemma list_limit_same: "cmd_suppressions_list n w = (x, w') \<Longrightarrow> w' = w"
  unfolding cmd_suppressions_list_def by (rule query_command_same)

lemma readers_same:
  "cmd_domains_list w = (x, w') \<Longrightarrow> w' = w" "cmd_mailboxes_list w = (x, w') \<Longrightarrow> w' = w"
  "cmd_projects_list w = (x, w') \<Longrightarrow> w' = w" "cmd_keys_list w = (x, w') \<Longrightarrow> w' = w"
  "cmd_status env n w = (x, w') \<Longrightarrow> w' = w"
  unfolding cmd_domains_list_def cmd_mailboxes_list_def cmd_projects_list_def cmd_keys_list_def cmd_status_def
  by (fact query_command_same)+

lemma management_command_frame:
  assumes "db_command management_failure act printed w = (x, w')"
  shows "w' = w \<and> fst x \<noteq> Inr exit_ok \<or>
    fst x = Inr exit_ok \<and> snd w' = snd w \<and> (\<exists>a. act (fst w) = Inr (a, fst w'))"
  by (rule db_command_frame [OF assms no_ok_failures(1)])

lemmas provider_readers = cmd_domains_token_def cmd_domains_records_def cmd_mailboxes_usage_def
lemmas management_commands = cmd_projects_create_def cmd_keys_create_def cmd_keys_revoke_def

text \<open>Every command but the sweep: the database as it was, or success.\<close>

lemma command_effect:
  assumes "command_run env c w = ((r, out), w')" "\<forall>n. c \<noteq> Cmd_Domains_Verify n"
  shows "fst w' = fst w \<or> r = Inr exit_ok"
proof (cases c)
  case (Cmd_Suppressions_Remove a yes)
  with assms show ?thesis by (auto dest: unsuppress_command_frame)
next
  case (Cmd_Suppressions_Add a reason)
  with assms show ?thesis by (auto dest: suppress_command_frame)
next
  case (Cmd_Keys_Create n p xs)
  with assms show ?thesis by (auto simp: management_commands dest: management_command_frame)
next
  case (Cmd_Keys_Revoke n)
  with assms show ?thesis by (auto simp: management_commands dest: management_command_frame)
next
  case (Cmd_Projects_Create n x)
  with assms show ?thesis by (auto simp: management_commands dest: management_command_frame)
qed (use assms in \<open>auto simp: provider_readers dest: readers_same list_limit_same add_command_frame
       provision_command_frame rotate_command_frame provider_query_db\<close>)

text \<open>No command but a confirmed removal takes an address off the suppression list.\<close>

lemma command_keeps_suppressed:
  assumes "command_run env c w = ((r, out), w')" "\<forall>a. c \<noteq> Cmd_Suppressions_Remove a True"
  shows "suppressed_set (fst w) \<subseteq> suppressed_set (fst w')"
proof (cases c)
  case (Cmd_Suppressions_Remove a yes)
  with assms show ?thesis by (cases yes) (auto dest: unsuppress_command_frame)
next
  case (Cmd_Suppressions_Add a reason)
  with assms show ?thesis by (auto dest: suppress_command_frame)
next
  case (Cmd_Keys_Create n p xs)
  with assms show ?thesis
    by (auto simp: management_commands suppressed_set_def elim!: create_api_keyE dest!: management_command_frame)
next
  case (Cmd_Keys_Revoke n)
  with assms show ?thesis
    by (auto simp: management_commands suppressed_set_def dest!: management_command_frame revoke_frame)
next
  case (Cmd_Projects_Create n x)
  with assms show ?thesis
    by (auto simp: management_commands suppressed_set_def dest!: management_command_frame create_project_frame)
qed (use assms in \<open>auto simp: provider_readers suppressed_set_def dest: readers_same list_limit_same add_command_frame
       provision_command_frame rotate_command_frame provider_query_db verify_command_frame\<close>)

lemma main_cases:
  assumes "main env c w = ((r, out), w')"
  shows "w' = w \<and> r = Inr exit_usage \<or>
    st_role (ad_settings env) = Role_Admin \<and> (\<exists>r1 out1. command_run env c w = ((r1, out1), w') \<and>
      (r1 = r \<or> r \<noteq> Inr exit_ok \<and> (\<exists>e. r1 = Inl e)))"
proof (cases "st_role (ad_settings env) = Role_Admin")
  case False
  with assms show ?thesis by (auto simp: main_def run_as_admin_def finish_def)
next
  case True
  obtain r1 out1 w1 where 1: "command_run env c w = ((r1, out1), w1)"
    by (cases "command_run env c w") auto
  show ?thesis
  proof (cases r1)
    case (Inl e)
    have "main_failure e \<noteq> Some (exit_ok, lines)" for lines
      by (auto simp: main_failure_def exit_ok_def exit_usage_def exit_failed_def split: exn.splits)
    with Inl assms True 1 show ?thesis
      by (auto simp: main_def run_as_admin_def split: option.splits)
  next
    case (Inr code)
    with assms True 1 show ?thesis by (auto simp: main_def run_as_admin_def)
  qed
qed

text \<open>
  C20 A command that does not report success has changed nothing.  Unless it is the sweep of the domains,
  whose findings are stored whatever they are, a command that ends with another exit code than 0, or
  with an exception, leaves the database as it was.
\<close>

theorem failed_command_changes_nothing:
  assumes "main env c w = ((r, out), w')" "r \<noteq> Inr exit_ok" "\<forall>n. c \<noteq> Cmd_Domains_Verify n"
  shows "fst w' = fst w"
  using main_cases [OF assms(1)] assms(2,3) command_effect by fastforce

text \<open>
  Only a confirmed removal resumes mail.  If an address is on the suppression list before a command and
  not after it, the command is the removal of an address that normalises to it, given with the
  confirmation flag, and it reported success.
\<close>

theorem only_confirmed_removal_unsuppresses:
  assumes "main env c w = ((r, out), w')" "a \<in> suppressed_set (fst w)" "a \<notin> suppressed_set (fst w')"
  shows "\<exists>x. c = Cmd_Suppressions_Remove x True \<and> normalise_address x = Inr a \<and> r = Inr exit_ok"
proof -
  obtain r1 out1 where run: "command_run env c w = ((r1, out1), w')"
    and r: "r1 = r \<or> r \<noteq> Inr exit_ok \<and> (\<exists>e. r1 = Inl e)"
    using main_cases [OF assms(1)] assms(2,3) by auto
  obtain x where c: "c = Cmd_Suppressions_Remove x True"
    using command_keeps_suppressed [OF run] assms(2,3) by blast
  with unsuppress_command_frame [of x True w "(r1, out1)" w'] run assms(2,3)
  obtain b where ok: "r1 = Inr exit_ok" and rem: "remove_suppression (fst w) x = Inr (b, fst w')" by auto
  obtain n where n: "normalise_address x = Inr n" using rem by (auto simp: remove_suppression_def bind_result_eq_Inr)
  with rem have "fst w' = fst w\<lparr>suppressions := filter (\<lambda>s. su_address s \<noteq> n) (suppressions (fst w))\<rparr>"
    by (auto simp: remove_suppression_def)
  with assms(2,3) have "a = n" by (auto simp: suppressed_set_def)
  with n have "normalise_address x = Inr a" by simp
  with c ok r show ?thesis by auto
qed

text \<open>The commands that talk to the provider.\<close>

fun provider_command :: "command \<Rightarrow> bool" where
  "provider_command Cmd_Domains_Token = True"
| "provider_command (Cmd_Domains_Add n) = True"
| "provider_command (Cmd_Domains_Records n) = True"
| "provider_command (Cmd_Domains_Verify n) = True"
| "provider_command (Cmd_Mailboxes_Provision a n x) = True"
| "provider_command (Cmd_Mailboxes_Usage a) = True"
| "provider_command (Cmd_Mailboxes_Rotate a) = True"
| "provider_command _ = False"

lemma provider_untouched:
  assumes "command_run env c w = (x, w')" "\<not> provider_command c"
  shows "snd w' = snd w"
proof (cases c)
  case (Cmd_Suppressions_Remove a yes)
  with assms show ?thesis by (auto dest: unsuppress_command_frame)
next
  case (Cmd_Suppressions_Add a reason)
  with assms show ?thesis by (auto dest: suppress_command_frame)
next
  case (Cmd_Keys_Create n p xs)
  with assms show ?thesis by (auto simp: management_commands dest: management_command_frame)
next
  case (Cmd_Keys_Revoke n)
  with assms show ?thesis by (auto simp: management_commands dest: management_command_frame)
next
  case (Cmd_Projects_Create n x)
  with assms show ?thesis by (auto simp: management_commands dest: management_command_frame)
qed (use assms in \<open>auto dest: readers_same list_limit_same\<close>)

lemma credentials_first:
  assumes "command_run env c w = (x, w')" "provider_command c" "missing_credentials (ad_settings env) \<noteq> []"
  shows "w' = w \<and> (\<exists>m. x = (Inl (Credentials_Missing m), []))"
proof -
  have stop: "with_provider env body v = ((Inl (Credentials_Missing m), []), v)"
    if "provider_credentials (ad_settings env) = Inl (Credentials_Missing m)" for m v and body :: "'a requester \<Rightarrow> 'a world \<Rightarrow> 'a run"
    using that by (simp add: with_provider_def)
  obtain m where "provider_credentials (ad_settings env) = Inl (Credentials_Missing m)"
    using assms(3) by (simp add: provider_credentials_def Let_def)
  note stop = stop [OF this]
  show ?thesis
    using assms(1,2)
    by (cases c) (auto simp: stop provider_readers provider_query_def cmd_domains_add_def cmd_domains_verify_def
        cmd_mailboxes_provision_def cmd_mailboxes_rotate_def)
qed

lemma missing_iff:
  "missing_credentials s = [] \<longleftrightarrow>
    truthy_str (st_mxroute_server s) \<and> truthy_str (st_mxroute_username s) \<and> truthy_str (st_mxroute_api_key s)"
  by (simp add: missing_credentials_def)

lemma provider_guarded:
  assumes "main env c w = ((r, out), w')"
  shows "(snd w' \<noteq> snd w \<longrightarrow> st_role (ad_settings env) = Role_Admin \<and>
      missing_credentials (ad_settings env) = [] \<and> provider_command c) \<and>
    (provider_command c \<and> missing_credentials (ad_settings env) \<noteq> [] \<longrightarrow> w' = w \<and> r = Inr exit_usage)"
proof (intro conjI impI)
  assume moved: "snd w' \<noteq> snd w"
  then obtain r1 out1 where role: "st_role (ad_settings env) = Role_Admin"
    and run: "command_run env c w = ((r1, out1), w')"
    using main_cases [OF assms] by auto
  from provider_untouched [OF run] moved have c: "provider_command c" by blast
  with credentials_first [OF run] moved have "missing_credentials (ad_settings env) = []" by blast
  with role c show "st_role (ad_settings env) = Role_Admin" "missing_credentials (ad_settings env) = []"
    "provider_command c" by simp_all
next
  assume c: "provider_command c \<and> missing_credentials (ad_settings env) \<noteq> []"
  obtain x v where run: "command_run env c w = (x, v)" by (cases "command_run env c w")
  with c credentials_first obtain m where "v = w" "x = (Inl (Credentials_Missing m), [])" by blast
  with run assms show "w' = w" "r = Inr exit_usage"
    by (auto simp: main_def run_as_admin_def finish_def main_failure_def split: if_splits)
qed

text \<open>
  C21 The provider's account is reached only by the administrator with all its credentials.  A run of the
  command line that leaves the provider in another state has the role admin and all three credentials,
  and its command is one of those that need them; without the credentials such a command changes nothing
  at all and exits with the usage code.
\<close>

theorem provider_needs_role_and_credentials:
  assumes "main env c w = ((r, out), w')"
  shows "let complete = truthy_str (st_mxroute_server (ad_settings env)) \<and>
      truthy_str (st_mxroute_username (ad_settings env)) \<and> truthy_str (st_mxroute_api_key (ad_settings env)) in
    (snd w' \<noteq> snd w \<longrightarrow> st_role (ad_settings env) = Role_Admin \<and> complete \<and> provider_command c) \<and>
    (provider_command c \<and> \<not> complete \<longrightarrow> w' = w \<and> r = Inr exit_usage)"
  using provider_guarded [OF assms] unfolding Let_def missing_iff .

section \<open>Commands on concrete data\<close>

definition ex_cli :: "nat admin_env" where
  "ex_cli = \<lparr>ad_settings = (default_settings ''d'')\<lparr>st_role := Role_Admin\<rparr>, ad_now = 9,
     ad_connect = (\<lambda>c m path b p. (Inl (MX_Unavailable ''down''), Suc p)), ad_dns = (\<lambda>n t. Nothing_There),
     ad_encrypt = (\<lambda>k s. s), ad_password = ''pw'', ad_hash = (\<lambda>s. s), ad_urlsafe = ''tok'',
     ad_lost_race = False, ad_rival = None\<rparr>"

definition ex_listed :: db where "ex_listed = ex_db\<lparr>suppressions := [ex_suppression ''u@b.io'']\<rparr>"

theorem failed_command_changes_nothing_witness:
  "\<exists>r out w'. main ex_cli (Cmd_Suppressions_Remove ''u@b.io'' False) (ex_listed, 0) = ((r, out), w') \<and>
     r = Inr exit_usage \<and> fst w' = ex_listed"
proof -
  let ?c = "Cmd_Suppressions_Remove ''u@b.io'' False"
  obtain r out w' where run: "main ex_cli ?c (ex_listed, 0) = ((r, out), w')"
    by (cases "main ex_cli ?c (ex_listed, 0)") auto
  have "fst (fst (main ex_cli ?c (ex_listed, 0))) = Inr exit_usage" by code_simp
  with run have r: "r = Inr exit_usage" by simp
  then have "r \<noteq> Inr exit_ok" by (simp add: exit_ok_def exit_usage_def)
  from failed_command_changes_nothing [OF run this] run r show ?thesis by auto
qed

theorem only_confirmed_removal_unsuppresses_witness:
  "\<exists>x. Cmd_Suppressions_Remove ''u@b.io'' True = Cmd_Suppressions_Remove x True \<and>
     normalise_address x = Inr ''u@b.io''"
proof -
  let ?c = "Cmd_Suppressions_Remove ''u@b.io'' True"
  obtain r out w' where run: "main ex_cli ?c (ex_listed, 0) = ((r, out), w')"
    by (cases "main ex_cli ?c (ex_listed, 0)") auto
  have "suppressions (fst (snd (main ex_cli ?c (ex_listed, 0)))) = []" by code_simp
  with run have "suppressions (fst w') = []" by simp
  then show ?thesis
    using only_confirmed_removal_unsuppresses [OF run, of "''u@b.io''"]
    by (auto simp: suppressed_set_def ex_listed_def ex_suppression_def)
qed

theorem provider_needs_role_and_credentials_witness:
  "fst (fst (main ex_cli Cmd_Domains_Token (ex_db, 0))) = Inr exit_usage"
proof -
  obtain r out w' where run: "main ex_cli Cmd_Domains_Token (ex_db, 0) = ((r, out), w')"
    by (cases "main ex_cli Cmd_Domains_Token (ex_db, 0)") auto
  have "\<not> truthy_str (st_mxroute_server (ad_settings ex_cli))" "provider_command Cmd_Domains_Token" by code_simp+
  with provider_needs_role_and_credentials [OF run] run show ?thesis by (auto simp: Let_def)
qed

text \<open>An entry older than the newest thousand is not found by the removal, whatever the flag.\<close>

lemma old_entry_is_not_removed:
  assumes "s \<notin> set (take 1000 (sort_key (\<lambda>s. - su_created_at s) (suppressions (fst w))))"
    and "s \<in> set (suppressions (fst w))" "suppressions_ok (fst w)"
    and "py_lower (py_strip (su_address s)) = su_address s"
  shows "cmd_suppressions_remove (su_address s) True w = finish exit_failed [Err (''Not suppressed: '' @ su_address s)] w"
proof -
  let ?rows = "take 1000 (sort_key (\<lambda>s. - su_created_at s) (suppressions (fst w)))"
  have "in_project None = (\<lambda>s. True)" by (simp add: fun_eq_iff in_project_def)
  then have "list_suppressions (fst w) 1000 0 None = Inr ?rows"
    by (simp add: list_suppressions_def Let_def)
  moreover have "su_address r \<noteq> su_address s" if "r \<in> set ?rows" for r
  proof
    assume "su_address r = su_address s"
    moreover have "r \<in> set (suppressions (fst w))" using in_set_takeD [OF that] by simp
    ultimately have "r = s" using assms(2,3) unique_on_same unfolding suppressions_ok_def by metis
    with that assms(1) show False by simp
  qed
  then have "find (\<lambda>r. su_address r = su_address s) ?rows = None" by (simp add: find_None_ball)
  ultimately show ?thesis using assms(4) by (simp add: cmd_suppressions_remove_def)
qed

text \<open>The status command's exit code: nothing awaits a person, and nothing pending is too old.\<close>

lemma status_exit_is_health:
  "fst (fst (cmd_status env n w)) = Inr exit_ok \<longleftrightarrow> qh_healthy (queue_health (ad_now env) (fst w)) \<and>
     (\<exists>i. get_installation (fst w) = Inr i)"
  by (cases "get_installation (fst w)")
     (simp_all add: cmd_status_def query_command_def finish_def build_overview_def Let_def exit_ok_def exit_failed_def)

end
