(* ===== verification/Logging.thy ===== *)
theory Logging
  imports Canonical Py_Time
begin

text \<open>
  The redaction of log lines (emaild/logging_config.py).  A pattern is a matcher: what it makes of a
  position, given by the character before it and the rest of the line, is the length of the match and
  its replacement.  In each of the six patterns every repeated class excludes the character that must
  follow it, so the longest run is the only match to consider.  A line is the record after the filter,
  as the formatter writes it.
\<close>

section \<open>Substitution\<close>

definition word_char :: "char \<Rightarrow> bool" where
  "word_char c = (let n = ord c in
     (48 \<le> n \<and> n \<le> 57) \<or> (65 \<le> n \<and> n \<le> 90) \<or> (97 \<le> n \<and> n \<le> 122) \<or> n = 95 \<or>
     n \<in> {170, 178, 179, 181, 185, 186, 188, 189, 190} \<or> (192 \<le> n \<and> n \<noteq> 215 \<and> n \<noteq> 247))"

definition ascii_alnum :: "char \<Rightarrow> bool" where
  "ascii_alnum c = (let n = ord c in (48 \<le> n \<and> n \<le> 57) \<or> (65 \<le> n \<and> n \<le> 90) \<or> (97 \<le> n \<and> n \<le> 122))"

definition hex_digit :: "char \<Rightarrow> bool" where
  "hex_digit c = (let n = ord c in (48 \<le> n \<and> n \<le> 57) \<or> (65 \<le> n \<and> n \<le> 70) \<or> (97 \<le> n \<and> n \<le> 102))"

definition key_char :: "char \<Rightarrow> bool" where
  "key_char c = (ascii_alnum c \<or> c = CHR ''_'' \<or> c = CHR ''-'')"

type_synonym matcher = "char option \<Rightarrow> string \<Rightarrow> (nat \<times> string) option"

text \<open>The text consumed by a match is not scanned again; no pattern matches the empty text.\<close>

function substitute :: "matcher \<Rightarrow> char option \<Rightarrow> string \<Rightarrow> string" where
  "substitute m prev [] = []"
| "substitute m prev (c # cs) = (case m prev (c # cs) of
       None \<Rightarrow> c # substitute m (Some c) cs
     | Some (n, r) \<Rightarrow> r @ substitute m (Some ((c # cs) ! (n - 1))) (drop (n - 1) cs))"
  by pat_completeness auto
termination by (relation "measure (\<lambda>(m, prev, s). length s)") auto

definition at_word_start :: "char option \<Rightarrow> bool" where
  "at_word_start prev = (case prev of None \<Rightarrow> True | Some c \<Rightarrow> \<not> word_char c)"

definition run_of :: "(char \<Rightarrow> bool) \<Rightarrow> string \<Rightarrow> nat" where
  "run_of P s = length (takeWhile P s)"

section \<open>The patterns\<close>

definition api_key_match :: matcher where
  "api_key_match prev s =
     (let n = run_of ascii_alnum (drop 8 s) in
      if at_word_start prev \<and> (starts_with ''em_live_'' s \<or> starts_with ''em_test_'' s) \<and> 0 < n
      then Some (8 + n, ''em_***'') else None)"

definition mxroute_key_match :: matcher where
  "mxroute_key_match prev s =
     (let n = run_of hex_digit (drop 2 s); rest = drop (2 + n) s in
      if at_word_start prev \<and> starts_with ''Mx'' s \<and> 28 \<le> n \<and>
         (case rest of k # d # after \<Rightarrow> k = CHR ''K'' \<and> ascii_digit d \<and>
            (case after of [] \<Rightarrow> True | c # _ \<Rightarrow> \<not> word_char c) | _ \<Rightarrow> False)
      then Some (2 + n + 2, ''Mx***'') else None)"

definition fernet_key_match :: matcher where
  "fernet_key_match prev s =
     (if (case prev of None \<Rightarrow> True | Some c \<Rightarrow> \<not> key_char c) \<and> 43 \<le> run_of key_char s \<and>
         (case drop 43 s of e # after \<Rightarrow> e = CHR ''='' \<and>
            (case after of [] \<Rightarrow> True | c # _ \<Rightarrow> \<not> key_char c \<and> c \<noteq> CHR ''='') | [] \<Rightarrow> False)
      then Some (44, ''***key***'') else None)"

definition dsn_match :: matcher where
  "dsn_match prev s =
     (let user = run_of (\<lambda>c. c \<notin> set '':/@'' \<and> \<not> py_space c) (drop 3 s);
          start = 3 + user + 1;
          password = run_of (\<lambda>c. c \<notin> set ''@/'' \<and> \<not> py_space c) (drop start s)
      in if starts_with ''://'' s \<and> 0 < user \<and> starts_with '':'' (drop (3 + user) s) \<and> 0 < password \<and>
            starts_with ''@'' (drop (start + password) s)
         then Some (start + password + 1, take start s @ ''***@'') else None)"

definition secret_names :: "string list" where
  "secret_names = [''password'', ''passwd'', ''secret'', ''token'', ''api_key'', ''api-key'', ''apikey'', ''authorization'']"

definition secret_match :: matcher where
  "secret_match prev s =
     (case find (\<lambda>w. starts_with w (py_lower s)) secret_names of
        None \<Rightarrow> None
      | Some w \<Rightarrow>
          let a = length w + run_of py_space (drop (length w) s);
              b = a + 1 + run_of py_space (drop (a + 1) s);
              n = run_of (\<lambda>c. \<not> py_space c) (drop b s)
          in if at_word_start prev \<and> (case drop a s of c # _ \<Rightarrow> c = CHR ''='' \<or> c = CHR '':'' | [] \<Rightarrow> False) \<and> 0 < n
             then Some (b + n, take b s @ ''***'') else None)"

definition bearer_match :: matcher where
  "bearer_match prev s =
     (let a = run_of py_space (drop 6 s); n = run_of (\<lambda>c. \<not> py_space c) (drop (6 + a) s)
      in if at_word_start prev \<and> starts_with ''bearer'' (py_lower s) \<and> 0 < a \<and> 0 < n
         then Some (6 + a + n, ''Bearer ***'') else None)"

definition redactions :: "matcher list" where
  "redactions = [api_key_match, mxroute_key_match, fernet_key_match, dsn_match, secret_match, bearer_match]"

definition redact :: "string \<Rightarrow> string" where
  "redact s = foldl (\<lambda>t m. substitute m None t) s redactions"

text \<open>
  \<open>RedactingFilter\<close>: the message and its arguments, each on its own; a value that is not a string is
  left.  The message is formatted with the arguments afterwards.
\<close>

datatype log_value = Log_Str string | Log_Other string

datatype log_args = No_Args | Tuple_Args "log_value list" | Dict_Args "(string \<times> log_value) list"

record log_record =
  lr_msg :: log_value
  lr_args :: log_args
  lr_created :: time
  lr_level :: string
  lr_name :: string
  lr_exception :: "string option"
  lr_context :: "(string \<times> json) list"

definition redact_value :: "log_value \<Rightarrow> log_value" where
  "redact_value v = (case v of Log_Str s \<Rightarrow> Log_Str (redact s) | Log_Other s \<Rightarrow> Log_Other s)"

definition redacting_filter :: "log_record \<Rightarrow> log_record" where
  "redacting_filter r = r\<lparr>lr_msg := redact_value (lr_msg r),
     lr_args := (case lr_args r of
       No_Args \<Rightarrow> No_Args
     | Tuple_Args vs \<Rightarrow> Tuple_Args (map redact_value vs)
     | Dict_Args kvs \<Rightarrow> Dict_Args (map (\<lambda>(k, v). (k, redact_value v)) kvs))\<rparr>"

text \<open>
  \<open>JsonFormatter\<close>: the dictionary of a line and its text.  How a message is filled with its arguments
  (Python's percent formatting) is the parameter \<open>render\<close>; the exception is its formatted traceback, and
  the values of the context are JSON.
\<close>

definition log_payload :: "(log_value \<Rightarrow> log_args \<Rightarrow> string) \<Rightarrow> log_record \<Rightarrow> (string \<times> json) list" where
  "log_payload render r =
     (let payload = [(''ts'', JStr (isoformat (lr_created r))), (''level'', JStr (lr_level r)),
            (''component'', JStr (lr_name r)), (''message'', JStr (render (lr_msg r) (lr_args r)))];
          payload = (case lr_exception r of None \<Rightarrow> payload | Some t \<Rightarrow> dict_put ''error'' (JStr (redact t)) payload)
      in foldl (\<lambda>p (k, v). dict_put k v p) payload (lr_context r))"

fun spaced_dumps :: "json \<Rightarrow> string" where
  "spaced_dumps (JArr xs) = ''['' @ py_join '', '' (map spaced_dumps xs) @ '']''"
| "spaced_dumps (JObj kvs) =
     ''{'' @ py_join '', '' (map (\<lambda>(k, v). json_text k @ '': '' @ spaced_dumps v) kvs) @ ''}''"
| "spaced_dumps j = json_dumps j"

definition log_line :: "(log_value \<Rightarrow> log_args \<Rightarrow> string) \<Rightarrow> log_record \<Rightarrow> string" where
  "log_line render r = spaced_dumps (JObj (log_payload render (redacting_filter r)))"

section \<open>A key does not reach the line\<close>

text \<open>The scan of a text that ends outside a word does not look past it.\<close>

lemma starts_with_short:
  assumes "starts_with w (a @ s)" "a \<noteq> []" "\<not> word_char (last a)" "\<forall>c \<in> set w. word_char c"
  shows "starts_with w a \<and> length w < length a"
proof -
  from assms(1) have w: "take (length w) (a @ s) = w" by (simp add: starts_with_def)
  have "length w < length a"
  proof (rule ccontr)
    assume "\<not> length w < length a"
    with w have "take (length w) (a @ s) = a @ take (length w - length a) s" by simp
    with w have "set a \<subseteq> set w" by (metis set_append sup_ge1)
    then have "last a \<in> set w" using assms(2) by auto
    with assms(3,4) show False by blast
  qed
  with w show ?thesis by (simp add: starts_with_def)
qed

lemma alnum_word: "ascii_alnum c \<Longrightarrow> word_char c"
  by (auto simp: ascii_alnum_def word_char_def Let_def)

lemma run_stops:
  assumes "a \<noteq> []" "\<not> P (last a)"
  shows "takeWhile P (a @ s) = takeWhile P a \<and> length (takeWhile P a) < length a"
proof -
  have "\<exists>x \<in> set a. \<not> P x" using assms by (intro bexI [of _ "last a"]) simp_all
  then have "takeWhile P a \<noteq> a" by (metis takeWhile_eq_all_conv)
  then have "length (takeWhile P a) < length a"
    by (metis length_takeWhile_le nat_less_le takeWhile_eq_take take_all_iff)
  moreover from \<open>\<exists>x \<in> set a. \<not> P x\<close> have "takeWhile P (a @ s) = takeWhile P a"
    by (auto intro: takeWhile_append1)
  ultimately show ?thesis by blast
qed

lemma api_key_match_local:
  assumes "a \<noteq> []" "\<not> word_char (last a)"
  shows "api_key_match q (a @ s) = api_key_match q a \<and>
    (\<forall>n r. api_key_match q a = Some (n, r) \<longrightarrow> 0 < n \<and> n < length a)"
proof -
  have words: "\<forall>c \<in> set ''em_live_''. word_char c" "\<forall>c \<in> set ''em_test_''. word_char c" by code_simp+
  have alnum: "\<not> ascii_alnum (last a)" using assms(2) alnum_word by blast
  let ?p = "\<lambda>t. starts_with ''em_live_'' t \<or> starts_with ''em_test_'' t"
  show ?thesis
  proof (cases "?p (a @ s)")
    case False
    moreover have "?p a \<Longrightarrow> ?p (a @ s)" by (auto simp: starts_with_iff)
    ultimately show ?thesis by (auto simp: api_key_match_def Let_def)
  next
    case True
    then have p: "?p a" and len: "8 < length a"
      using starts_with_short [OF _ assms words(1)] starts_with_short [OF _ assms words(2)]
      by (auto simp: eval_nat_numeral)
    then have tail: "drop 8 a \<noteq> []" "last (drop 8 a) = last a" by (simp_all add: last_drop)
    with run_stops [of "drop 8 a" ascii_alnum s] alnum
    have "run_of ascii_alnum (drop 8 (a @ s)) = run_of ascii_alnum (drop 8 a)"
      "8 + run_of ascii_alnum (drop 8 a) < length a"
      using len by (auto simp: run_of_def)
    with p True show ?thesis by (auto simp: api_key_match_def Let_def split: if_splits)
  qed
qed

text \<open>What follows a text that ends outside a word is substituted on its own.\<close>

lemma substitute_append:
  assumes "a = [] \<or> \<not> word_char (last a)"
  shows "\<exists>p. \<forall>s. substitute api_key_match prev (a @ s) =
    p @ substitute api_key_match (if a = [] then prev else Some (last a)) s"
  using assms
proof (induction "length a" arbitrary: a prev rule: less_induct)
  case less
  show ?case
  proof (cases a)
    case Nil
    then show ?thesis by (intro exI [of _ "[]"]) simp
  next
    case (Cons c cs)
    then have a: "a \<noteq> []" "\<not> word_char (last a)" using less.prems by auto
    note local = api_key_match_local [OF a, of prev]
    show ?thesis
    proof (cases "api_key_match prev a")
      case None
      have "cs = [] \<or> \<not> word_char (last cs)" using a Cons by auto
      with less.hyps [of cs "Some c"] Cons obtain p where
        p: "substitute api_key_match (Some c) (cs @ s) =
          p @ substitute api_key_match (if cs = [] then Some c else Some (last cs)) s" for s
        by auto
      have "substitute api_key_match prev (a @ s) =
          (c # p) @ substitute api_key_match (if a = [] then prev else Some (last a)) s" for s
        using None local p [of s] Cons by simp
      then show ?thesis by blast
    next
      case (Some x)
      obtain n r where x: "x = (n, r)" by (cases x)
      with Some local have n: "0 < n" "n < length a" by auto
      let ?rest = "drop (n - 1) cs"
      have rest: "?rest \<noteq> []" "last ?rest = last a" "length ?rest < length a"
        using n Cons by (auto simp: last_drop)
      with less.hyps [of ?rest "Some (a ! (n - 1))"] a obtain p where
        p: "substitute api_key_match (Some (a ! (n - 1))) (?rest @ s) =
          p @ substitute api_key_match (Some (last a)) s" for s
        by auto
      have "substitute api_key_match prev (a @ s) =
          (r @ p) @ substitute api_key_match (if a = [] then prev else Some (last a)) s" for s
      proof -
        have "(a @ s) ! (n - 1) = a ! (n - 1)" using n by (simp add: nth_append_left)
        then have "(c # cs @ s) ! (n - 1) = a ! (n - 1)" using Cons by simp
        moreover have "drop (n - 1) (cs @ s) = ?rest @ s" using n Cons by simp
        ultimately show ?thesis using Some x local p [of s] Cons by simp
      qed
      then show ?thesis by blast
    qed
  qed
qed

lemma substitute_prev:
  assumes "at_word_start p = at_word_start q"
  shows "substitute api_key_match p s = substitute api_key_match q s"
proof -
  have "api_key_match p s = api_key_match q s" using assms by (simp add: api_key_match_def Let_def)
  then show ?thesis by (cases s) (auto split: option.splits)
qed

lemma substitute_match:
  assumes "m prev (c # cs) = Some (Suc n, r)"
  shows "substitute m prev (c # cs) = r @ substitute m (Some ((c # cs) ! n)) (drop n cs)"
  using assms by simp

lemma key_replaced:
  assumes "k \<noteq> []" "list_all ascii_alnum k" "b = [] \<or> \<not> ascii_alnum (hd b)" "at_word_start prev"
  shows "substitute api_key_match prev (''em_live_'' @ k @ b) =
    ''em_***'' @ substitute api_key_match (Some (CHR ''a'')) b"
proof -
  have run: "takeWhile ascii_alnum (k @ b) = k"
    using assms(2,3) by (cases b) (auto simp: takeWhile_append2 list_all_iff)
  define t where "t = ''m_live_'' @ k @ b"
  have whole: "''em_live_'' @ k @ b = CHR ''e'' # t" by (simp add: t_def)
  have m: "api_key_match prev (CHR ''e'' # t) = Some (Suc (7 + length k), ''em_***'')"
    using assms(1,4) run unfolding whole [symmetric]
    by (simp add: api_key_match_def starts_with_def run_of_def)
  have "drop (7 + length k) t = drop (length k) (drop 7 t)" by (simp only: drop_drop add.commute)
  then have rest: "drop (7 + length k) t = b" by (simp add: t_def)
  have "(CHR ''e'' # t) ! (7 + length k) = (''em_live_'' @ k @ b) ! (7 + length k)" by (simp add: t_def)
  also have "\<dots> = k ! (length k - 1)"
    using assms(1) by (cases k rule: rev_cases) (simp_all only: nth_append, simp_all)
  finally have final: "(CHR ''e'' # t) ! (7 + length k) = last k" using assms(1) by (simp add: last_conv_nth)
  have "ascii_alnum (last k)" using assms(1,2) by (simp add: list_all_iff)
  moreover have "word_char (CHR ''a'')" by code_simp
  ultimately have "at_word_start (Some (last k)) = at_word_start (Some (CHR ''a''))"
    by (simp add: at_word_start_def alnum_word)
  from substitute_prev [OF this] show ?thesis
    unfolding whole substitute_match [where m = api_key_match, OF m] rest final by (rule arg_cong)
qed

text \<open>What is left of a text does not depend on the key in it.\<close>

lemma redacted_alike:
  assumes "a = [] \<or> \<not> word_char (last a)" "b = [] \<or> \<not> ascii_alnum (hd b)"
    and "k \<noteq> []" "list_all ascii_alnum k" "k' \<noteq> []" "list_all ascii_alnum k'"
  shows "redact (a @ ''em_live_'' @ k @ b) = redact (a @ ''em_live_'' @ k' @ b)"
proof -
  obtain p where p: "substitute api_key_match None (a @ s) =
      p @ substitute api_key_match (if a = [] then None else Some (last a)) s" for s
    using substitute_append [OF assms(1)] by blast
  have start: "at_word_start (if a = [] then None else Some (last a))"
    using assms(1) by (auto simp: at_word_start_def)
  have "substitute api_key_match None (a @ ''em_live_'' @ k @ b) = substitute api_key_match None (a @ ''em_live_'' @ k' @ b)"
    unfolding p key_replaced [OF assms(3,4,2) start] key_replaced [OF assms(5,6,2) start] ..
  then show ?thesis by (simp add: redact_def redactions_def)
qed


definition ex_render :: "log_value \<Rightarrow> log_args \<Rightarrow> string" where
  "ex_render m as = (case m of Log_Str t \<Rightarrow> t | Log_Other t \<Rightarrow> t)"

definition ex_record :: log_record where
  "ex_record = \<lparr>lr_msg = Log_Str ''m'', lr_args = No_Args, lr_created = 0, lr_level = ''INFO'', lr_name = ''n'',
     lr_exception = None, lr_context = []\<rparr>"


text \<open>
  A key as the program makes it may also have a dash or an underscore, and the pattern stops there: the
  rest of the key stays in the line.
\<close>

lemma rest_of_key_survives: "redact ''used em_live_Ab-Cd_Ef now'' = ''used em_***-Cd_Ef now''"
  by code_simp

text \<open>A placeholder after the name of a secret is replaced before it is filled in.\<close>

lemma placeholder_is_redacted: "redact ''token=%s'' = ''token=***''"
  by code_simp

lemma dsn_password_is_redacted: "redact ''a://u:pw@h/d'' = ''a://u:***@h/d''"
  by code_simp

lemma authorization_is_redacted: "redact ''Token: Bearer ab'' = ''Token: *** ab''"
  by code_simp

end
