(* ===== verification/Migrations.thy ===== *)
theory Migrations
  imports Models
begin

text \<open>
  The migrations (alembic/versions), as lists of schema operations, and the schema the models declare
  (emaild/models.py).  An operation on a schema fails where PostgreSQL refuses it: creating a table that
  exists, or with an enumeration type that exists, referring to a table or column that does not, dropping
  what others refer to.  Dropping a table drops its indexes, and not the types of its columns.
\<close>

section \<open>Schemas\<close>

datatype sql_type =
    Sql_Integer | Sql_Big_Integer | Sql_String nat | Sql_Text | Sql_Boolean | Sql_Timestamp | Sql_Jsonb
  | Sql_Float | Sql_Enum string "string list"

record column_def =
  co_name :: string
  co_type :: sql_type
  co_nullable :: bool
  co_default :: "string option"

datatype table_rule =
    Primary_Key "string list"
  | Unique_Key "string option" "string list"
  | Check_Rule string string
  | Foreign_Key "string option" "string list" string "string list" string

record table_def =
  td_name :: string
  td_columns :: "column_def list"
  td_constraints :: "table_rule list"

record index_def =
  ix_name :: string
  ix_table :: string
  ix_columns :: "string list"
  ix_unique :: bool
  ix_where :: "string option"

record schema =
  sm_types :: "(string \<times> string list) list"
  sm_tables :: "table_def list"
  sm_indexes :: "index_def list"

definition empty_schema :: schema where
  "empty_schema = \<lparr>sm_types = [], sm_tables = [], sm_indexes = []\<rparr>"

definition column :: "string \<Rightarrow> sql_type \<Rightarrow> bool \<Rightarrow> string option \<Rightarrow> column_def" where
  "column n t nullable d = \<lparr>co_name = n, co_type = t, co_nullable = nullable, co_default = d\<rparr>"

definition index :: "string \<Rightarrow> string \<Rightarrow> string list \<Rightarrow> bool \<Rightarrow> string option \<Rightarrow> index_def" where
  "index n t cols u w = \<lparr>ix_name = n, ix_table = t, ix_columns = cols, ix_unique = u, ix_where = w\<rparr>"

section \<open>Operations\<close>

datatype ddl =
    Create_Table table_def
  | Drop_Table string
  | Add_Column string column_def
  | Drop_Column string string
  | Create_Index index_def
  | Drop_Index string
  | Create_Constraint string table_rule
  | Drop_Constraint string string
  | Drop_Type string

fun rule_name :: "table_rule \<Rightarrow> string option" where
  "rule_name (Primary_Key cols) = None"
| "rule_name (Unique_Key n cols) = n"
| "rule_name (Check_Rule n rule) = Some n"
| "rule_name (Foreign_Key n cols t refs action) = n"

fun rule_columns :: "table_rule \<Rightarrow> string list" where
  "rule_columns (Primary_Key cols) = cols"
| "rule_columns (Unique_Key n cols) = cols"
| "rule_columns (Check_Rule n rule) = []"
| "rule_columns (Foreign_Key n cols t refs action) = cols"

fun rule_target :: "table_rule \<Rightarrow> string option" where
  "rule_target (Foreign_Key n cols t refs action) = Some t"
| "rule_target _ = None"

definition column_names :: "table_def \<Rightarrow> string list" where
  "column_names t = map co_name (td_columns t)"

fun type_of :: "sql_type \<Rightarrow> (string \<times> string list) option" where
  "type_of (Sql_Enum n values) = Some (n, values)"
| "type_of _ = None"

definition enum_types :: "table_def \<Rightarrow> (string \<times> string list) list" where
  "enum_types t = List.map_filter (\<lambda>c. type_of (co_type c)) (td_columns t)"

definition table_names :: "schema \<Rightarrow> string list" where
  "table_names s = map td_name (sm_tables s)"

definition table_named :: "schema \<Rightarrow> string \<Rightarrow> table_def option" where
  "table_named s n = find (\<lambda>t. td_name t = n) (sm_tables s)"

definition rule_ok :: "schema \<Rightarrow> table_def \<Rightarrow> table_rule \<Rightarrow> bool" where
  "rule_ok s t r = (list_all (\<lambda>c. c \<in> set (column_names t)) (rule_columns r) \<and>
     (case rule_target r of None \<Rightarrow> True | Some u \<Rightarrow> u \<in> set (table_names s)))"

definition refers_to :: "string \<Rightarrow> table_def \<Rightarrow> bool" where
  "refers_to n t = list_ex (\<lambda>r. rule_target r = Some n) (td_constraints t)"

definition change_table :: "string \<Rightarrow> (table_def \<Rightarrow> table_def) \<Rightarrow> schema \<Rightarrow> schema" where
  "change_table n f s = s\<lparr>sm_tables := map (\<lambda>t. if td_name t = n then f t else t) (sm_tables s)\<rparr>"

fun ddl_step :: "ddl \<Rightarrow> schema \<Rightarrow> schema option" where
  "ddl_step (Create_Table t) s =
     (if td_name t \<in> set (table_names s) \<or>
         list_ex (\<lambda>e. fst e \<in> set (map fst (sm_types s))) (enum_types t) \<or>
         \<not> list_all (rule_ok (s\<lparr>sm_tables := sm_tables s @ [t]\<rparr>) t) (td_constraints t)
      then None
      else Some (s\<lparr>sm_types := sm_types s @ enum_types t, sm_tables := sm_tables s @ [t]\<rparr>))"
| "ddl_step (Drop_Table n) s =
     (if n \<notin> set (table_names s) \<or> list_ex (\<lambda>t. td_name t \<noteq> n \<and> refers_to n t) (sm_tables s) then None
      else Some (s\<lparr>sm_tables := filter (\<lambda>t. td_name t \<noteq> n) (sm_tables s),
                   sm_indexes := filter (\<lambda>i. ix_table i \<noteq> n) (sm_indexes s)\<rparr>))"
| "ddl_step (Add_Column n c) s = (case table_named s n of
       None \<Rightarrow> None
     | Some t \<Rightarrow>
         if co_name c \<in> set (column_names t) \<or>
            (case type_of (co_type c) of None \<Rightarrow> False | Some e \<Rightarrow> fst e \<notin> set (map fst (sm_types s)))
         then None
         else Some (change_table n (\<lambda>t. t\<lparr>td_columns := td_columns t @ [c]\<rparr>) s))"
| "ddl_step (Drop_Column n c) s = (case table_named s n of
       None \<Rightarrow> None
     | Some t \<Rightarrow>
         if c \<notin> set (column_names t) then None
         else Some (change_table n (\<lambda>t. t\<lparr>td_columns := filter (\<lambda>q. co_name q \<noteq> c) (td_columns t),
                  td_constraints := filter (\<lambda>r. c \<notin> set (rule_columns r)) (td_constraints t)\<rparr>)
                (s\<lparr>sm_indexes := filter (\<lambda>i. \<not> (ix_table i = n \<and> c \<in> set (ix_columns i))) (sm_indexes s)\<rparr>)))"
| "ddl_step (Create_Index i) s = (case table_named s (ix_table i) of
       None \<Rightarrow> None
     | Some t \<Rightarrow>
         if ix_name i \<in> set (map ix_name (sm_indexes s)) \<or>
            \<not> list_all (\<lambda>c. c \<in> set (column_names t)) (ix_columns i)
         then None else Some (s\<lparr>sm_indexes := sm_indexes s @ [i]\<rparr>))"
| "ddl_step (Drop_Index n) s =
     (if n \<notin> set (map ix_name (sm_indexes s)) then None
      else Some (s\<lparr>sm_indexes := filter (\<lambda>i. ix_name i \<noteq> n) (sm_indexes s)\<rparr>))"
| "ddl_step (Create_Constraint n r) s = (case table_named s n of
       None \<Rightarrow> None
     | Some t \<Rightarrow>
         if rule_name r = None \<or> rule_name r \<in> set (map rule_name (td_constraints t)) \<or> \<not> rule_ok s t r
         then None
         else Some (change_table n (\<lambda>t. t\<lparr>td_constraints := td_constraints t @ [r]\<rparr>) s))"
| "ddl_step (Drop_Constraint n c) s = (case table_named s n of
       None \<Rightarrow> None
     | Some t \<Rightarrow>
         if Some c \<notin> set (map rule_name (td_constraints t)) then None
         else Some (change_table n (\<lambda>t. t\<lparr>td_constraints := filter (\<lambda>r. rule_name r \<noteq> Some c) (td_constraints t)\<rparr>) s))"
| "ddl_step (Drop_Type n) s =
     (if list_ex (\<lambda>t. n \<in> set (map fst (enum_types t))) (sm_tables s) then None
      else Some (s\<lparr>sm_types := filter (\<lambda>e. fst e \<noteq> n) (sm_types s)\<rparr>))"

fun run_ddl :: "ddl list \<Rightarrow> schema \<Rightarrow> schema option" where
  "run_ddl [] s = Some s"
| "run_ddl (x # xs) s = (case ddl_step x s of None \<Rightarrow> None | Some s' \<Rightarrow> run_ddl xs s')"

section \<open>The revisions\<close>

definition create_domains :: "ddl list" where
  "create_domains = [
     Create_Table \<lparr>td_name = ''domains'',
       td_columns = [
         column ''id'' Sql_Integer False None,
         column ''name'' (Sql_String 253) False None,
         column ''status'' (Sql_Enum ''domain_status'' [''added'', ''ownership_pending'', ''dns_incomplete'',
       ''verified'', ''ready'', ''suspended'', ''misconfigured'']) False (Some ([CHR 39] @ ''added'' @ [CHR 39])),
         column ''smtp_host'' (Sql_String 253) True None,
         column ''dns_state'' Sql_Jsonb True None,
         column ''dns_checked_at'' Sql_Timestamp True None,
         column ''verification_token'' (Sql_String 120) True None,
         column ''created_at'' Sql_Timestamp False (Some ''now()''),
         column ''updated_at'' Sql_Timestamp True None],
       td_constraints = [
         Primary_Key [''id''],
         Unique_Key None [''name'']]\<rparr>]"

definition create_projects :: "ddl list" where
  "create_projects = [
     Create_Table \<lparr>td_name = ''projects'',
       td_columns = [
         column ''id'' Sql_Integer False None,
         column ''name'' (Sql_String 100) False None,
         column ''description'' Sql_Text True None,
         column ''active'' Sql_Boolean False (Some ''true''),
         column ''created_at'' Sql_Timestamp False (Some ''now()'')],
       td_constraints = [
         Primary_Key [''id''],
         Unique_Key None [''name'']]\<rparr>]"

definition create_suppressions :: "ddl list" where
  "create_suppressions = [
     Create_Table \<lparr>td_name = ''suppressions'',
       td_columns = [
         column ''id'' Sql_Integer False None,
         column ''address'' (Sql_String 320) False None,
         column ''source'' (Sql_Enum ''suppression_source'' [''manual'', ''bounce'',
       ''complaint'']) False (Some ([CHR 39] @ ''manual'' @ [CHR 39])),
         column ''reason'' Sql_Text True None,
         column ''created_at'' Sql_Timestamp False (Some ''now()'')],
       td_constraints = [
         Primary_Key [''id''],
         Unique_Key None [''address'']]\<rparr>,
     Create_Index (index ''ix_suppressions_address'' ''suppressions'' [''address''] False None)]"

definition create_api_keys :: "ddl list" where
  "create_api_keys = [
     Create_Table \<lparr>td_name = ''api_keys'',
       td_columns = [
         column ''id'' Sql_Integer False None,
         column ''project_id'' Sql_Integer False None,
         column ''name'' (Sql_String 100) False None,
         column ''key_hash'' (Sql_String 64) False None,
         column ''key_prefix'' (Sql_String 20) False None,
         column ''active'' Sql_Boolean False (Some ''true''),
         column ''created_at'' Sql_Timestamp False (Some ''now()''),
         column ''last_used_at'' Sql_Timestamp True None,
         column ''revoked_at'' Sql_Timestamp True None],
       td_constraints = [
         Foreign_Key None [''project_id''] ''projects'' [''id''] ''CASCADE'',
         Primary_Key [''id''],
         Unique_Key None [''key_hash'']]\<rparr>,
     Create_Index (index ''ix_api_keys_hash_active'' ''api_keys'' [''key_hash'', ''active''] False None)]"

definition create_mailboxes :: "ddl list" where
  "create_mailboxes = [
     Create_Table \<lparr>td_name = ''mailboxes'',
       td_columns = [
         column ''id'' Sql_Integer False None,
         column ''domain_id'' Sql_Integer False None,
         column ''address'' (Sql_String 320) False None,
         column ''password_encrypted'' Sql_Text False None,
         column ''display_name'' (Sql_String 200) True None,
         column ''hourly_limit'' Sql_Integer False (Some ''400''),
         column ''daily_limit'' Sql_Integer False (Some ''9600''),
         column ''active'' Sql_Boolean False (Some ''true''),
         column ''provisioned_at'' Sql_Timestamp True None,
         column ''created_at'' Sql_Timestamp False (Some ''now()'')],
       td_constraints = [
         Check_Rule ''ck_mailbox_daily_limit'' ''daily_limit > 0 AND daily_limit <= 9600'',
         Check_Rule ''ck_mailbox_hourly_limit'' ''hourly_limit > 0 AND hourly_limit <= 400'',
         Foreign_Key None [''domain_id''] ''domains'' [''id''] ''RESTRICT'',
         Primary_Key [''id''],
         Unique_Key None [''address'']]\<rparr>,
     Create_Index (index ''ix_mailboxes_domain'' ''mailboxes'' [''domain_id''] False None)]"

definition create_api_key_scopes :: "ddl list" where
  "create_api_key_scopes = [
     Create_Table \<lparr>td_name = ''api_key_scopes'',
       td_columns = [
         column ''id'' Sql_Integer False None,
         column ''api_key_id'' Sql_Integer False None,
         column ''mailbox_id'' Sql_Integer False None],
       td_constraints = [
         Foreign_Key None [''api_key_id''] ''api_keys'' [''id''] ''CASCADE'',
         Foreign_Key None [''mailbox_id''] ''mailboxes'' [''id''] ''CASCADE'',
         Primary_Key [''id''],
         Unique_Key (Some ''uq_scope_key_mailbox'') [''api_key_id'', ''mailbox_id'']]\<rparr>]"

definition create_messages :: "ddl list" where
  "create_messages = [
     Create_Table \<lparr>td_name = ''messages'',
       td_columns = [
         column ''id'' Sql_Big_Integer False None,
         column ''public_id'' (Sql_String 40) False None,
         column ''project_id'' Sql_Integer False None,
         column ''mailbox_id'' Sql_Integer False None,
         column ''api_key_id'' Sql_Integer True None,
         column ''status'' (Sql_Enum ''message_status'' [''queued'', ''sending'', ''accepted_by_provider'',
       ''temporarily_failed'', ''permanently_rejected'',
       ''canceled'']) False (Some ([CHR 39] @ ''queued'' @ [CHR 39])),
         column ''from_address'' (Sql_String 320) False None,
         column ''from_name'' (Sql_String 200) True None,
         column ''to_addresses'' Sql_Jsonb False None,
         column ''cc_addresses'' Sql_Jsonb True None,
         column ''bcc_addresses'' Sql_Jsonb True None,
         column ''reply_to'' (Sql_String 320) True None,
         column ''subject'' Sql_Text True None,
         column ''return_path'' (Sql_String 320) True None,
         column ''body_html'' Sql_Text True None,
         column ''body_text'' Sql_Text True None,
         column ''body_purged_at'' Sql_Timestamp True None,
         column ''size_bytes'' Sql_Integer False (Some ''0''),
         column ''recipient_count'' Sql_Integer False (Some ''0''),
         column ''attempts'' Sql_Integer False (Some ''0''),
         column ''next_attempt_at'' Sql_Timestamp True None,
         column ''claimed_by'' (Sql_String 100) True None,
         column ''claimed_at'' Sql_Timestamp True None,
         column ''provider_response'' Sql_Text True None,
         column ''failure_class'' (Sql_Enum ''failure_class'' [''auth_failure'', ''recipient_rejected'',
       ''sender_unauthorized'', ''sender_mismatch'', ''rate_limited'', ''provider_deferral'', ''connection'',
       ''policy_rejected'', ''message_invalid'', ''internal'', ''unknown'']) True None,
         column ''failure_code'' Sql_Integer True None,
         column ''needs_review'' Sql_Boolean False (Some ''false''),
         column ''created_at'' Sql_Timestamp False (Some ''now()''),
         column ''updated_at'' Sql_Timestamp True None,
         column ''completed_at'' Sql_Timestamp True None],
       td_constraints = [
         Foreign_Key None [''api_key_id''] ''api_keys'' [''id''] ''SET NULL'',
         Foreign_Key None [''mailbox_id''] ''mailboxes'' [''id''] ''RESTRICT'',
         Foreign_Key None [''project_id''] ''projects'' [''id''] ''RESTRICT'',
         Primary_Key [''id''],
         Unique_Key None [''public_id'']]\<rparr>,
     Create_Index (index ''ix_messages_body_purge'' ''messages'' [''completed_at''] False (Some (''body_purged_at IS NULL AND completed_at IS NOT NULL''))),
     Create_Index (index ''ix_messages_needs_review'' ''messages'' [''needs_review''] False (Some (''needs_review''))),
     Create_Index (index ''ix_messages_project_created'' ''messages'' [''project_id'', ''created_at''] False None),
     Create_Index (index ''ix_messages_queue_claim'' ''messages'' [''next_attempt_at''] False (Some (''status IN ('' @ [CHR 39] @ ''queued'' @ [CHR 39] @ '', '' @ [CHR 39] @ ''temporarily_failed'' @ [CHR 39] @ '')''))),
     Create_Index (index ''ix_messages_stale_claims'' ''messages'' [''claimed_at''] False (Some (''status = '' @ [CHR 39] @ ''sending'' @ [CHR 39])))]"

definition create_send_counters :: "ddl list" where
  "create_send_counters = [
     Create_Table \<lparr>td_name = ''send_counters'',
       td_columns = [
         column ''id'' Sql_Big_Integer False None,
         column ''mailbox_id'' Sql_Integer False None,
         column ''window_start'' Sql_Timestamp False None,
         column ''sent_count'' Sql_Integer False (Some ''0''),
         column ''provider_sent_today'' Sql_Integer True None,
         column ''provider_checked_at'' Sql_Timestamp True None,
         column ''drift_ratio'' Sql_Float True None],
       td_constraints = [
         Foreign_Key None [''mailbox_id''] ''mailboxes'' [''id''] ''CASCADE'',
         Primary_Key [''id''],
         Unique_Key (Some ''uq_counter_mailbox_window'') [''mailbox_id'', ''window_start'']]\<rparr>,
     Create_Index (index ''ix_send_counters_lookup'' ''send_counters'' [''mailbox_id'',
       ''window_start''] False None)]"

definition create_events :: "ddl list" where
  "create_events = [
     Create_Table \<lparr>td_name = ''events'',
       td_columns = [
         column ''id'' Sql_Big_Integer False None,
         column ''message_id'' Sql_Big_Integer False None,
         column ''sequence'' Sql_Integer False None,
         column ''event_type'' (Sql_String 50) False None,
         column ''detail'' Sql_Jsonb True None,
         column ''occurred_at'' Sql_Timestamp False (Some ''now()'')],
       td_constraints = [
         Foreign_Key None [''message_id''] ''messages'' [''id''] ''CASCADE'',
         Primary_Key [''id''],
         Unique_Key (Some ''uq_event_message_sequence'') [''message_id'', ''sequence'']]\<rparr>,
     Create_Index (index ''ix_events_message'' ''events'' [''message_id'', ''sequence''] False None),
     Create_Index (index ''ix_events_type_time'' ''events'' [''event_type'', ''occurred_at''] False None)]"

definition create_idempotency_keys :: "ddl list" where
  "create_idempotency_keys = [
     Create_Table \<lparr>td_name = ''idempotency_keys'',
       td_columns = [
         column ''id'' Sql_Big_Integer False None,
         column ''project_id'' Sql_Integer False None,
         column ''key'' (Sql_String 255) False None,
         column ''request_hash'' (Sql_String 64) False None,
         column ''message_id'' Sql_Big_Integer True None,
         column ''response_status'' Sql_Integer True None,
         column ''response_body'' Sql_Jsonb True None,
         column ''created_at'' Sql_Timestamp False (Some ''now()''),
         column ''expires_at'' Sql_Timestamp False None],
       td_constraints = [
         Foreign_Key None [''message_id''] ''messages'' [''id''] ''SET NULL'',
         Foreign_Key None [''project_id''] ''projects'' [''id''] ''CASCADE'',
         Primary_Key [''id''],
         Unique_Key (Some ''uq_idempotency_project_key'') [''project_id'', ''key'']]\<rparr>,
     Create_Index (index ''ix_idempotency_expires'' ''idempotency_keys'' [''expires_at''] False None)]"

definition upgrade_initial :: "ddl list" where
  "upgrade_initial = create_domains @ create_projects @ create_suppressions @ create_api_keys @ create_mailboxes @ create_api_key_scopes @ create_messages @ create_send_counters @ create_events @ create_idempotency_keys"

definition downgrade_initial :: "ddl list" where
  "downgrade_initial = [
     Drop_Index ''ix_idempotency_expires'',
     Drop_Table ''idempotency_keys'',
     Drop_Index ''ix_events_type_time'',
     Drop_Index ''ix_events_message'',
     Drop_Table ''events'',
     Drop_Index ''ix_send_counters_lookup'',
     Drop_Table ''send_counters'',
     Drop_Index ''ix_messages_stale_claims'',
     Drop_Index ''ix_messages_queue_claim'',
     Drop_Index ''ix_messages_project_created'',
     Drop_Index ''ix_messages_needs_review'',
     Drop_Index ''ix_messages_body_purge'',
     Drop_Table ''messages'',
     Drop_Table ''api_key_scopes'',
     Drop_Index ''ix_mailboxes_domain'',
     Drop_Table ''mailboxes'',
     Drop_Index ''ix_api_keys_hash_active'',
     Drop_Table ''api_keys'',
     Drop_Index ''ix_suppressions_address'',
     Drop_Table ''suppressions'',
     Drop_Table ''projects'',
     Drop_Table ''domains'']"

definition upgrade_installation :: "ddl list" where
  "upgrade_installation = [
     Create_Table \<lparr>td_name = ''installation'',
       td_columns = [
         column ''id'' Sql_Integer False None,
         column ''installation_id'' (Sql_String 40) False None,
         column ''installed_at'' Sql_Timestamp False (Some ''now()''),
         column ''installed_version'' (Sql_String 40) False None],
       td_constraints = [
         Check_Rule ''ck_installation_single_row'' ''id = 1'',
         Primary_Key [''id''],
         Unique_Key None [''installation_id'']]\<rparr>]"

definition downgrade_installation :: "ddl list" where
  "downgrade_installation = [
     Drop_Table ''installation'']"

definition upgrade_accounting :: "ddl list" where
  "upgrade_accounting = [
     Add_Column ''messages'' (column ''last_attempt_at'' Sql_Timestamp True None),
     Create_Index (index ''ix_messages_rate_window'' ''messages'' [''mailbox_id'', ''last_attempt_at''] False None)]"

definition downgrade_accounting :: "ddl list" where
  "downgrade_accounting = [
     Drop_Index ''ix_messages_rate_window'',
     Drop_Column ''messages'' ''last_attempt_at'']"

definition upgrade_observability :: "ddl list" where
  "upgrade_observability = [
     Create_Table \<lparr>td_name = ''worker_heartbeats'',
       td_columns = [
         column ''id'' Sql_Integer False None,
         column ''worker_id'' (Sql_String 150) False None,
         column ''version'' (Sql_String 40) True None,
         column ''last_seen_at'' Sql_Timestamp False (Some ''now()''),
         column ''messages_processed'' Sql_Big_Integer False (Some ''0'')],
       td_constraints = [
         Primary_Key [''id''],
         Unique_Key None [''worker_id'']]\<rparr>,
     Create_Index (index ''ix_heartbeat_last_seen'' ''worker_heartbeats'' [''last_seen_at''] False None),
     Add_Column ''messages'' (column ''provider_latency_ms'' Sql_Integer True None)]"

definition downgrade_observability :: "ddl list" where
  "downgrade_observability = [
     Drop_Column ''messages'' ''provider_latency_ms'',
     Drop_Index ''ix_heartbeat_last_seen'',
     Drop_Table ''worker_heartbeats'']"

definition upgrade_dashboard :: "ddl list" where
  "upgrade_dashboard = [
     Create_Table \<lparr>td_name = ''provisioning_jobs'',
       td_columns = [
         column ''id'' Sql_Integer False None,
         column ''job_type'' (Sql_Enum ''job_type'' [''add_domain'', ''verify_domain'']) False None,
         column ''status'' (Sql_Enum ''job_status'' [''pending'', ''running'', ''succeeded'',
       ''failed'']) False (Some ([CHR 39] @ ''pending'' @ [CHR 39])),
         column ''payload'' Sql_Jsonb True None,
         column ''requested_by'' (Sql_String 40) False (Some ([CHR 39] @ ''dashboard'' @ [CHR 39])),
         column ''result'' Sql_Text True None,
         column ''created_at'' Sql_Timestamp False (Some ''now()''),
         column ''claimed_at'' Sql_Timestamp True None,
         column ''completed_at'' Sql_Timestamp True None],
       td_constraints = [
         Primary_Key [''id'']]\<rparr>,
     Create_Index (index ''ix_jobs_claimable'' ''provisioning_jobs'' [''status'', ''created_at''] False None),
     Add_Column ''domains'' (column ''required_records'' Sql_Jsonb True None),
     Add_Column ''suppressions'' (column ''project_id'' Sql_Integer True None),
     Create_Index (index ''ix_suppressions_project'' ''suppressions'' [''project_id''] False None),
     Create_Constraint ''suppressions'' (Foreign_Key (Some ''fk_suppressions_project'') [''project_id''] ''projects'' [''id''] ''SET NULL'')]"

definition downgrade_dashboard :: "ddl list" where
  "downgrade_dashboard = [
     Drop_Constraint ''suppressions'' ''fk_suppressions_project'',
     Drop_Index ''ix_suppressions_project'',
     Drop_Column ''suppressions'' ''project_id'',
     Drop_Column ''domains'' ''required_records'',
     Drop_Index ''ix_jobs_claimable'',
     Drop_Table ''provisioning_jobs'',
     Drop_Type ''job_type'',
     Drop_Type ''job_status'']"

text \<open>The revisions in the order of their \<open>down_revision\<close> links.\<close>

definition later_revisions :: "(ddl list \<times> ddl list) list" where
  "later_revisions = [(upgrade_installation, downgrade_installation), (upgrade_accounting, downgrade_accounting),
     (upgrade_observability, downgrade_observability), (upgrade_dashboard, downgrade_dashboard)]"

definition all_upgrades :: "ddl list" where
  "all_upgrades = upgrade_initial @ concat (map fst later_revisions)"

section \<open>The declared schema\<close>

definition domain_status_values :: "string list" where
  "domain_status_values = map domain_status_value enum_class.enum"

definition message_status_values :: "string list" where
  "message_status_values = map message_status_value enum_class.enum"

definition failure_class_values :: "string list" where
  "failure_class_values = map failure_class_value [Auth_Failure, Recipient_Rejected, Sender_Unauthorized,
       Sender_Mismatch, Rate_Limited, Provider_Deferral, Connection, Policy_Rejected, Message_Invalid,
       Internal, Unknown]"

definition suppression_source_values :: "string list" where
  "suppression_source_values = map suppression_source_value [Manual, Bounce, Complaint]"

definition job_type_values :: "string list" where
  "job_type_values = map job_type_value [Add_Domain, Verify_Domain]"

definition job_status_values :: "string list" where
  "job_status_values = map job_status_value [Pending, Running, Succeeded, Failed]"

definition model_installation :: table_def where
  "model_installation = \<lparr>td_name = ''installation'',
     td_columns = [
       column ''id'' Sql_Integer False None,
       column ''installation_id'' (Sql_String 40) False None,
       column ''installed_at'' Sql_Timestamp False (Some ''now()''),
       column ''installed_version'' (Sql_String 40) False None],
     td_constraints = [
       Primary_Key [''id''],
       Unique_Key None [''installation_id''],
       Check_Rule ''ck_installation_single_row'' ''id = 1'']\<rparr>"

definition model_installation_indexes :: "index_def list" where
  "model_installation_indexes = []"

definition model_projects :: table_def where
  "model_projects = \<lparr>td_name = ''projects'',
     td_columns = [
       column ''id'' Sql_Integer False None,
       column ''name'' (Sql_String 100) False None,
       column ''description'' Sql_Text True None,
       column ''active'' Sql_Boolean False (Some ''true''),
       column ''created_at'' Sql_Timestamp False (Some ''now()'')],
     td_constraints = [
       Primary_Key [''id''],
       Unique_Key None [''name'']]\<rparr>"

definition model_projects_indexes :: "index_def list" where
  "model_projects_indexes = []"

definition model_domains :: table_def where
  "model_domains = \<lparr>td_name = ''domains'',
     td_columns = [
       column ''id'' Sql_Integer False None,
       column ''name'' (Sql_String 253) False None,
       column ''status'' (Sql_Enum ''domain_status'' domain_status_values) False (Some ([CHR 39] @ ''added'' @ [CHR 39])),
       column ''smtp_host'' (Sql_String 253) True None,
       column ''required_records'' Sql_Jsonb True None,
       column ''dns_state'' Sql_Jsonb True None,
       column ''dns_checked_at'' Sql_Timestamp True None,
       column ''verification_token'' (Sql_String 120) True None,
       column ''created_at'' Sql_Timestamp False (Some ''now()''),
       column ''updated_at'' Sql_Timestamp True None],
     td_constraints = [
       Primary_Key [''id''],
       Unique_Key None [''name'']]\<rparr>"

definition model_domains_indexes :: "index_def list" where
  "model_domains_indexes = []"

definition model_mailboxes :: table_def where
  "model_mailboxes = \<lparr>td_name = ''mailboxes'',
     td_columns = [
       column ''id'' Sql_Integer False None,
       column ''domain_id'' Sql_Integer False None,
       column ''address'' (Sql_String 320) False None,
       column ''password_encrypted'' Sql_Text False None,
       column ''display_name'' (Sql_String 200) True None,
       column ''hourly_limit'' Sql_Integer False (Some ''400''),
       column ''daily_limit'' Sql_Integer False (Some ''9600''),
       column ''active'' Sql_Boolean False (Some ''true''),
       column ''provisioned_at'' Sql_Timestamp True None,
       column ''created_at'' Sql_Timestamp False (Some ''now()'')],
     td_constraints = [
       Primary_Key [''id''],
       Foreign_Key None [''domain_id''] ''domains'' [''id''] ''RESTRICT'',
       Unique_Key None [''address''],
       Check_Rule ''ck_mailbox_hourly_limit'' ''hourly_limit > 0 AND hourly_limit <= 400'',
       Check_Rule ''ck_mailbox_daily_limit'' ''daily_limit > 0 AND daily_limit <= 9600'']\<rparr>"

definition model_mailboxes_indexes :: "index_def list" where
  "model_mailboxes_indexes = [index ''ix_mailboxes_domain'' ''mailboxes'' [''domain_id''] False None]"

definition model_api_keys :: table_def where
  "model_api_keys = \<lparr>td_name = ''api_keys'',
     td_columns = [
       column ''id'' Sql_Integer False None,
       column ''project_id'' Sql_Integer False None,
       column ''name'' (Sql_String 100) False None,
       column ''key_hash'' (Sql_String 64) False None,
       column ''key_prefix'' (Sql_String 20) False None,
       column ''active'' Sql_Boolean False (Some ''true''),
       column ''created_at'' Sql_Timestamp False (Some ''now()''),
       column ''last_used_at'' Sql_Timestamp True None,
       column ''revoked_at'' Sql_Timestamp True None],
     td_constraints = [
       Primary_Key [''id''],
       Foreign_Key None [''project_id''] ''projects'' [''id''] ''CASCADE'',
       Unique_Key None [''key_hash'']]\<rparr>"

definition model_api_keys_indexes :: "index_def list" where
  "model_api_keys_indexes = [index ''ix_api_keys_hash_active'' ''api_keys'' [''key_hash'', ''active''] False None]"

definition model_api_key_scopes :: table_def where
  "model_api_key_scopes = \<lparr>td_name = ''api_key_scopes'',
     td_columns = [
       column ''id'' Sql_Integer False None,
       column ''api_key_id'' Sql_Integer False None,
       column ''mailbox_id'' Sql_Integer False None],
     td_constraints = [
       Primary_Key [''id''],
       Foreign_Key None [''api_key_id''] ''api_keys'' [''id''] ''CASCADE'',
       Foreign_Key None [''mailbox_id''] ''mailboxes'' [''id''] ''CASCADE'',
       Unique_Key (Some ''uq_scope_key_mailbox'') [''api_key_id'', ''mailbox_id'']]\<rparr>"

definition model_api_key_scopes_indexes :: "index_def list" where
  "model_api_key_scopes_indexes = []"

definition model_messages :: table_def where
  "model_messages = \<lparr>td_name = ''messages'',
     td_columns = [
       column ''id'' Sql_Big_Integer False None,
       column ''public_id'' (Sql_String 40) False None,
       column ''project_id'' Sql_Integer False None,
       column ''mailbox_id'' Sql_Integer False None,
       column ''api_key_id'' Sql_Integer True None,
       column ''status'' (Sql_Enum ''message_status'' message_status_values) False (Some ([CHR 39] @ ''queued'' @ [CHR 39])),
       column ''from_address'' (Sql_String 320) False None,
       column ''from_name'' (Sql_String 200) True None,
       column ''to_addresses'' Sql_Jsonb False None,
       column ''cc_addresses'' Sql_Jsonb True None,
       column ''bcc_addresses'' Sql_Jsonb True None,
       column ''reply_to'' (Sql_String 320) True None,
       column ''subject'' Sql_Text True None,
       column ''return_path'' (Sql_String 320) True None,
       column ''body_html'' Sql_Text True None,
       column ''body_text'' Sql_Text True None,
       column ''body_purged_at'' Sql_Timestamp True None,
       column ''size_bytes'' Sql_Integer False (Some ''0''),
       column ''recipient_count'' Sql_Integer False (Some ''0''),
       column ''last_attempt_at'' Sql_Timestamp True None,
       column ''attempts'' Sql_Integer False (Some ''0''),
       column ''next_attempt_at'' Sql_Timestamp True None,
       column ''claimed_by'' (Sql_String 100) True None,
       column ''claimed_at'' Sql_Timestamp True None,
       column ''provider_response'' Sql_Text True None,
       column ''provider_latency_ms'' Sql_Integer True None,
       column ''failure_class'' (Sql_Enum ''failure_class'' failure_class_values) True None,
       column ''failure_code'' Sql_Integer True None,
       column ''needs_review'' Sql_Boolean False (Some ''false''),
       column ''created_at'' Sql_Timestamp False (Some ''now()''),
       column ''updated_at'' Sql_Timestamp True None,
       column ''completed_at'' Sql_Timestamp True None],
     td_constraints = [
       Primary_Key [''id''],
       Foreign_Key None [''project_id''] ''projects'' [''id''] ''RESTRICT'',
       Foreign_Key None [''mailbox_id''] ''mailboxes'' [''id''] ''RESTRICT'',
       Foreign_Key None [''api_key_id''] ''api_keys'' [''id''] ''SET NULL'',
       Unique_Key None [''public_id'']]\<rparr>"

definition model_messages_indexes :: "index_def list" where
  "model_messages_indexes = [index ''ix_messages_queue_claim'' ''messages'' [''next_attempt_at''] False (Some (''status IN ('' @ [CHR 39] @ ''queued'' @ [CHR 39] @ '', '' @ [CHR 39] @ ''temporarily_failed'' @ [CHR 39] @ '')'')),
     index ''ix_messages_stale_claims'' ''messages'' [''claimed_at''] False (Some (''status = '' @ [CHR 39] @ ''sending'' @ [CHR 39])),
     index ''ix_messages_body_purge'' ''messages'' [''completed_at''] False (Some (''body_purged_at IS NULL AND completed_at IS NOT NULL'')),
     index ''ix_messages_project_created'' ''messages'' [''project_id'', ''created_at''] False None,
     index ''ix_messages_rate_window'' ''messages'' [''mailbox_id'', ''last_attempt_at''] False None,
     index ''ix_messages_needs_review'' ''messages'' [''needs_review''] False (Some (''needs_review''))]"

definition model_events :: table_def where
  "model_events = \<lparr>td_name = ''events'',
     td_columns = [
       column ''id'' Sql_Big_Integer False None,
       column ''message_id'' Sql_Big_Integer False None,
       column ''sequence'' Sql_Integer False None,
       column ''event_type'' (Sql_String 50) False None,
       column ''detail'' Sql_Jsonb True None,
       column ''occurred_at'' Sql_Timestamp False (Some ''now()'')],
     td_constraints = [
       Primary_Key [''id''],
       Foreign_Key None [''message_id''] ''messages'' [''id''] ''CASCADE'',
       Unique_Key (Some ''uq_event_message_sequence'') [''message_id'', ''sequence'']]\<rparr>"

definition model_events_indexes :: "index_def list" where
  "model_events_indexes = [index ''ix_events_message'' ''events'' [''message_id'', ''sequence''] False None,
     index ''ix_events_type_time'' ''events'' [''event_type'', ''occurred_at''] False None]"

definition model_suppressions :: table_def where
  "model_suppressions = \<lparr>td_name = ''suppressions'',
     td_columns = [
       column ''id'' Sql_Integer False None,
       column ''address'' (Sql_String 320) False None,
       column ''source'' (Sql_Enum ''suppression_source'' suppression_source_values) False (Some ([CHR 39] @ ''manual'' @ [CHR 39])),
       column ''reason'' Sql_Text True None,
       column ''project_id'' Sql_Integer True None,
       column ''created_at'' Sql_Timestamp False (Some ''now()'')],
     td_constraints = [
       Primary_Key [''id''],
       Foreign_Key (Some ''fk_suppressions_project'') [''project_id''] ''projects'' [''id''] ''SET NULL'',
       Unique_Key None [''address'']]\<rparr>"

definition model_suppressions_indexes :: "index_def list" where
  "model_suppressions_indexes = [index ''ix_suppressions_address'' ''suppressions'' [''address''] False None,
     index ''ix_suppressions_project'' ''suppressions'' [''project_id''] False None]"

definition model_idempotency_keys :: table_def where
  "model_idempotency_keys = \<lparr>td_name = ''idempotency_keys'',
     td_columns = [
       column ''id'' Sql_Big_Integer False None,
       column ''project_id'' Sql_Integer False None,
       column ''key'' (Sql_String 255) False None,
       column ''request_hash'' (Sql_String 64) False None,
       column ''message_id'' Sql_Big_Integer True None,
       column ''response_status'' Sql_Integer True None,
       column ''response_body'' Sql_Jsonb True None,
       column ''created_at'' Sql_Timestamp False (Some ''now()''),
       column ''expires_at'' Sql_Timestamp False None],
     td_constraints = [
       Primary_Key [''id''],
       Foreign_Key None [''project_id''] ''projects'' [''id''] ''CASCADE'',
       Foreign_Key None [''message_id''] ''messages'' [''id''] ''SET NULL'',
       Unique_Key (Some ''uq_idempotency_project_key'') [''project_id'', ''key'']]\<rparr>"

definition model_idempotency_keys_indexes :: "index_def list" where
  "model_idempotency_keys_indexes = [index ''ix_idempotency_expires'' ''idempotency_keys'' [''expires_at''] False None]"

definition model_worker_heartbeats :: table_def where
  "model_worker_heartbeats = \<lparr>td_name = ''worker_heartbeats'',
     td_columns = [
       column ''id'' Sql_Integer False None,
       column ''worker_id'' (Sql_String 150) False None,
       column ''version'' (Sql_String 40) True None,
       column ''last_seen_at'' Sql_Timestamp False (Some ''now()''),
       column ''messages_processed'' Sql_Big_Integer False (Some ''0'')],
     td_constraints = [
       Primary_Key [''id''],
       Unique_Key None [''worker_id'']]\<rparr>"

definition model_worker_heartbeats_indexes :: "index_def list" where
  "model_worker_heartbeats_indexes = [index ''ix_heartbeat_last_seen'' ''worker_heartbeats'' [''last_seen_at''] False None]"

definition model_send_counters :: table_def where
  "model_send_counters = \<lparr>td_name = ''send_counters'',
     td_columns = [
       column ''id'' Sql_Big_Integer False None,
       column ''mailbox_id'' Sql_Integer False None,
       column ''window_start'' Sql_Timestamp False None,
       column ''sent_count'' Sql_Integer False (Some ''0''),
       column ''provider_sent_today'' Sql_Integer True None,
       column ''provider_checked_at'' Sql_Timestamp True None,
       column ''drift_ratio'' Sql_Float True None],
     td_constraints = [
       Primary_Key [''id''],
       Foreign_Key None [''mailbox_id''] ''mailboxes'' [''id''] ''CASCADE'',
       Unique_Key (Some ''uq_counter_mailbox_window'') [''mailbox_id'', ''window_start'']]\<rparr>"

definition model_send_counters_indexes :: "index_def list" where
  "model_send_counters_indexes = [index ''ix_send_counters_lookup'' ''send_counters'' [''mailbox_id'',
       ''window_start''] False None]"

definition model_provisioning_jobs :: table_def where
  "model_provisioning_jobs = \<lparr>td_name = ''provisioning_jobs'',
     td_columns = [
       column ''id'' Sql_Integer False None,
       column ''job_type'' (Sql_Enum ''job_type'' job_type_values) False None,
       column ''status'' (Sql_Enum ''job_status'' job_status_values) False (Some ([CHR 39] @ ''pending'' @ [CHR 39])),
       column ''payload'' Sql_Jsonb True None,
       column ''requested_by'' (Sql_String 40) False (Some ([CHR 39] @ ''dashboard'' @ [CHR 39])),
       column ''result'' Sql_Text True None,
       column ''created_at'' Sql_Timestamp False (Some ''now()''),
       column ''claimed_at'' Sql_Timestamp True None,
       column ''completed_at'' Sql_Timestamp True None],
     td_constraints = [
       Primary_Key [''id'']]\<rparr>"

definition model_provisioning_jobs_indexes :: "index_def list" where
  "model_provisioning_jobs_indexes = [index ''ix_jobs_claimable'' ''provisioning_jobs'' [''status'',
       ''created_at''] False None]"

definition model_tables :: "table_def list" where
  "model_tables = [model_installation, model_projects, model_domains, model_mailboxes, model_api_keys,
       model_api_key_scopes, model_messages, model_events, model_suppressions, model_idempotency_keys,
       model_worker_heartbeats, model_send_counters, model_provisioning_jobs]"

definition model_indexes :: "index_def list" where
  "model_indexes = concat [model_installation_indexes, model_projects_indexes, model_domains_indexes,
       model_mailboxes_indexes, model_api_keys_indexes, model_api_key_scopes_indexes, model_messages_indexes,
       model_events_indexes, model_suppressions_indexes, model_idempotency_keys_indexes,
       model_worker_heartbeats_indexes, model_send_counters_indexes, model_provisioning_jobs_indexes]"


section \<open>Rollback\<close>

text \<open>What an operation that adds something is undone by.\<close>

fun inverse :: "ddl \<Rightarrow> ddl list" where
  "inverse (Create_Table t) = Drop_Table (td_name t) # map (Drop_Type \<circ> fst) (enum_types t)"
| "inverse (Add_Column n c) = [Drop_Column n (co_name c)]"
| "inverse (Create_Index i) = [Drop_Index (ix_name i)]"
| "inverse (Create_Constraint n r) = (case rule_name r of None \<Rightarrow> [] | Some c \<Rightarrow> [Drop_Constraint n c])"
| "inverse _ = []"

fun additive :: "ddl \<Rightarrow> bool" where
  "additive (Create_Table t) = True"
| "additive (Add_Column n c) = True"
| "additive (Create_Index i) = True"
| "additive (Create_Constraint n r) = True"
| "additive _ = False"

text \<open>A schema as PostgreSQL keeps it: whatever is referred to exists.\<close>

definition sound :: "schema \<Rightarrow> bool" where
  "sound s \<longleftrightarrow> distinct (table_names s) \<and>
     (\<forall>i \<in> set (sm_indexes s). \<exists>t \<in> set (sm_tables s). td_name t = ix_table i \<and> set (ix_columns i) \<subseteq> set (column_names t)) \<and>
     (\<forall>t \<in> set (sm_tables s). (\<forall>r \<in> set (td_constraints t). rule_ok s t r) \<and>
        (\<forall>e \<in> set (enum_types t). fst e \<in> fst ` set (sm_types s)))"

lemma run_ddl_append: "run_ddl (xs @ ys) s = (case run_ddl xs s of None \<Rightarrow> None | Some s' \<Rightarrow> run_ddl ys s')"
  by (induction xs arbitrary: s) (auto split: option.splits)

lemma rule_ok_iff:
  "rule_ok s t r \<longleftrightarrow> set (rule_columns r) \<subseteq> set (column_names t) \<and> (\<forall>u. rule_target r = Some u \<longrightarrow> u \<in> set (table_names s))"
  by (auto simp: rule_ok_def list_all_iff split: option.splits)

lemma sound_rule:
  assumes "sound s" "u \<in> set (sm_tables s)" "r \<in> set (td_constraints u)"
  shows "set (rule_columns r) \<subseteq> set (column_names u)" "rule_target r = Some n \<Longrightarrow> n \<in> set (table_names s)"
  using assms unfolding sound_def rule_ok_iff by blast+

lemma sound_index: "sound s \<Longrightarrow> i \<in> set (sm_indexes s) \<Longrightarrow> ix_table i \<in> set (table_names s)"
  by (force simp: sound_def table_names_def)

lemma sound_type:
  "sound s \<Longrightarrow> u \<in> set (sm_tables s) \<Longrightarrow> e \<in> set (enum_types u) \<Longrightarrow> fst e \<in> fst ` set (sm_types s)"
  unfolding sound_def by blast

lemma refers_to_iff: "refers_to n t \<longleftrightarrow> (\<exists>r \<in> set (td_constraints t). rule_target r = Some n)"
  by (simp add: refers_to_def list_ex_iff)

lemma table_named_SomeD: "table_named s n = Some t \<Longrightarrow> t \<in> set (sm_tables s) \<and> td_name t = n"
  by (auto simp: table_named_def dest: find_SomeD)

lemma same_table:
  "sound s \<Longrightarrow> table_named s n = Some t \<Longrightarrow> u \<in> set (sm_tables s) \<Longrightarrow> td_name u = n \<Longrightarrow> u = t"
  using table_named_SomeD [of s n t] by (auto simp: sound_def table_names_def distinct_map inj_on_def)

lemma change_table_names:
  "(\<And>t. td_name (f t) = td_name t) \<Longrightarrow> table_names (change_table n f s) = table_names s"
  by (auto simp: change_table_def table_names_def)

lemma table_named_change:
  assumes "\<And>t. td_name (f t) = td_name t" "table_named s n = Some t"
  shows "table_named (change_table n f s) n = Some (f t)"
proof -
  have "find (\<lambda>t. td_name t = n) (map (\<lambda>t. if td_name t = n then f t else t) ts) =
      map_option f (find (\<lambda>t. td_name t = n) ts)" for ts
    using assms(1) by (induction ts) auto
  with assms(2) show ?thesis by (simp add: table_named_def change_table_def)
qed

text \<open>A change of one table that another change undoes.\<close>

lemma change_back:
  assumes "sound s" "table_named s n = Some t" "g (f t) = t" "\<And>t. td_name (f t) = td_name t"
  shows "change_table n g (change_table n f s) = s"
proof -
  have "map (\<lambda>t. if td_name t = n then g t else t) (map (\<lambda>t. if td_name t = n then f t else t) (sm_tables s)) = sm_tables s"
    using same_table [OF assms(1,2)] assms(3,4) by (auto intro!: map_idI)
  then show ?thesis by (simp add: change_table_def)
qed

lemma drop_types:
  assumes "\<forall>n \<in> set ns. n \<notin> fst ` set A \<and> (\<forall>t \<in> set (sm_tables s). n \<notin> fst ` set (enum_types t))"
    and "fst ` set B \<subseteq> set ns"
  shows "run_ddl (map Drop_Type ns) (s\<lparr>sm_types := A @ B\<rparr>) = Some (s\<lparr>sm_types := A\<rparr>)"
  using assms
proof (induction ns arbitrary: B)
  case Nil
  then show ?case by simp
next
  case (Cons n ns)
  then have "filter (\<lambda>e. fst e \<noteq> n) A = A" by (force simp: filter_id_conv)
  moreover have "run_ddl (map Drop_Type ns) (s\<lparr>sm_types := A @ filter (\<lambda>e. fst e \<noteq> n) B\<rparr>) = Some (s\<lparr>sm_types := A\<rparr>)"
    using Cons.prems by (intro Cons.IH) auto
  ultimately show ?case using Cons.prems(1) by (simp add: list_ex_iff)
qed

lemma create_table_undone:
  assumes "sound s" "ddl_step (Create_Table t) s = Some s'"
  shows "run_ddl (inverse (Create_Table t)) s' = Some s"
proof -
  let ?n = "td_name t"
  have new: "?n \<notin> set (table_names s)" "\<forall>e \<in> set (enum_types t). fst e \<notin> fst ` set (sm_types s)"
    and s': "s' = s\<lparr>sm_types := sm_types s @ enum_types t, sm_tables := sm_tables s @ [t]\<rparr>"
    using assms(2) by (auto simp: list_ex_iff split: if_splits)
  have "\<not> refers_to ?n u" if "u \<in> set (sm_tables s)" for u
    using sound_rule(2) [OF assms(1) that] new(1) by (auto simp: refers_to_iff)
  then have free: "\<not> list_ex (\<lambda>u. td_name u \<noteq> ?n \<and> refers_to ?n u) (sm_tables s')"
    by (auto simp: s' list_ex_iff)
  have tables: "filter (\<lambda>u. td_name u \<noteq> ?n) (sm_tables s) = sm_tables s"
    using new(1) by (fastforce simp: filter_id_conv table_names_def image_iff)
  have indexes: "filter (\<lambda>i. ix_table i \<noteq> ?n) (sm_indexes s) = sm_indexes s"
    by (rule filter_True) (metis new(1) sound_index [OF assms(1)])
  have "?n \<in> set (table_names s')" by (simp add: s' table_names_def)
  with free have "ddl_step (Drop_Table ?n) s' = Some (s'\<lparr>sm_tables := filter (\<lambda>t. td_name t \<noteq> ?n) (sm_tables s'),
      sm_indexes := filter (\<lambda>i. ix_table i \<noteq> ?n) (sm_indexes s')\<rparr>)" by simp
  also have "\<dots> = Some (s\<lparr>sm_types := sm_types s @ enum_types t\<rparr>)"
    by (simp add: s' tables indexes)
  finally have 1: "ddl_step (Drop_Table ?n) s' = Some (s\<lparr>sm_types := sm_types s @ enum_types t\<rparr>)" .
  have "run_ddl (map Drop_Type (map fst (enum_types t))) (s\<lparr>sm_types := sm_types s @ enum_types t\<rparr>) =
      Some (s\<lparr>sm_types := sm_types s\<rparr>)"
  proof (rule drop_types)
    show "\<forall>n \<in> set (map fst (enum_types t)). n \<notin> fst ` set (sm_types s) \<and>
        (\<forall>u \<in> set (sm_tables s). n \<notin> fst ` set (enum_types u))"
      using new(2) sound_type [OF assms(1)] by auto
  qed simp
  then have 2: "run_ddl (map (Drop_Type \<circ> fst) (enum_types t)) (s\<lparr>sm_types := sm_types s @ enum_types t\<rparr>) = Some s"
    by simp
  show ?thesis unfolding inverse.simps run_ddl.simps 1 option.case 2 ..
qed

lemma add_column_undone:
  assumes "sound s" "ddl_step (Add_Column n c) s = Some s'"
  shows "run_ddl (inverse (Add_Column n c)) s' = Some s"
proof -
  let ?f = "\<lambda>t. t\<lparr>td_columns := td_columns t @ [c]\<rparr>"
  obtain t where t: "table_named s n = Some t"
    using assms(2) by (cases "table_named s n") auto
  then have new: "co_name c \<notin> set (column_names t)" and s': "s' = change_table n ?f s"
    using assms(2) by (auto split: if_splits)
  let ?g = "\<lambda>t. t\<lparr>td_columns := filter (\<lambda>q. co_name q \<noteq> co_name c) (td_columns t),
                  td_constraints := filter (\<lambda>r. co_name c \<notin> set (rule_columns r)) (td_constraints t)\<rparr>"
  have "filter (\<lambda>q. co_name q \<noteq> co_name c) (td_columns t) = td_columns t"
    using new by (fastforce simp: filter_id_conv column_names_def image_iff)
  moreover have "filter (\<lambda>r. co_name c \<notin> set (rule_columns r)) (td_constraints t) = td_constraints t"
    using sound_rule(1) [OF assms(1)] new table_named_SomeD [OF t] by (auto simp: filter_id_conv)
  ultimately have "?g (?f t) = t" by simp
  moreover have "filter (\<lambda>i. \<not> (ix_table i = n \<and> co_name c \<in> set (ix_columns i))) (sm_indexes s) = sm_indexes s"
    using assms(1) new same_table [OF assms(1) t] by (fastforce simp: filter_id_conv sound_def)
  moreover have "table_named s' n = Some (?f t)" unfolding s' by (rule table_named_change) (simp_all add: t)
  ultimately show ?thesis
    using change_back [OF assms(1) t, of ?g ?f] by (simp add: s' column_names_def change_table_def)
qed


lemma create_index_undone:
  assumes "ddl_step (Create_Index i) s = Some s'"
  shows "run_ddl (inverse (Create_Index i)) s' = Some s"
proof -
  obtain t where t: "table_named s (ix_table i) = Some t"
    using assms by (cases "table_named s (ix_table i)") auto
  with assms have new: "ix_name i \<notin> ix_name ` set (sm_indexes s)" and s': "s' = s\<lparr>sm_indexes := sm_indexes s @ [i]\<rparr>"
    by (auto split: if_splits)
  have "filter (\<lambda>q. ix_name q \<noteq> ix_name i) (sm_indexes s) = sm_indexes s"
    by (rule filter_True) (metis new image_eqI)
  then show ?thesis by (simp add: s')
qed

lemma create_constraint_undone:
  assumes "sound s" "ddl_step (Create_Constraint n r) s = Some s'"
  shows "run_ddl (inverse (Create_Constraint n r)) s' = Some s"
proof -
  let ?f = "\<lambda>t. t\<lparr>td_constraints := td_constraints t @ [r]\<rparr>"
  obtain t where t: "table_named s n = Some t"
    using assms(2) by (cases "table_named s n") auto
  with assms(2) obtain c where c: "rule_name r = Some c" and s': "s' = change_table n ?f s"
    and new: "Some c \<notin> rule_name ` set (td_constraints t)"
    by (auto split: if_splits)
  let ?g = "\<lambda>t. t\<lparr>td_constraints := filter (\<lambda>r. rule_name r \<noteq> Some c) (td_constraints t)\<rparr>"
  have "filter (\<lambda>r. rule_name r \<noteq> Some c) (td_constraints t) = td_constraints t"
    by (rule filter_True) (metis new image_eqI)
  then have "?g (?f t) = t" using c by simp
  moreover have "table_named s' n = Some (?f t)" unfolding s' by (rule table_named_change) (simp_all add: t)
  ultimately show ?thesis
    using change_back [OF assms(1) t, of ?g ?f] by (simp add: s' c)
qed

lemma inverse_undoes:
  "sound s \<Longrightarrow> additive x \<Longrightarrow> ddl_step x s = Some s' \<Longrightarrow> run_ddl (inverse x) s' = Some s"
  by (cases x) (simp_all only: additive.simps create_table_undone add_column_undone create_index_undone
    create_constraint_undone)

text \<open>What exists goes on to exist.\<close>

lemma sound_change:
  assumes "sound s" "table_named s n = Some t" "\<And>t. td_name (f t) = td_name t"
    and "set (column_names t) \<subseteq> set (column_names (f t))"
    and "\<forall>r \<in> set (td_constraints (f t)). r \<in> set (td_constraints t) \<or> rule_ok s t r"
    and "\<forall>e \<in> set (enum_types (f t)). fst e \<in> fst ` set (sm_types s)"
  shows "sound (change_table n f s)"
proof -
  let ?s = "change_table n f s"
  have names: "table_names ?s = table_names s" by (rule change_table_names) (rule assms(3))
  have sel: "sm_indexes ?s = sm_indexes s" "sm_types ?s = sm_types s" by (simp_all add: change_table_def)
  have t: "t \<in> set (sm_tables s)" "td_name t = n" using table_named_SomeD [OF assms(2)] by simp_all
  have same: "td_name u = n \<longleftrightarrow> u = t" if "u \<in> set (sm_tables s)" for u
    using same_table [OF assms(1,2) that] t(2) by blast
  have "set (sm_tables ?s) = (\<lambda>u. if td_name u = n then f u else u) ` set (sm_tables s)"
    by (simp add: change_table_def)
  also have "\<dots> = (\<lambda>u. if u = t then f u else u) ` set (sm_tables s)"
    by (rule image_cong) (simp_all add: same)
  also have "\<dots> = insert (f t) (set (sm_tables s) - {t})" using t(1) by auto
  finally have tables: "set (sm_tables ?s) = insert (f t) (set (sm_tables s) - {t})" .
  have d: "distinct (table_names s)" using assms(1) by (simp add: sound_def)
  have index: "\<exists>u \<in> set (sm_tables ?s). td_name u = ix_table i \<and> set (ix_columns i) \<subseteq> set (column_names u)"
    if "i \<in> set (sm_indexes s)" for i
  proof -
    obtain u where "u \<in> set (sm_tables s)" "td_name u = ix_table i" "set (ix_columns i) \<subseteq> set (column_names u)"
      using assms(1) \<open>i \<in> set (sm_indexes s)\<close> by (auto simp: sound_def)
    then show ?thesis unfolding tables using assms(3,4) by (cases "u = t") auto
  qed
  have rules: "rule_ok ?s u r"
    if "u \<in> set (sm_tables ?s)" "r \<in> set (td_constraints u)" for u r
  proof (cases "u = f t")
    case True
    with that assms(5) have "rule_ok s t r" using sound_rule [OF assms(1) t(1)] unfolding rule_ok_iff by blast
    with True assms(4) show ?thesis unfolding rule_ok_iff names by blast
  next
    case False
    with that(1) have "u \<in> set (sm_tables s)" by (simp add: tables)
    with that(2) show ?thesis
      using sound_rule [OF assms(1)] unfolding rule_ok_iff names by blast
  qed
  have types: "fst e \<in> fst ` set (sm_types s)" if "u \<in> set (sm_tables ?s)" "e \<in> set (enum_types u)" for u e
    using that assms(6) sound_type [OF assms(1)] unfolding tables by blast
  show ?thesis
    unfolding sound_def names sel using d index rules types by blast
qed

lemma create_table_sound:
  assumes "sound s" "ddl_step (Create_Table t) s = Some s'"
  shows "sound s'"
proof -
  have new: "td_name t \<notin> set (table_names s)" "list_all (rule_ok (s\<lparr>sm_tables := sm_tables s @ [t]\<rparr>) t) (td_constraints t)"
    and s': "s' = s\<lparr>sm_types := sm_types s @ enum_types t, sm_tables := sm_tables s @ [t]\<rparr>"
    using assms(2) by (simp_all split: if_splits)
  have names: "table_names s' = table_names s @ [td_name t]" by (simp add: s' table_names_def)
  have sel: "sm_indexes s' = sm_indexes s" "set (sm_types s') = set (sm_types s) \<union> set (enum_types t)"
    "set (sm_tables s') = insert t (set (sm_tables s))" by (auto simp: s')
  have d: "distinct (table_names s')" using assms(1) new(1) by (simp add: names sound_def)
  have rules: "rule_ok s' u r" if "u \<in> set (sm_tables s')" "r \<in> set (td_constraints u)" for u r
  proof (cases "u = t")
    case True
    then show ?thesis using that(2) new(2) by (auto simp: list_all_iff rule_ok_iff s' table_names_def)
  next
    case False
    with that sel(3) have "u \<in> set (sm_tables s)" by simp
    from sound_rule [OF assms(1) this that(2)] show ?thesis by (auto simp: rule_ok_iff names)
  qed
  have types: "fst e \<in> fst ` set (sm_types s')" if "u \<in> set (sm_tables s')" "e \<in> set (enum_types u)" for u e
    using that sound_type [OF assms(1)] unfolding sel by blast
  have index: "\<exists>u \<in> set (sm_tables s'). td_name u = ix_table i \<and> set (ix_columns i) \<subseteq> set (column_names u)"
    if "i \<in> set (sm_indexes s)" for i
    using that assms(1) unfolding sound_def sel by blast
  show ?thesis unfolding sound_def sel(1) using d index rules types by blast
qed

lemma enum_types_add: "set (enum_types (t\<lparr>td_columns := td_columns t @ [c]\<rparr>)) =
    set (enum_types t) \<union> (case type_of (co_type c) of None \<Rightarrow> {} | Some e \<Rightarrow> {e})"
  by (auto simp: enum_types_def List.map_filter_def split: option.splits)

lemma add_column_sound:
  assumes "sound s" "ddl_step (Add_Column n c) s = Some s'"
  shows "sound s'"
proof -
  obtain t where t: "table_named s n = Some t"
    using assms(2) by (cases "table_named s n") auto
  then have s': "s' = change_table n (\<lambda>t. t\<lparr>td_columns := td_columns t @ [c]\<rparr>) s"
    using assms(2) by (auto split: if_splits option.splits)
  have known: "\<forall>e. type_of (co_type c) = Some e \<longrightarrow> fst e \<in> fst ` set (sm_types s)"
    using assms(2) t by (force split: if_splits option.splits)
  have "t \<in> set (sm_tables s)" using table_named_SomeD [OF t] by simp
  then have "\<forall>e \<in> set (enum_types (t\<lparr>td_columns := td_columns t @ [c]\<rparr>)). fst e \<in> fst ` set (sm_types s)"
    using sound_type [OF assms(1)] known unfolding enum_types_add by (auto split: option.splits)
  then show ?thesis
    unfolding s' by (intro sound_change [OF assms(1) t]) (auto simp: column_names_def)
qed

lemma create_index_sound:
  assumes "sound s" "ddl_step (Create_Index i) s = Some s'"
  shows "sound s'"
proof -
  obtain t where t: "table_named s (ix_table i) = Some t"
    using assms(2) by (cases "table_named s (ix_table i)") auto
  with assms(2) have s': "s' = s\<lparr>sm_indexes := sm_indexes s @ [i]\<rparr>"
    and cols: "set (ix_columns i) \<subseteq> set (column_names t)"
    by (auto simp: list_all_iff split: if_splits)
  with assms(1) table_named_SomeD [OF t] show ?thesis
    by (auto simp: sound_def s' table_names_def rule_ok_iff)
qed

lemma create_constraint_sound:
  assumes "sound s" "ddl_step (Create_Constraint n r) s = Some s'"
  shows "sound s'"
proof -
  obtain t where t: "table_named s n = Some t"
    using assms(2) by (cases "table_named s n") auto
  then have s': "s' = change_table n (\<lambda>t. t\<lparr>td_constraints := td_constraints t @ [r]\<rparr>) s" and ok: "rule_ok s t r"
    using assms(2) by (auto split: if_splits)
  have "t \<in> set (sm_tables s)" using table_named_SomeD [OF t] by simp
  then have types: "\<forall>e \<in> set (enum_types t). fst e \<in> fst ` set (sm_types s)"
    using sound_type [OF assms(1)] by blast
  show ?thesis
    unfolding s' by (rule sound_change [OF assms(1) t]) (use ok types in \<open>simp_all add: column_names_def enum_types_def\<close>)
qed

lemma step_sound:
  assumes "sound s" "additive x" "ddl_step x s = Some s'"
  shows "sound s'"
proof (cases x)
  case (Create_Table t)
  with assms create_table_sound show ?thesis by blast
next
  case (Add_Column n c)
  with assms add_column_sound show ?thesis by blast
next
  case (Create_Index i)
  with assms create_index_sound show ?thesis by blast
next
  case (Create_Constraint n r)
  with assms create_constraint_sound show ?thesis by blast
qed (use assms(2) in \<open>simp_all only: additive.simps\<close>)

lemma run_undone:
  assumes "sound s" "list_all additive xs" "run_ddl xs s = Some s'"
  shows "sound s' \<and> run_ddl (concat (map inverse (rev xs))) s' = Some s"
  using assms
proof (induction xs arbitrary: s)
  case Nil
  then show ?case by simp
next
  case (Cons x xs)
  obtain s1 where s1: "ddl_step x s = Some s1" "run_ddl xs s1 = Some s'"
    using Cons.prems(3) by (cases "ddl_step x s") simp_all
  with Cons.prems have ok: "sound s1" "run_ddl (inverse x) s1 = Some s"
    using step_sound inverse_undoes by auto
  with Cons.IH [OF ok(1) _ s1(2)] Cons.prems(2) show ?case by (simp add: run_ddl_append)
qed

text \<open>The downgrades of the later revisions are the inverses of their upgrades, operation by operation.\<close>

lemmas revision_defs = upgrade_installation_def downgrade_installation_def upgrade_accounting_def
  downgrade_accounting_def upgrade_observability_def downgrade_observability_def upgrade_dashboard_def
  downgrade_dashboard_def

lemma downgrades_invert:
  "(up, down) \<in> set later_revisions \<Longrightarrow> list_all additive up \<and> down = concat (map inverse (rev up))"
  by (auto simp: later_revisions_def revision_defs enum_types_def List.map_filter_def column_def index_def)

text \<open>
  C19 A rollback is exact.  Applied to any schema on which its upgrade succeeds, the downgrade of each
  revision after the first gives that schema back: its tables, columns, rules, indexes and types, in
  their order.
\<close>

theorem rollback_restores_schema:
  assumes "(up, down) \<in> set later_revisions" "sound s" "run_ddl up s = Some s'"
  shows "run_ddl down s' = Some s"
proof -
  have "list_all additive up" "down = concat (map inverse (rev up))"
    using downgrades_invert [OF assms(1)] by simp_all
  with run_undone [OF assms(2) _ assms(3)] show ?thesis by simp
qed



section \<open>The models and the migrations\<close>

text \<open>A table up to the order of its columns and rules, which adding columns later changes.\<close>

definition unordered :: "table_def \<Rightarrow> string \<times> column_def set \<times> table_rule set" where
  "unordered t = (td_name t, set (td_columns t), set (td_constraints t))"

definition same_members :: "'a list \<Rightarrow> 'a list \<Rightarrow> bool" where
  "same_members xs ys \<longleftrightarrow> length xs = length ys \<and> list_all (\<lambda>x. x \<in> set ys) xs \<and> list_all (\<lambda>y. y \<in> set xs) ys"

definition same_table_def :: "table_def \<Rightarrow> table_def \<Rightarrow> bool" where
  "same_table_def t u \<longleftrightarrow> td_name t = td_name u \<and> same_members (td_columns t) (td_columns u) \<and>
     same_members (td_constraints t) (td_constraints u)"

definition found_in :: "table_def list \<Rightarrow> table_def \<Rightarrow> bool" where
  "found_in ms t = (case find (\<lambda>m. td_name m = td_name t) ms of None \<Rightarrow> False | Some m \<Rightarrow> same_table_def t m)"

lemma same_members_set: "same_members xs ys \<Longrightarrow> set xs = set ys"
  by (auto simp: same_members_def list_all_iff)

lemma found_in_unordered: "found_in ms t \<Longrightarrow> unordered t \<in> unordered ` set ms"
  by (auto simp: found_in_def same_table_def_def unordered_def image_iff dest!: same_members_set
      dest: find_SomeD split: option.splits)

lemma run_ddl_split:
  "run_ddl (xs @ ys) s = Some r \<Longrightarrow> \<exists>s'. run_ddl xs s = Some s' \<and> run_ddl ys s' = Some r"
  by (simp add: run_ddl_append split: option.splits)

text \<open>What additive operations leave, where they succeed.\<close>

fun plain_step :: "ddl \<Rightarrow> schema \<Rightarrow> schema" where
  "plain_step (Create_Table t) s = s\<lparr>sm_types := sm_types s @ enum_types t, sm_tables := sm_tables s @ [t]\<rparr>"
| "plain_step (Add_Column n c) s = change_table n (\<lambda>t. t\<lparr>td_columns := td_columns t @ [c]\<rparr>) s"
| "plain_step (Create_Index i) s = s\<lparr>sm_indexes := sm_indexes s @ [i]\<rparr>"
| "plain_step (Create_Constraint n r) s = change_table n (\<lambda>t. t\<lparr>td_constraints := td_constraints t @ [r]\<rparr>) s"
| "plain_step x s = s"

lemma run_plain: "list_all additive xs \<Longrightarrow> run_ddl xs s = Some s' \<Longrightarrow> s' = fold plain_step xs s"
proof (induction xs arbitrary: s)
  case (Cons x xs)
  then obtain r where r: "ddl_step x s = Some r" "run_ddl xs r = Some s'" by (cases "ddl_step x s") simp_all
  with Cons.prems(1) have "r = plain_step x s" by (cases x) (auto split: if_splits option.splits)
  with Cons.IH [OF _ r(2)] Cons.prems(1) show ?case by simp
qed simp

lemma upgrades_succeed: "run_ddl all_upgrades empty_schema \<noteq> None"
  by code_simp

lemma migrated_tables: "length (sm_tables (fold plain_step all_upgrades empty_schema)) = length model_tables"
  "list_all (found_in model_tables) (sm_tables (fold plain_step all_upgrades empty_schema))"
  by code_simp+

lemma migrated_indexes: "same_members (sm_indexes (fold plain_step all_upgrades empty_schema)) model_indexes"
  by code_simp

lemma migrated_types: "same_members (sm_types (fold plain_step all_upgrades empty_schema)) (concat (map enum_types model_tables))"
  by code_simp

lemma initial_additive: "list_all additive upgrade_initial"
  by (simp add: upgrade_initial_def create_domains_def create_projects_def create_suppressions_def
      create_api_keys_def create_mailboxes_def create_api_key_scopes_def create_messages_def
      create_send_counters_def create_events_def create_idempotency_keys_def)

lemma all_additive: "list_all additive all_upgrades"
  using downgrades_invert initial_additive by (auto simp: all_upgrades_def later_revisions_def)

lemma sound_empty: "sound empty_schema"
  by (simp add: sound_def empty_schema_def table_names_def)

lemma same_tables:
  assumes "distinct (table_names s)" "length (sm_tables s) = length ms" "list_all (found_in ms) (sm_tables s)"
  shows "unordered ` set (sm_tables s) = unordered ` set ms"
proof (rule card_subset_eq)
  show "unordered ` set (sm_tables s) \<subseteq> unordered ` set ms"
    using assms(3) found_in_unordered unfolding list_all_iff by blast
  have "fst \<circ> unordered = td_name" by (auto simp: unordered_def)
  then have "distinct (map fst (map unordered (sm_tables s)))" using assms(1) by (simp add: table_names_def)
  then have "distinct (map unordered (sm_tables s))" using distinct_map [of fst "map unordered (sm_tables s)"] by blast
  then have "card (unordered ` set (sm_tables s)) = length ms"
    using assms(2) distinct_card [of "map unordered (sm_tables s)"] by simp
  moreover have "card (unordered ` set (sm_tables s)) \<le> card (unordered ` set ms)"
    by (rule card_mono) (simp_all add: \<open>unordered ` set (sm_tables s) \<subseteq> unordered ` set ms\<close>)
  moreover have "card (unordered ` set ms) \<le> length ms"
    using card_length [of "map unordered ms"] by simp
  ultimately show "card (unordered ` set (sm_tables s)) = card (unordered ` set ms)" by simp
qed simp

text \<open>
  C18 The migrations and the models agree.  Run in their order on an empty database, the five revisions
  succeed, and what they leave is the schema the models declare: the same tables with the same columns
  (type, nullability, default) and rules, the same indexes and the same enumeration types with the same
  values.
\<close>

theorem migrations_build_the_models:
  "\<exists>s. run_ddl all_upgrades empty_schema = Some s \<and>
     length (sm_tables s) = length model_tables \<and>
     unordered ` set (sm_tables s) = unordered ` set model_tables \<and>
     set (sm_indexes s) = set model_indexes \<and>
     set (sm_types s) = set (concat (map enum_types model_tables))"
proof -
  obtain s where s: "run_ddl all_upgrades empty_schema = Some s" using upgrades_succeed by blast
  then have plain: "s = fold plain_step all_upgrades empty_schema" by (rule run_plain [OF all_additive])
  have "distinct (table_names s)"
    using run_undone [OF sound_empty all_additive s] by (simp add: sound_def)
  then have "unordered ` set (sm_tables s) = unordered ` set model_tables"
    using migrated_tables unfolding plain by (rule same_tables)
  with s migrated_tables(1) migrated_indexes migrated_types show ?thesis
    unfolding plain by (blast dest: same_members_set)
qed

text \<open>Each revision is applied to a sound schema, the one the revisions before it leave.\<close>

lemma rollback_restores_schema_witness:
  "\<exists>s s'. run_ddl (upgrade_initial @ upgrade_installation @ upgrade_accounting @ upgrade_observability) empty_schema = Some s \<and>
     run_ddl upgrade_dashboard s = Some s' \<and> run_ddl downgrade_dashboard s' = Some s"
proof -
  let ?xs = "upgrade_initial @ upgrade_installation @ upgrade_accounting @ upgrade_observability"
  obtain r where "run_ddl all_upgrades empty_schema = Some r" using upgrades_succeed by blast
  then have "run_ddl (?xs @ upgrade_dashboard) empty_schema = Some r"
    by (simp only: all_upgrades_def later_revisions_def list.map concat.simps fst_conv append_Nil2 append_assoc)
  from run_ddl_split [OF this] obtain s s' where
    s: "run_ddl ?xs empty_schema = Some s" "run_ddl upgrade_dashboard s = Some s'" by blast
  have "list_all additive ?xs"
    using downgrades_invert initial_additive by (auto simp: later_revisions_def)
  then have "sound s" using run_undone [OF sound_empty _ s(1)] by simp
  moreover have "(upgrade_dashboard, downgrade_dashboard) \<in> set later_revisions"
    by (simp only: later_revisions_def list.set insert_iff simp_thms)
  ultimately have "run_ddl downgrade_dashboard s' = Some s"
    using s(2) rollback_restores_schema by blast
  with s show ?thesis by blast
qed

text \<open>
  The first revision is not undone so: its downgrade leaves its enumeration types, and applying it again
  then fails.
\<close>

lemma types_remain:
  assumes "list_all (\<lambda>x. \<forall>n. x \<noteq> Drop_Type n) xs" "run_ddl xs s = Some s'"
  shows "set (sm_types s) \<subseteq> set (sm_types s')"
  using assms
proof (induction xs arbitrary: s)
  case (Cons x xs)
  then obtain r where r: "ddl_step x s = Some r" "run_ddl xs r = Some s'" by (cases "ddl_step x s") simp_all
  with Cons.prems(1) have "set (sm_types s) \<subseteq> set (sm_types r)"
    by (cases x) (auto simp: change_table_def split: if_splits option.splits)
  with Cons.IH [OF _ r(2)] Cons.prems(1) show ?case by auto
qed simp

lemma first_rollback_succeeds: "run_ddl (upgrade_initial @ downgrade_initial) empty_schema \<noteq> None"
  by code_simp

lemma first_revision_fails_again:
  "\<exists>s. run_ddl (upgrade_initial @ downgrade_initial) empty_schema = Some s \<and> run_ddl upgrade_initial s = None"
proof -
  let ?e = "(''domain_status'', [''added'', ''ownership_pending'', ''dns_incomplete'', ''verified'', ''ready'',
    ''suspended'', ''misconfigured''])"
  obtain s where s: "run_ddl (upgrade_initial @ downgrade_initial) empty_schema = Some s"
    using first_rollback_succeeds by blast
  obtain t xs where t: "upgrade_initial = Create_Table t # xs" "t = (case hd create_domains of Create_Table t \<Rightarrow> t)"
    by (simp add: upgrade_initial_def create_domains_def)
  have "enum_types t = [?e]"
    unfolding t(2) by code_simp
  then have first: "upgrade_initial = Create_Table t # xs" "?e \<in> set (enum_types t)" by (simp_all add: t(1))
  have "list_all (\<lambda>x. \<forall>n. x \<noteq> Drop_Type n) (xs @ downgrade_initial)"
    using initial_additive by (auto simp: first(1) downgrade_initial_def list_all_iff)
  moreover obtain r where "ddl_step (Create_Table t) empty_schema = Some r" "run_ddl (xs @ downgrade_initial) r = Some s"
    using s by (cases "ddl_step (Create_Table t) empty_schema") (simp_all add: first(1))
  ultimately have "?e \<in> set (sm_types s)"
    using types_remain [of "xs @ downgrade_initial" r s] first(2) by (auto split: if_splits)
  then have "ddl_step (Create_Table t) s = None"
    using first(2) by (force simp: list_ex_iff)
  with s show ?thesis by (auto simp: first(1))
qed

end
