(* ===== verification/Spec2Isabelle.thy ===== *)
theory Spec2Isabelle
  imports Outcomes Api Provisioning Provisioner Pages Admin Logging Migrations
begin

text \<open>
  A model of emaild, a self-hosted transactional email service (emaild/ and alembic/ under src/), and
  the theorems about it.

  \<^bold>\<open>The program.\<close>  Applications send mail through an HTTP API.  A request is authorized, checked and
  stored as a row of the table of messages; a worker claims due rows, sends them over SMTP within the
  hourly ceiling of the sender, and records the answer.  Operators add domains and sender mailboxes at
  the mail provider, issue keys and watch the queue, from a command line and a dashboard; the dashboard
  holds no provider credential and leaves such work as jobs to a provisioner.  The processes share one
  PostgreSQL database and a volume of secrets, and nothing else.

  \<^bold>\<open>Theories.\<close>  The model is layered; each theory opens with what it holds.
  \<^item> \<open>Prelude\<close>, \<open>Errors\<close>, \<open>Models\<close>, \<open>Fixtures\<close>: tables as lists of rows, the result type with its laws, the
    exceptions and JSON values, the error model of the API (emaild/errors.py), one record per table and
    the enumerations (emaild/models.py), a small installation for the examples.
  \<^item> \<open>Py_Str\<close>, \<open>Py_Time\<close>, \<open>Py_Mail\<close>, \<open>Canonical\<close>: what the program uses of Python's str, datetime,
    email.utils and json.
  \<^item> Accepting mail: \<open>Auth\<close> (emaild/auth.py, emaild/crypto.py), \<open>Schemas\<close> (emaild/api/schemas.py),
    \<open>Suppressions\<close> (emaild/suppressions.py), \<open>Ingest\<close> (emaild/ingest.py), \<open>Api\<close> (emaild/api/v1.py).
  \<^item> Delivering it: \<open>Ratelimit\<close> (emaild/ratelimit.py), \<open>Classify\<close> and \<open>Delivery\<close> (emaild/delivery/),
    \<open>Claim_Queue\<close> and \<open>Worker\<close> (emaild/worker.py), \<open>Outcomes\<close>, \<open>Queue_Safety\<close>, \<open>Single_Send\<close> (theorems).
  \<^item> Domains and senders: \<open>Dnscheck\<close> (emaild/dnscheck.py), \<open>Mxroute\<close> (emaild/providers/mxroute.py),
    \<open>Domains\<close> (emaild/domains.py), \<open>Provisioning\<close> (emaild/provisioning.py), \<open>Jobs\<close> (emaild/jobs.py),
    \<open>Provisioner\<close> (emaild/provisioner.py), \<open>Management\<close> (emaild/management.py).
  \<^item> Processes: \<open>Config\<close> (emaild/config.py), \<open>Secretstore\<close> (emaild/secretstore.py), \<open>Startup\<close>
    (emaild/main.py, bootstrap.py, health.py, db.py), \<open>Metrics\<close> (emaild/metrics.py), \<open>Logging\<close>
    (emaild/logging_config.py), \<open>Migrations\<close> (alembic/versions/).
  \<^item> Operators: \<open>Admin\<close> (emaild/admin.py); \<open>Dashboard\<close> (emaild/dashboard/auth.py, csrf.py, forms.py),
    \<open>Setup_State\<close>, \<open>Testsend\<close> (the files of those names), \<open>Routes\<close> and \<open>Pages\<close> (emaild/dashboard/routes.py:
    the forms, the pages).

  \<^bold>\<open>How the code is read.\<close>  A function that only computes is a function.  An operation of the database
  takes the tables and returns a value with the tables it leaves, or an exception (\<open>Inl\<close>); a session
  that ends in an exception leaves what was committed before it.  Calls to the provider thread the
  provider's state in the same way, and there an exception undoes nothing.  Records and constructors
  carry the names of the classes and members of the source, with a prefix per table; a function keeps
  its name.  What the program reads from outside is an argument: the clock, random draws, the row a
  rival transaction commits, the rows another process has locked, the answers of DNS, of the provider
  and of SMTP servers, the hash and the cipher.  Interleavings are step relations: one committed
  transaction (or one file operation) per step, in any order, by any number of processes, with crashes
  between them.  Characters outside Latin-1 in fixed texts stand as their UTF-8 bytes; the binary floats
  of the source are exact rationals; times are counts of microseconds.

  \<^bold>\<open>Interfaces.\<close>  Four contracts are locales, each interpreted on the model: \<open>claim_queue\<close> (a claim that
  skips locked rows, for messages and for jobs), \<open>sliding_window\<close> (a limit over a moving window, for the
  hourly ceiling and for the pacing of provider calls), \<open>blocklist\<close> (the suppression list as its users
  see it) and \<open>delivery_adapter\<close> (SMTP and the sink of the test mode).

  \<^bold>\<open>What is shown.\<close>
  \<^item> The queue: no accepted message is lost, in any interleaving with crashes; final outcomes are final;
    an unfinished message comes back; the hourly ceiling holds in every run; what an application is told
    was accepted is stored, authorized and unsuppressed; retries with a key are answered and not sent.
  \<^item> Delivery: blind recipients stay in the envelope, a connection is not used past its advertised limit,
    an address is suppressed only on evidence, delays grow within their bounds.
  \<^item> Domains: a refresh implements one step of an abstract lifecycle; promotion and demotion need
    evidence; publishing the records shown is enough; the budget of provider calls is kept and a request
    ends after at most three calls.
  \<^item> Senders, keys and jobs: provisioning creates one identity or changes nothing, the stored password is
    the provider's, revocation holds at once, a new key authenticates, a job reaches only what it may;
    the provisioner settles every queued job and, whatever fails, keeps the queue's invariant.
  \<^item> Processes: all processes agree on each generated secret, roles hold only their secrets, keys are
    redacted from log lines, the migrations build the declared schema and their rollbacks restore what
    was there.
  \<^item> Operators: no form changes anything without the password and its token, each form keeps to its
    tables, pages show no secret and a new key only once, every offered test send is accepted, a command
    that fails changes nothing, the provider is reached only with the admin role and its credentials.
  Where the code does less than its comments say, a lemma holds the concrete run.

  \<^bold>\<open>Bounds.\<close>  Loops are structural or have a measure; no fuel decides a result.  \<open>read_or_create\<close> is four file
  operations; \<open>acquire_loop\<close> sleeps at most once, by its own termination proof; \<open>request_loop\<close> counts down
  the three attempts of the source; \<open>backoff_base\<close> is bounded by the table of delays, whose last entry
  serves every later attempt; the loops of the worker and the provisioner run over the list of the turns
  that come, of any length.

  \<^bold>\<open>Not modelled.\<close>  The markup of the templates; percent formatting of log messages and the wiring of the
  logging library;
  argparse (a command is its result); FastAPI, uvicorn, SQLAlchemy and alembic beyond the behaviour named
  above, among it alembic/env.py; signal handling and the entry points; pydantic's own error texts (a
  parameter); deployment files, scripts and tests.  The columns that no code reads are left out of the
  rows, and are part of the declared schema in \<open>Migrations\<close>.
\<close>

end
